(* ===== verification/Prelude.thy ===== *)
theory Prelude
  imports Main "HOL-Library.Word" "HOL-Library.Monad_Syntax"
begin

text \<open>
  The vocabulary every component shares: the machine integers of \<open>types.h\<close>, the flat
  32-bit memory the C pointers index, the loading and storing of byte runs, the address
  arithmetic the component proofs use, and the collections their automation is kept in.

  \<^item> \<open>uint8_t\<close>, \<open>uint16_t\<close> and \<open>uint32_t\<close> are words of that width, so \<open>+\<close> and
    \<open>-\<close> wrap as they do in C. A \<open>char\<close> (the kernel's \<open>int8_t\<close>) is a byte, read with
    \<open>sint\<close> where the code compares it.
  \<^item> An \<open>int32_t\<close> that carries a result code or an index is an \<open>int\<close>.
  \<^item> A loop that the code does not bound is a \<open>partial_function (option)\<close>: \<open>None\<close> is
    "does not return".
\<close>

unbundle bit_operations_syntax

section \<open>Machine integers and memory\<close>

type_synonym byte = "8 word"
type_synonym u16 = "16 word"
type_synonym u32 = "32 word"
type_synonym addr = "32 word"
type_synonym mem = "addr \<Rightarrow> byte"

named_theorems mem_simps \<open>reading back a memory after a byte run was stored\<close>
named_theorems inv_intros \<open>the operations that keep a component's invariant\<close>
named_theorems frame_simps \<open>the state fields an operation leaves alone\<close>

text \<open>The C remainder of \<open>int\<close>, which takes the sign of the dividend.\<close>

definition c_rem :: "int \<Rightarrow> int \<Rightarrow> int" where
  "c_rem a b = sgn a * (\<bar>a\<bar> mod \<bar>b\<bar>)"

text \<open>The bytes of a string literal, without its terminator.\<close>

definition lit :: "string \<Rightarrow> byte list" where
  "lit s = map of_char s"

lemma lit_Nil [simp]: "lit [] = []"
  by (simp add: lit_def)

lemma lit_Cons [simp]: "lit (c # cs) = of_char c # lit cs"
  by (simp add: lit_def)

text \<open>An offset below \<open>2 ^ 32\<close> determines the address.\<close>

lemma of_nat_u32_inj [simp]:
  "i < 4294967296 \<Longrightarrow> j < 4294967296 \<Longrightarrow> (of_nat i = (of_nat j :: u32)) = (i = j)"
  by (simp add: word_of_nat_eq_iff take_bit_nat_eq_self)

lemma unat_of_nat_u32 [simp]: "i < 4294967296 \<Longrightarrow> unat (of_nat i :: u32) = i"
  by (simp add: unat_of_nat)

lemma unat_u32_bound [simp]: "unat (x :: u32) < 4294967296"
  using unsigned_less [of x, where ?'a = nat] by simp

lemma unat_u32_le [simp]: "unat (x :: u32) \<le> 4294967296"
  by (rule less_imp_le) simp

lemma unat_minus_one_u32: "(n :: u32) \<noteq> 0 \<Longrightarrow> unat (n - 1) = unat n - 1"
  by (simp add: unat_minus_one)

lemma sint_of_int_u32 [simp]:
  "- 2147483648 \<le> k \<Longrightarrow> k < 2147483648 \<Longrightarrow> sint (word_of_int k :: u32) = k"
  by (simp add: int_word_sint)

lemma offset_cases: obtains i where "i < 4294967296" "(x :: addr) = a + of_nat i"
proof
  show "unat (x - a) < 4294967296" by simp
  show "x = a + of_nat (unat (x - a))" by simp
qed

subsection \<open>Byte runs\<close>

text \<open>
  \<open>load m a n\<close> are the \<open>n\<close> bytes from \<open>a\<close> on, \<open>store m a xs\<close> is the memory with
  \<open>xs\<close> written from \<open>a\<close> on. Both wrap at the top of memory, as addresses do.
\<close>

definition load :: "mem \<Rightarrow> addr \<Rightarrow> nat \<Rightarrow> byte list" where
  "load m a n = map (\<lambda>i. m (a + of_nat i)) [0..<n]"

definition store :: "mem \<Rightarrow> addr \<Rightarrow> byte list \<Rightarrow> mem" where
  "store m a xs = (\<lambda>x. if unat (x - a) < length xs then xs ! unat (x - a) else m x)"

definition disjoint :: "addr \<Rightarrow> nat \<Rightarrow> addr \<Rightarrow> nat \<Rightarrow> bool" where
  "disjoint a n b k \<longleftrightarrow> (\<forall>i < n. \<forall>j < k. a + of_nat i \<noteq> b + of_nat j)"

text \<open>The addresses of a run, and the little-endian \<open>uint32_t\<close> at an address.\<close>

abbreviation run :: "addr \<Rightarrow> nat \<Rightarrow> addr set" where
  "run a n \<equiv> (\<lambda>i. a + of_nat i) ` {..<n}"

definition load32 :: "mem \<Rightarrow> addr \<Rightarrow> u32" where
  "load32 m a = ucast (m a) OR push_bit 8 (ucast (m (a + 1)))
     OR push_bit 16 (ucast (m (a + 2))) OR push_bit 24 (ucast (m (a + 3)))"

lemma length_load [simp]: "length (load m a n) = n"
  by (simp add: load_def)

lemma nth_load [simp]: "i < n \<Longrightarrow> load m a n ! i = m (a + of_nat i)"
  by (simp add: load_def)

lemma load_0 [simp]: "load m a 0 = []"
  by (simp add: load_def)

lemma load_add: "load m a (n + k) = load m a n @ load m (a + of_nat n) k"
  by (rule nth_equalityI) (auto simp: nth_append add.assoc simp flip: of_nat_add)

lemma load_Suc: "load m a (Suc n) = m a # load m (a + 1) n"
  using load_add [of m a 1 n] by (simp add: load_def)

lemma store_Nil [simp]: "store m a [] = m"
  by (simp add: store_def)

lemma store_at: "i < length xs \<Longrightarrow> length xs \<le> 4294967296 \<Longrightarrow>
    store m a xs (a + of_nat i) = xs ! i"
  by (simp add: store_def)

lemma store_outside: "(\<And>i. i < length xs \<Longrightarrow> x \<noteq> a + of_nat i) \<Longrightarrow> store m a xs x = m x"
proof -
  assume "\<And>i. i < length xs \<Longrightarrow> x \<noteq> a + of_nat i"
  from this [of "unat (x - a)"] show ?thesis by (auto simp: store_def)
qed

lemma store_single [simp]: "store m a [b] = m(a := b)"
  by (auto simp: store_def fun_eq_iff unat_eq_0 intro!: ext)

lemma load_store [mem_simps]:
  "n = length xs \<Longrightarrow> length xs \<le> 4294967296 \<Longrightarrow> load (store m a xs) a n = xs"
  by (rule nth_equalityI) (auto simp: store_at)

lemma load_store_disjoint [mem_simps]:
  assumes "disjoint a n b (length xs)"
  shows "load (store m b xs) a n = load m a n"
  using assms by (intro nth_equalityI) (auto simp: disjoint_def intro!: store_outside)

lemma store_append:
  assumes "length xs + length ys \<le> 4294967296"
  shows "store (store m a xs) (a + of_nat (length xs)) ys = store m a (xs @ ys)"
proof
  fix x
  obtain i where i: "i < 4294967296" "x = a + of_nat i" by (rule offset_cases)
  show "store (store m a xs) (a + of_nat (length xs)) ys x = store m a (xs @ ys) x"
  proof (cases "i < length xs")
    case True
    have "store (store m a xs) (a + of_nat (length xs)) ys x = store m a xs x"
    proof (rule store_outside)
      fix j assume "j < length ys"
      with True i assms show "x \<noteq> a + of_nat (length xs) + of_nat j"
        by (simp add: add.assoc flip: of_nat_add)
    qed
    with True i show ?thesis by (simp add: store_def nth_append)
  next
    case False
    then have "x - (a + of_nat (length xs)) = of_nat (i - length xs)"
      using i by (simp add: of_nat_diff)
    with i have "unat (x - (a + of_nat (length xs))) = i - length xs" by simp
    moreover have "unat (x - a) = i" using i by simp
    ultimately show ?thesis using False by (auto simp: store_def nth_append)
  qed
qed

lemma store_Cons:
  "Suc (length xs) \<le> 4294967296 \<Longrightarrow> store (m(a := b)) (a + 1) xs = store m a (b # xs)"
  using store_append [of "[b]" xs m a] by simp

lemma disjointD:
  "disjoint a n b k \<Longrightarrow> i < n \<Longrightarrow> j < k \<Longrightarrow> a + of_nat i \<noteq> b + of_nat j"
  by (simp add: disjoint_def)

lemma store_disjoint_at:
  "disjoint a n b k \<Longrightarrow> length xs \<le> n \<Longrightarrow> j < k \<Longrightarrow>
    store m a xs (b + of_nat j) = m (b + of_nat j)"
  by (rule store_outside) (metis disjointD order_less_le_trans)

lemma disjoint_sym: "disjoint a n b k \<Longrightarrow> disjoint b k a n"
  by (fastforce simp: disjoint_def)

lemma disjoint_sub:
  "disjoint a n b k \<Longrightarrow> n' + i \<le> n \<Longrightarrow> k' + j \<le> k \<Longrightarrow>
    disjoint (a + of_nat i) n' (b + of_nat j) k'"
  unfolding disjoint_def
  by (metis (no_types, lifting) add.assoc add.commute add_less_cancel_left of_nat_add
      order_less_le_trans)

text \<open>Two runs that do not wrap are disjoint when one ends before the other starts.\<close>

lemma disjointI:
  assumes "unat a + n \<le> unat b \<or> unat b + k \<le> unat a"
    and "unat a + n \<le> 4294967296" and "unat b + k \<le> 4294967296"
  shows "disjoint a n b k"
  unfolding disjoint_def
proof (intro allI impI notI)
  fix i j assume i: "i < n" and j: "j < k" and eq: "a + of_nat i = b + of_nat j"
  have "unat (a + of_nat i) = unat a + i" and "unat (b + of_nat j) = unat b + j"
    using i j assms by (simp_all add: unat_word_ariths)
  with eq i j assms(1) show False by auto
qed

lemma runs_apart:
  "unat a + n \<le> unat b \<or> unat b + k \<le> unat a \<Longrightarrow> unat a + n \<le> 4294967296
    \<Longrightarrow> unat b + k \<le> 4294967296 \<Longrightarrow> run a n \<inter> run b k = {}"
  using disjointI [of a n b k] by (fastforce simp: disjoint_def)

lemma store_outside_run: "x \<notin> run a (length xs) \<Longrightarrow> store m a xs x = m x"
  by (rule store_outside) auto

lemma run_subset: "i + k \<le> n \<Longrightarrow> run (a + of_nat i) k \<subseteq> run a n"
proof
  fix x assume "i + k \<le> n" and "x \<in> run (a + of_nat i) k"
  then obtain j where "j < k" "x = a + of_nat (i + j)" by (auto simp: add.assoc)
  with \<open>i + k \<le> n\<close> show "x \<in> run a n" by (intro image_eqI [of _ _ "i + j"]) auto
qed

lemma load_cong: "(\<And>x. x \<in> run a n \<Longrightarrow> m x = m' x) \<Longrightarrow> load m a n = load m' a n"
  by (rule nth_equalityI) auto

lemma load32_cong:
  assumes "\<And>x. x \<in> run a 4 \<Longrightarrow> m x = m' x"
  shows "load32 m a = load32 m' a"
proof -
  have "m (a + of_nat i) = m' (a + of_nat i)" if "i < 4" for i
    using assms that by (intro assms imageI) simp
  from this [of 0] this [of 1] this [of 2] this [of 3] show ?thesis by (simp add: load32_def)
qed

subsection \<open>Counted loops\<close>

text \<open>\<open>for (i = lo; i < hi; i++) body\<close> over an explicit state.\<close>

definition for_range :: "nat \<Rightarrow> nat \<Rightarrow> (nat \<Rightarrow> 's \<Rightarrow> 's) \<Rightarrow> 's \<Rightarrow> 's" where
  "for_range lo hi body s = fold body [lo..<hi] s"

lemma for_range_empty [simp]: "hi \<le> lo \<Longrightarrow> for_range lo hi body s = s"
  by (simp add: for_range_def)

lemma for_range_Suc:
  "lo \<le> hi \<Longrightarrow> for_range lo (Suc hi) body s = body hi (for_range lo hi body s)"
  by (simp add: for_range_def)

text \<open>The loop rule: an invariant indexed by the counter.\<close>

lemma for_range_rule:
  assumes "P lo s" and "lo \<le> hi"
    and "\<And>i s. lo \<le> i \<Longrightarrow> i < hi \<Longrightarrow> P i s \<Longrightarrow> P (Suc i) (body i s)"
  shows "P hi (for_range lo hi body s)"
  using assms(2,3)
proof (induction hi rule: dec_induct)
  case base
  then show ?case using assms(1) by simp
next
  case (step n)
  then have "P n (for_range lo n body s)" by simp
  with step show ?case by (simp add: for_range_Suc)
qed

lemma for_range_keeps:
  assumes "P s" and "\<And>i s. lo \<le> i \<Longrightarrow> i < hi \<Longrightarrow> P s \<Longrightarrow> P (body i s)"
  shows "P (for_range lo hi body s)"
proof (cases "lo \<le> hi")
  case True
  show ?thesis by (rule for_range_rule [where P = "\<lambda>_. P"]) (use assms True in auto)
qed (use assms in simp)

text \<open>A loop over one component of the state, and the loop that fills an array.\<close>

lemma for_range_map:
  "(\<And>i x. body i (f x) = f (g i x)) \<Longrightarrow> for_range lo hi body (f x) = f (for_range lo hi g x)"
proof -
  assume step: "\<And>i x. body i (f x) = f (g i x)"
  have "fold body xs (f x) = f (fold g xs x)" for xs x
    by (induction xs arbitrary: x) (simp_all add: step)
  then show ?thesis by (simp add: for_range_def)
qed

lemma for_range_fill:
  "n \<le> length xs \<Longrightarrow> for_range 0 n (\<lambda>j xs. xs[j := g j]) xs = map g [0..<n] @ drop n xs"
proof (induction n)
  case (Suc n)
  then have "drop n xs = xs ! n # drop (Suc n) xs" by (simp add: Cons_nth_drop_Suc)
  with Suc show ?case by (simp add: for_range_Suc list_update_append)
qed simp

lemma for_range_fill_all:
  "length xs = n \<Longrightarrow> for_range 0 n (\<lambda>j xs. xs[j := g j]) xs = map g [0..<n]"
  by (simp add: for_range_fill)

end
