(* ===== verification/Machine.thy ===== *)
theory Machine
  imports Prelude
begin

text \<open>
  The processor as the kernel's C code sees it: the flat memory, the I/O ports it writes,
  the interrupt flag and the two stack registers that \<open>execute\<close>, \<open>halt\<close> and the
  scheduler save and load. Every later component extends this record with its globals, so
  an operation of one component runs unchanged on the state of those above it.
\<close>

record machine =
  mem :: mem
  out_log :: "(u16 \<times> byte) list" \<comment> \<open>every \<open>outb\<close>, the latest first: (port, data)\<close>
  iflag :: bool \<comment> \<open>\<open>EFLAGS.IF\<close>\<close>
  esp :: u32
  ebp :: u32

text \<open>\<open>outb(data, port)\<close>, \<open>cli()\<close> and \<open>sti()\<close> of \<open>lib.h\<close>.\<close>

definition outb :: "byte \<Rightarrow> u16 \<Rightarrow> 'a machine_scheme \<Rightarrow> 'a machine_scheme" where
  "outb data port s = s\<lparr>out_log := (port, data) # out_log s\<rparr>"

definition cli :: "'a machine_scheme \<Rightarrow> 'a machine_scheme" where
  "cli s = s\<lparr>iflag := False\<rparr>"

definition sti :: "'a machine_scheme \<Rightarrow> 'a machine_scheme" where
  "sti s = s\<lparr>iflag := True\<rparr>"

text \<open>
  \<open>cli_and_save(flags)\<close> and \<open>restore_flags(flags)\<close>: bit 9 of the flags register is the interrupt
  flag, and \<open>others\<close> are its other bits, which the state does not keep.
\<close>

definition cli_and_save :: "u32 \<Rightarrow> 'a machine_scheme \<Rightarrow> u32 \<times> 'a machine_scheme" where
  "cli_and_save others s = ((if iflag s then set_bit 9 others else unset_bit 9 others), cli s)"

definition restore_flags :: "u32 \<Rightarrow> 'a machine_scheme \<Rightarrow> 'a machine_scheme" where
  "restore_flags flags s = s\<lparr>iflag := bit flags 9\<rparr>"

lemma restore_saved_flags:
  "cli_and_save others s = (flags, t) \<Longrightarrow> \<not> iflag t \<and> restore_flags flags t = s"
  by (auto simp: cli_and_save_def restore_flags_def cli_def bit_set_bit_iff bit_unset_bit_iff split: if_splits)

text \<open>
  The wider writes, to consecutive ports from the low byte on, and the reads: \<open>bus\<close> is what each
  port answers, and the value read is zero-extended.
\<close>

definition outw :: "u16 \<Rightarrow> u16 \<Rightarrow> 'a machine_scheme \<Rightarrow> 'a machine_scheme" where
  "outw data port s = outb (ucast (drop_bit 8 data)) (port + 1) (outb (ucast data) port s)"

definition outl :: "u32 \<Rightarrow> u16 \<Rightarrow> 'a machine_scheme \<Rightarrow> 'a machine_scheme" where
  "outl data port s = outw (ucast (drop_bit 16 data)) (port + 2) (outw (ucast data) port s)"

definition inb :: "(u16 \<Rightarrow> byte) \<Rightarrow> u16 \<Rightarrow> u32" where
  "inb bus port = ucast (bus port)"

definition inw :: "(u16 \<Rightarrow> byte) \<Rightarrow> u16 \<Rightarrow> u32" where
  "inw bus port = ucast (bus port) OR push_bit 8 (ucast (bus (port + 1)))"

definition inl :: "(u16 \<Rightarrow> byte) \<Rightarrow> u16 \<Rightarrow> u32" where
  "inl bus port = ucast (bus port) OR push_bit 8 (ucast (bus (port + 1)))
     OR push_bit 16 (ucast (bus (port + 2))) OR push_bit 24 (ucast (bus (port + 3)))"

text \<open>A byte written through a pointer.\<close>

definition poke :: "addr \<Rightarrow> byte \<Rightarrow> 'a machine_scheme \<Rightarrow> 'a machine_scheme" where
  "poke a b s = s\<lparr>mem := (mem s)(a := b)\<rparr>"

lemma machine_frames [frame_simps, simp]:
  "mem (outb d p s) = mem s" "iflag (outb d p s) = iflag s"
  "esp (outb d p s) = esp s" "ebp (outb d p s) = ebp s"
  "out_log (outb d p s) = (p, d) # out_log s"
  "mem (cli s) = mem s" "out_log (cli s) = out_log s" "\<not> iflag (cli s)"
  "mem (sti s) = mem s" "out_log (sti s) = out_log s" "iflag (sti s)"
  "mem (poke a b s) = (mem s)(a := b)" "out_log (poke a b s) = out_log s"
  "iflag (poke a b s) = iflag s"
  by (simp_all add: outb_def cli_def sti_def poke_def)

lemma machine_more_frames [frame_simps, simp]:
  "machine.more (outb d p s) = machine.more s" "machine.more (cli s) = machine.more s"
  "machine.more (sti s) = machine.more s" "machine.more (poke a b s) = machine.more s"
  by (simp_all add: outb_def cli_def sti_def poke_def)

lemma wide_port_frames [frame_simps, simp]:
  "mem (outw w p s) = mem s" "iflag (outw w p s) = iflag s" "machine.more (outw w p s) = machine.more s"
  "mem (outl d p s) = mem s" "iflag (outl d p s) = iflag s" "machine.more (outl d p s) = machine.more s"
  by (simp_all add: outw_def outl_def)

text \<open>A device that answers with what was last written to each port gives the same word back.\<close>

definition latch :: "(u16 \<times> byte) list \<Rightarrow> u16 \<Rightarrow> byte" where
  "latch log p = (case find (\<lambda>w. fst w = p) log of Some w \<Rightarrow> snd w | None \<Rightarrow> 0xFF)"

lemma bytes_of_word:
  "ucast (ucast d :: byte) OR push_bit 8 (ucast (ucast (drop_bit 8 d) :: byte))
    OR push_bit 16 (ucast (ucast (drop_bit 16 d) :: byte)) OR push_bit 24 (ucast (ucast (drop_bit 24 d) :: byte)) = (d :: u32)"
  (is "?l = d")
proof (rule bit_word_eqI)
  fix n assume "n < LENGTH(32)"
  then consider "n < 8" | "8 \<le> n" "n < 16" | "16 \<le> n" "n < 24" | "24 \<le> n" "n < 32" by (simp, linarith)
  then show "bit ?l n = bit d n"
    by cases (auto simp: bit_simps)
qed

lemma inl_outl: "inl (latch (out_log (outl d p s))) p = d"
proof -
  have "ucast (drop_bit 8 (ucast d :: u16)) = (ucast (drop_bit 8 d) :: byte)"
    "ucast (drop_bit 8 (ucast (drop_bit 16 d) :: u16)) = (ucast (drop_bit 24 d) :: byte)"
    "ucast (ucast d :: u16) = (ucast d :: byte)" "ucast (ucast (drop_bit 16 d) :: u16) = (ucast (drop_bit 16 d) :: byte)"
    by (auto intro!: bit_word_eqI simp: bit_simps)
  then show ?thesis by (simp add: inl_def latch_def outl_def outw_def bytes_of_word)
qed

text \<open>A loop whose body only writes memory is the loop on the memory.\<close>

lemma for_range_mem:
  assumes "\<And>i m. body i (s\<lparr>mem := m\<rparr>) = s\<lparr>mem := g i m\<rparr>"
  shows "for_range lo hi body s = s\<lparr>mem := for_range lo hi g (mem s)\<rparr>"
proof -
  have "fold body xs (s\<lparr>mem := m\<rparr>) = s\<lparr>mem := fold g xs m\<rparr>" for xs m
    by (induction xs arbitrary: m) (simp_all add: assms)
  from this [of "[lo..<hi]" "mem s"] show ?thesis by (simp add: for_range_def)
qed

end
