(* ===== verification/I8259.thy ===== *)
theory I8259
  imports Machine
begin

text \<open>
  The 8259 interrupt controllers (\<open>i8259.c\<close>): the cached interrupt masks, the
  initialisation sequence, masking and unmasking of a line and the end-of-interrupt
  commands. An IRQ number is the \<open>uint32_t\<close> the code takes, so \<open>irq_num < 0\<close> is
  never true.
\<close>

record pic_state = machine +
  master_mask :: byte
  slave_mask :: byte

definition MASTER_8259_CMD :: u16 where "MASTER_8259_CMD = 0x20"
definition MASTER_8259_DATA :: u16 where "MASTER_8259_DATA = 0x21"
definition SLAVE_8259_CMD :: u16 where "SLAVE_8259_CMD = 0xA0"
definition SLAVE_8259_DATA :: u16 where "SLAVE_8259_DATA = 0xA1"
definition EOI :: u32 where "EOI = 0x60"

lemmas pic_ports = MASTER_8259_CMD_def MASTER_8259_DATA_def SLAVE_8259_CMD_def
  SLAVE_8259_DATA_def EOI_def

definition enable_irq :: "u32 \<Rightarrow> 'a pic_state_scheme \<Rightarrow> 'a pic_state_scheme" where
  "enable_irq irq_num s =
     (if irq_num > 15 then s
      else if irq_num < 8 then
        let cur_enabled = push_bit (unat irq_num) (0x01 :: byte);
            s = s\<lparr>master_mask := master_mask s AND NOT cur_enabled\<rparr>
        in outb (master_mask s) MASTER_8259_DATA s
      else
        let cur_enabled = push_bit (unat (irq_num - 8)) (0x01 :: byte);
            s = s\<lparr>slave_mask := slave_mask s AND NOT cur_enabled\<rparr>
        in outb (slave_mask s) SLAVE_8259_DATA s)"

text \<open>The code ORs in the complement of the line's bit, and so does the model.\<close>

definition disable_irq :: "u32 \<Rightarrow> 'a pic_state_scheme \<Rightarrow> 'a pic_state_scheme" where
  "disable_irq irq_num s =
     (if irq_num > 15 then s
      else if irq_num < 8 then
        let cur_disabled = push_bit (unat irq_num) (0x01 :: byte);
            s = s\<lparr>master_mask := master_mask s OR NOT cur_disabled\<rparr>
        in outb (master_mask s) MASTER_8259_DATA s
      else
        let cur_disabled = push_bit (unat (irq_num - 8)) (0x01 :: byte);
            s = s\<lparr>slave_mask := slave_mask s OR NOT cur_disabled\<rparr>
        in outb (slave_mask s) SLAVE_8259_DATA s)"

text \<open>
  A line of the slave is acknowledged at the slave and then, by the call on line 2, at the
  master.
\<close>

definition send_eoi_master :: "u32 \<Rightarrow> 'a machine_scheme \<Rightarrow> 'a machine_scheme" where
  "send_eoi_master irq_num s = outb (ucast (EOI OR irq_num)) MASTER_8259_CMD s"

definition send_eoi :: "u32 \<Rightarrow> 'a machine_scheme \<Rightarrow> 'a machine_scheme" where
  "send_eoi irq_num s =
     (if irq_num > 15 then s
      else if irq_num < 8 then send_eoi_master irq_num s
      else send_eoi_master 2 (outb (ucast (EOI OR (irq_num - 8))) SLAVE_8259_CMD s))"

definition i8259_init :: "'a pic_state_scheme \<Rightarrow> 'a pic_state_scheme" where
  "i8259_init s =
     (let s = outb 0x11 MASTER_8259_CMD s;
          s = outb 0x20 MASTER_8259_DATA s;
          s = outb 0x04 MASTER_8259_DATA s;
          s = outb 0x01 MASTER_8259_DATA s;
          s = outb 0x11 SLAVE_8259_CMD s;
          s = outb 0x28 SLAVE_8259_DATA s;
          s = outb 0x02 SLAVE_8259_DATA s;
          s = outb 0x01 SLAVE_8259_DATA s;
          s = outb (master_mask s) MASTER_8259_DATA s;
          s = outb (slave_mask s) SLAVE_8259_DATA s
      in enable_irq 2 s)"

section \<open>What the masks mean\<close>

text \<open>Line \<open>irq\<close> is masked when its bit is set in the mask of its controller.\<close>

definition irq_masked :: "'a pic_state_scheme \<Rightarrow> nat \<Rightarrow> bool" where
  "irq_masked s irq = (if irq < 8 then bit (master_mask s) irq else bit (slave_mask s) (irq - 8))"

lemma mask_frames [simp]:
  "master_mask (outb d p s) = master_mask s" "slave_mask (outb d p s) = slave_mask s"
  "master_mask (cli s) = master_mask s" "slave_mask (cli s) = slave_mask s"
  "master_mask (sti s) = master_mask s" "slave_mask (sti s) = slave_mask s"
  "master_mask (poke a b s) = master_mask s" "slave_mask (poke a b s) = slave_mask s"
  by (simp_all add: outb_def cli_def sti_def poke_def)

lemma bit_unmask:
  "n < 8 \<Longrightarrow> bit (m AND NOT (2 ^ k) :: byte) n \<longleftrightarrow> bit m n \<and> n \<noteq> k"
  by (auto simp: bit_simps)

lemma bit_remask:
  "n < 8 \<Longrightarrow> bit (m OR NOT (2 ^ k) :: byte) n \<longleftrightarrow> bit m n \<or> n \<noteq> k"
  by (auto simp: bit_simps)

lemma irq_cases:
  obtains (none) "irq > (15 :: u32)"
  | (master) "\<not> irq > 15" "irq < 8" "unat irq < 8"
  | (slave) "\<not> irq > 15" "\<not> irq < 8" "8 \<le> unat irq" "unat irq < 16" "unat (irq - 8) = unat irq - 8"
proof -
  have "unat irq < 16" if "\<not> irq > 15" using that by (simp add: word_less_nat_alt)
  moreover have "unat (irq - 8) = unat irq - 8" if "\<not> irq < 8"
    using that by (simp add: unat_sub word_less_nat_alt word_le_nat_alt)
  ultimately show thesis
    using that by (cases "irq > 15"; cases "irq < 8") (auto simp: word_less_nat_alt)
qed

lemma enable_irq_masked:
  assumes "irq \<le> 15" and "n < 16"
  shows "irq_masked (enable_irq irq s) n \<longleftrightarrow> irq_masked s n \<and> n \<noteq> unat irq"
  by (cases irq rule: irq_cases)
     (use assms in \<open>auto simp: enable_irq_def irq_masked_def Let_def bit_unmask not_less\<close>)

lemma enable_irq_port:
  assumes "irq \<le> 15"
  shows "out_log (enable_irq irq s)
    = (if irq < 8 then (MASTER_8259_DATA, master_mask (enable_irq irq s))
       else (SLAVE_8259_DATA, slave_mask (enable_irq irq s))) # out_log s"
  using assms by (auto simp: enable_irq_def Let_def)

lemma disable_irq_masked:
  assumes "irq \<le> 15" and "n < 16"
  shows "irq_masked (disable_irq irq s) n \<longleftrightarrow>
    irq_masked s n \<or> ((n < 8) = (unat irq < 8) \<and> n \<noteq> unat irq)"
  by (cases irq rule: irq_cases)
     (use assms in \<open>auto simp: disable_irq_def irq_masked_def Let_def bit_remask not_less\<close>)

section \<open>Properties\<close>

text \<open>The state of the controller before \<open>i8259_init\<close>: the initial values of the two masks.\<close>

definition pic_boot :: pic_state where
  "pic_boot = \<lparr>mem = (\<lambda>_. 0), out_log = [], iflag = False, esp = 0, ebp = 0,
     master_mask = 0xFF, slave_mask = 0xFF\<rparr>"

text \<open>\<open>enable_irq\<close> unmasks exactly the line it is given, on either controller, and sends
  the new mask to that controller's data port.\<close>

lemma enable_irq_correct:
  assumes "irq \<le> 15" and "n < 16"
  shows "(irq_masked (enable_irq irq s) n \<longleftrightarrow> irq_masked s n \<and> n \<noteq> unat irq)
    \<and> out_log (enable_irq irq s)
      = (if irq < 8 then (MASTER_8259_DATA, master_mask (enable_irq irq s))
         else (SLAVE_8259_DATA, slave_mask (enable_irq irq s))) # out_log s"
  using enable_irq_masked [OF assms] enable_irq_port [OF assms(1)] by blast

theorem enable_irq_correct_witness:
  "\<not> irq_masked (enable_irq 8 pic_boot) 8"
  using enable_irq_correct [of 8 8 pic_boot] by simp

text \<open>\<open>disable_irq\<close> does not mask the line it is given: it masks every other line of that
  controller, since the complement of the line's bit is what it ORs into the mask.\<close>

lemma disable_irq_masks_the_others:
  assumes "irq \<le> 15" and "n < 16"
  shows "irq_masked (disable_irq irq s) n \<longleftrightarrow>
    irq_masked s n \<or> ((n < 8) = (unat irq < 8) \<and> n \<noteq> unat irq)"
  by (rule disable_irq_masked [OF assms])

theorem disable_irq_masks_the_others_witness:
  "\<not> irq_masked (disable_irq 1 (enable_irq 1 (enable_irq 0 pic_boot))) 1
    \<and> irq_masked (disable_irq 1 (enable_irq 1 (enable_irq 0 pic_boot))) 0"
  using disable_irq_masks_the_others [of 1 1 "enable_irq 1 (enable_irq 0 pic_boot)"]
    disable_irq_masks_the_others [of 1 0 "enable_irq 1 (enable_irq 0 pic_boot)"]
  by (simp add: enable_irq_masked)

end
