(* ===== verification/Paging.thy ===== *)
theory Paging
  imports I8259
begin

text \<open>
  The page tables (\<open>paging.c\<close>): the directory, the table of the first 4 MB and the table of
  the user's video page, the operations that rewrite their entries and the reload of
  \<open>CR3\<close>. An array of entries is a function from its index. Where the linker put the arrays
  is a field of the state that no operation writes. \<open>translate\<close> is what the processor makes
  of the entries (Intel SDM 3, 4.3: two-level 32-bit paging with 4 MB pages), and the
  operations are specified by it.
\<close>

record paging_state = pic_state +
  page_dir :: "nat \<Rightarrow> u32"
  page_tab :: "nat \<Rightarrow> u32"
  page_video_tab :: "nat \<Rightarrow> u32"
  page_dir_at :: addr
  page_tab_at :: addr
  page_video_tab_at :: addr
  cr0 :: u32
  cr3 :: u32
  cr4 :: u32
  tlb_fresh :: bool \<comment> \<open>no entry was written since \<open>CR3\<close> was last loaded\<close>

definition set_page_dir :: "nat \<Rightarrow> u32 \<Rightarrow> 'a paging_state_scheme \<Rightarrow> 'a paging_state_scheme" where
  "set_page_dir i v s = s\<lparr>page_dir := (page_dir s)(i := v), tlb_fresh := False\<rparr>"

definition set_page_tab :: "nat \<Rightarrow> u32 \<Rightarrow> 'a paging_state_scheme \<Rightarrow> 'a paging_state_scheme" where
  "set_page_tab i v s = s\<lparr>page_tab := (page_tab s)(i := v), tlb_fresh := False\<rparr>"

definition set_page_video_tab :: "nat \<Rightarrow> u32 \<Rightarrow> 'a paging_state_scheme \<Rightarrow> 'a paging_state_scheme"
  where
  "set_page_video_tab i v s = s\<lparr>page_video_tab := (page_video_tab s)(i := v), tlb_fresh := False\<rparr>"

text \<open>Reloading \<open>CR3\<close> with its own value empties the TLB.\<close>

definition flush :: "'a paging_state_scheme \<Rightarrow> 'a paging_state_scheme" where
  "flush s = s\<lparr>cr3 := cr3 s, tlb_fresh := True\<rparr>"

text \<open>
  \<open>memset\<close> on an array of double words: \<open>bytes\<close> bytes are set to the low byte of \<open>c\<close>,
  so an entry becomes that byte four times.
\<close>

definition splat :: "u32 \<Rightarrow> u32" where
  "splat c = (let c = c AND 0xFF in push_bit 24 c OR push_bit 16 c OR push_bit 8 c OR c)"

definition memset_array :: "(nat \<Rightarrow> u32) \<Rightarrow> u32 \<Rightarrow> nat \<Rightarrow> (nat \<Rightarrow> u32)" where
  "memset_array arr c bytes = (\<lambda>i. if i < bytes div 4 then splat c else arr i)"

definition paging_init :: "'a paging_state_scheme \<Rightarrow> 'a paging_state_scheme" where
  "paging_init s =
     (let s = s\<lparr>page_dir := memset_array (page_dir s) 0x00000002 (1024 * 4), tlb_fresh := False\<rparr>;
          s = s\<lparr>page_tab := (\<lambda>i. if i < 1024 then (of_nat i * 0x1000) OR 2 else page_tab s i),
                tlb_fresh := False\<rparr>;
          s = set_page_dir 0 (page_tab_at s OR 3) s;
          s = set_page_dir 1 (0x400000 OR 0x83) s;
          s = set_page_tab 0xB8 (page_tab s 0xB8 OR 3) s;
          s = s\<lparr>cr3 := page_dir_at s, tlb_fresh := True\<rparr>;
          s = s\<lparr>cr4 := cr4 s OR 0x00000010\<rparr>
      in s\<lparr>cr0 := cr0 s OR 0x80000001\<rparr>)"

definition pcb_mapping :: "addr \<Rightarrow> addr \<Rightarrow> 'a paging_state_scheme \<Rightarrow> 'a paging_state_scheme" where
  "pcb_mapping virtual_address physical_address s =
     (let offset = virtual_address div 0x400000;
          s = set_page_dir (unat offset) (physical_address OR 0x87) s
      in flush s)"

definition syscall_video_mapping :: "addr \<Rightarrow> 'a paging_state_scheme \<Rightarrow> 'a paging_state_scheme" where
  "syscall_video_mapping physical_address s =
     (let offset = 33;
          s = set_page_dir offset (page_video_tab_at s OR 0x7) s;
          s = set_page_video_tab 0 (physical_address OR 0x7) s
      in flush s)"

definition terminal_video_mapping ::
  "addr \<Rightarrow> nat \<Rightarrow> 'a paging_state_scheme \<Rightarrow> 'a paging_state_scheme" where
  "terminal_video_mapping physical_address page_idx s =
     (let s = set_page_dir 0 (page_tab_at s OR 0x3) s;
          s = set_page_tab (0xB9 + page_idx) (physical_address OR 0x3) s
      in flush s)"

definition scheduling_video_mapping :: "addr \<Rightarrow> 'a paging_state_scheme \<Rightarrow> 'a paging_state_scheme"
  where
  "scheduling_video_mapping physical_address s =
     (let offset = 33;
          s = set_page_dir offset (page_video_tab_at s OR 0x7) s;
          s = set_page_video_tab 0 (physical_address OR 0x7) s
      in flush s)"

section \<open>What the entries mean to the processor\<close>

text \<open>The bits of an entry: present, writable, user, page size; and the frame above bit \<open>k\<close>.\<close>

definition frame_of :: "nat \<Rightarrow> u32 \<Rightarrow> u32" where
  "frame_of k e = push_bit k (drop_bit k e)"

definition pd_index :: "addr \<Rightarrow> nat" where
  "pd_index v = unat (drop_bit 22 v)"

definition pt_index :: "addr \<Rightarrow> nat" where
  "pt_index v = unat (take_bit 10 (drop_bit 12 v))"

text \<open>The kernel's two page tables, found by the frame a directory entry names.\<close>

definition table_at :: "'a paging_state_scheme \<Rightarrow> addr \<Rightarrow> (nat \<Rightarrow> u32) option" where
  "table_at s a =
     (if a = page_tab_at s then Some (page_tab s)
      else if a = page_video_tab_at s then Some (page_video_tab s) else None)"

record mapping =
  phys :: addr
  user :: bool
  writable :: bool

definition translate :: "'a paging_state_scheme \<Rightarrow> addr \<Rightarrow> mapping option" where
  "translate s v =
     (let pde = page_dir s (pd_index v)
      in if \<not> bit pde 0 then None
         else if bit pde 7 then
           Some \<lparr>phys = frame_of 22 pde OR take_bit 22 v, user = bit pde 2, writable = bit pde 1\<rparr>
         else case table_at s (frame_of 12 pde) of
             None \<Rightarrow> None
           | Some t \<Rightarrow>
               (let pte = t (pt_index v)
                in if \<not> bit pte 0 then None
                   else Some \<lparr>phys = frame_of 12 pte OR take_bit 12 v,
                              user = bit pde 2 \<and> bit pte 2, writable = bit pde 1 \<and> bit pte 1\<rparr>))"

text \<open>The two tables lie in frames of their own (\<open>aligned (4096)\<close> in \<open>paging.h\<close>).\<close>

definition tables_aligned :: "'a paging_state_scheme \<Rightarrow> bool" where
  "tables_aligned s \<longleftrightarrow> take_bit 12 (page_tab_at s) = 0 \<and> take_bit 12 (page_video_tab_at s) = 0
     \<and> page_tab_at s \<noteq> page_video_tab_at s"

lemma aligned_bits: "take_bit k a = 0 \<Longrightarrow> i < k \<Longrightarrow> \<not> bit (a :: u32) i"
  by (metis bit_0_eq bit_take_bit_iff bot_apply bot_bool_def)

lemma frame_of_entry:
  assumes "take_bit k a = 0" and "drop_bit k f = 0"
  shows "frame_of k (a OR f) = (a :: u32)"
proof (rule bit_word_eqI)
  fix n assume n: "n < LENGTH(32)"
  have "\<not> bit f n" if "k \<le> n"
    using arg_cong [OF assms(2), of "\<lambda>x. bit x (n - k)"] that by (simp add: bit_simps)
  then show "bit (frame_of k (a OR f)) n \<longleftrightarrow> bit a n"
    using n aligned_bits [OF assms(1), of n]
    by (cases "n < k") (auto simp: frame_of_def bit_simps)
qed

lemma frame_offset:
  assumes "take_bit k a = 0"
  shows "a OR take_bit k v = a + take_bit k (v :: u32)"
proof -
  have "a AND take_bit k v = 0"
    by (rule bit_word_eqI) (auto simp: bit_simps dest: aligned_bits [OF assms])
  then show ?thesis by (rule disjunctive_add_eq_or [symmetric])
qed

lemma page_frames [simp]:
  "page_dir (flush s) = page_dir s" "page_tab (flush s) = page_tab s"
  "page_video_tab (flush s) = page_video_tab s" "tlb_fresh (flush s)"
  "page_tab_at (flush s) = page_tab_at s" "page_video_tab_at (flush s) = page_video_tab_at s"
  "page_dir (set_page_dir i v s) = (page_dir s)(i := v)" "page_tab (set_page_dir i v s) = page_tab s"
  "page_video_tab (set_page_dir i v s) = page_video_tab s"
  "page_tab_at (set_page_dir i v s) = page_tab_at s"
  "page_video_tab_at (set_page_dir i v s) = page_video_tab_at s"
  "page_dir_at (set_page_dir i v s) = page_dir_at s"
  "page_dir (set_page_tab i v s) = page_dir s" "page_tab (set_page_tab i v s) = (page_tab s)(i := v)"
  "page_video_tab (set_page_tab i v s) = page_video_tab s"
  "page_tab_at (set_page_tab i v s) = page_tab_at s"
  "page_video_tab_at (set_page_tab i v s) = page_video_tab_at s"
  "page_dir (set_page_video_tab i v s) = page_dir s"
  "page_tab (set_page_video_tab i v s) = page_tab s"
  "page_video_tab (set_page_video_tab i v s) = (page_video_tab s)(i := v)"
  "page_tab_at (set_page_video_tab i v s) = page_tab_at s"
  "page_video_tab_at (set_page_video_tab i v s) = page_video_tab_at s"
  by (simp_all add: flush_def set_page_dir_def set_page_tab_def set_page_video_tab_def)

lemma entry_bits:
  assumes "take_bit k a = 0" and "i < k"
  shows "bit (a OR f) i \<longleftrightarrow> bit (f :: u32) i"
  using assms by (simp add: bit_or_iff aligned_bits)

section \<open>The operations by their effect on the translation\<close>

lemma table_at_indep:
  "page_tab s = page_tab t \<Longrightarrow> page_video_tab s = page_video_tab t \<Longrightarrow>
   page_tab_at s = page_tab_at t \<Longrightarrow> page_video_tab_at s = page_video_tab_at t \<Longrightarrow>
   table_at s a = table_at t a"
  by (simp add: table_at_def)

text \<open>\<open>pcb_mapping\<close> replaces one 4 MB page and nothing else.\<close>

lemma pcb_mapping_translate:
  assumes "take_bit 22 p = 0"
  shows "translate (pcb_mapping va p s) v =
    (if pd_index v = unat (va div 0x400000)
     then Some \<lparr>phys = p + take_bit 22 v, user = True, writable = True\<rparr>
     else translate s v)"
proof -
  have e: "bit (p OR 0x87) 0" "bit (p OR 0x87) 7" "bit (p OR 0x87) 2" "bit (p OR 0x87) (Suc 0)"
    by (simp_all add: entry_bits [OF assms])
  have f: "frame_of 22 (p OR 0x87) = p"
    using assms by (rule frame_of_entry) simp
  show ?thesis
    by (simp add: translate_def pcb_mapping_def Let_def e f frame_offset [OF assms] table_at_def)
qed

text \<open>The user's video page: one 4 KB page at 132 MB, seen through the video table.\<close>

lemma video_mapping_translate:
  assumes "take_bit 12 p = 0" and "tables_aligned s" and "pd_index v = 33" and "pt_index v = 0"
  shows "translate (syscall_video_mapping p s) v
    = Some \<lparr>phys = p + take_bit 12 v, user = True, writable = True\<rparr>"
proof -
  let ?t = "page_video_tab_at s"
  have t: "take_bit 12 ?t = 0" "?t \<noteq> page_tab_at s" using assms(2) by (auto simp: tables_aligned_def)
  have d: "bit (?t OR 7) 0" "\<not> bit (?t OR 7) 7" "bit (?t OR 7) 2" "bit (?t OR 7) (Suc 0)"
    by (simp_all add: entry_bits [OF t(1)])
  have e: "bit (p OR 7) 0" "bit (p OR 7) 2" "bit (p OR 7) (Suc 0)"
    by (simp_all add: entry_bits [OF assms(1)])
  have f: "frame_of 12 (?t OR 7) = ?t" "frame_of 12 (p OR 7) = p"
    using t assms(1) by (simp_all add: frame_of_entry)
  show ?thesis
    using t assms(3,4)
    by (simp add: translate_def syscall_video_mapping_def Let_def d e f table_at_def
        frame_offset [OF assms(1)])
qed

lemma video_mapping_other:
  assumes "pd_index v \<noteq> 33" and "frame_of 12 (page_dir s (pd_index v)) \<noteq> page_video_tab_at s"
  shows "translate (syscall_video_mapping p s) v = translate s v"
  using assms by (simp add: translate_def syscall_video_mapping_def Let_def table_at_def)

lemma scheduling_is_syscall_mapping: "scheduling_video_mapping = syscall_video_mapping"
  by (simp add: fun_eq_iff scheduling_video_mapping_def syscall_video_mapping_def)

text \<open>A terminal's backing page: supervisor only, in the table of the first 4 MB.\<close>

lemma terminal_mapping_translate:
  assumes "take_bit 12 p = 0" and "tables_aligned s" and "pd_index v = 0" and "pt_index v = 0xB9 + idx"
  shows "translate (terminal_video_mapping p idx s) v
    = Some \<lparr>phys = p + take_bit 12 v, user = False, writable = True\<rparr>"
proof -
  let ?t = "page_tab_at s"
  have t: "take_bit 12 ?t = 0" using assms(2) by (auto simp: tables_aligned_def)
  have d: "bit (?t OR 3) 0" "\<not> bit (?t OR 3) 7" "\<not> bit (?t OR 3) 2" "bit (?t OR 3) (Suc 0)"
    by (simp_all add: entry_bits [OF t])
  have e: "bit (p OR 3) 0" "bit (p OR 3) (Suc 0)"
    by (simp_all add: entry_bits [OF assms(1)])
  have f: "frame_of 12 (?t OR 3) = ?t" "frame_of 12 (p OR 3) = p"
    using t assms(1) by (simp_all add: frame_of_entry)
  show ?thesis
    using assms(3,4)
    by (simp add: translate_def terminal_video_mapping_def Let_def d e f table_at_def
        frame_offset [OF assms(1)])
qed

subsection \<open>Addresses by page\<close>

lemma pd_index_div: "pd_index v = unat v div 4194304"
  by (simp add: pd_index_def drop_bit_eq_div unat_div)

lemma pt_index_div: "pt_index v = unat v div 4096 mod 1024"
  by (simp add: pt_index_def drop_bit_eq_div take_bit_eq_mod unat_div unat_mod)

lemma offset_4K: "unat (take_bit 12 v :: u32) = unat v mod 4096"
  by (simp add: take_bit_eq_mod unat_mod)

lemma offset_4M: "unat (take_bit 22 v :: u32) = unat v mod 4194304"
  by (simp add: take_bit_eq_mod unat_mod)

text \<open>
  After \<open>paging_init\<close> the video page and the kernel's 4 MB page are mapped one to one for the
  supervisor, and nothing else is mapped.
\<close>

lemma splat_2: "splat 2 = 0x02020202"
  by (simp add: splat_def)

lemma init_entry_absent: "\<not> bit ((of_nat i * 0x1000 :: u32) OR 2) 0"
  by (simp add: bit_0 even_or_iff)

lemma paging_init_tables:
  "page_dir (paging_init s) 0 = page_tab_at s OR 3"
  "page_dir (paging_init s) (Suc 0) = 0x400083"
  "2 \<le> i \<Longrightarrow> i < 1024 \<Longrightarrow> page_dir (paging_init s) i = 0x02020202"
  "page_tab (paging_init s) 0xB8 = 0xB8003"
  "i \<noteq> 0xB8 \<Longrightarrow> i < 1024 \<Longrightarrow> page_tab (paging_init s) i = (of_nat i * 0x1000) OR 2"
  "page_tab_at (paging_init s) = page_tab_at s"
  by (simp_all add: paging_init_def Let_def memset_array_def splat_2)

lemma video_page_iff:
  "0xB8000 \<le> v \<and> v < 0xB9000 \<longleftrightarrow> pd_index v = 0 \<and> pt_index v = 0xB8"
proof -
  have "753664 \<le> n \<and> n < 757760 \<longleftrightarrow> n div 4194304 = 0 \<and> n div 4096 mod 1024 = 0xB8" for n :: nat
    by (auto simp: div_eq_0_iff)
  then show ?thesis
    by (simp add: word_le_nat_alt word_less_nat_alt pd_index_div pt_index_div)
qed

lemma kernel_page_iff: "0x400000 \<le> v \<and> v < 0x800000 \<longleftrightarrow> pd_index v = 1"
  by (simp add: word_le_nat_alt word_less_nat_alt pd_index_div) linarith

lemma page_and_offset:
  assumes "k * c + unat w = unat (v :: u32)"
  shows "of_nat k * of_nat c + w = v"
proof -
  have "of_nat (k * c + unat w) = (of_nat (unat v) :: u32)" by (simp only: assms)
  then show ?thesis by simp
qed

lemma page_of_4K: "unat v div 4096 = k \<Longrightarrow> of_nat k * 4096 + take_bit 12 v = (v :: u32)"
  using page_and_offset [of k 4096 "take_bit 12 v" v] div_mult_mod_eq [of "unat v" 4096]
  by (simp add: offset_4K)

lemma page_of_4M: "pd_index v = k \<Longrightarrow> of_nat k * 4194304 + take_bit 22 v = (v :: u32)"
  using page_and_offset [of k 4194304 "take_bit 22 v" v] div_mult_mod_eq [of "unat v" 4194304]
  by (simp add: offset_4M pd_index_div)

lemma paging_init_translate:
  assumes "tables_aligned s"
  shows "translate (paging_init s) v =
    (if (0xB8000 \<le> v \<and> v < 0xB9000) \<or> (0x400000 \<le> v \<and> v < 0x800000)
     then Some \<lparr>phys = v, user = False, writable = True\<rparr> else None)"
proof -
  let ?t = "page_tab_at s" and ?s = "paging_init s"
  have t: "take_bit 12 ?t = 0" using assms by (auto simp: tables_aligned_def)
  have d: "bit (?t OR 3) 0" "\<not> bit (?t OR 3) 7" "\<not> bit (?t OR 3) 2" "bit (?t OR 3) (Suc 0)"
    by (simp_all add: entry_bits [OF t])
  have f: "frame_of 12 (?t OR 3) = ?t" using t by (simp add: frame_of_entry)
  have tab: "table_at ?s ?t = Some (page_tab ?s)" by (simp add: table_at_def paging_init_tables)
  have pd: "pd_index v < 1024" using unat_u32_bound [of v] unfolding pd_index_div by linarith
  have pt: "pt_index v < 1024" by (simp add: pt_index_div)
  consider (video) "pd_index v = 0" "pt_index v = 0xB8" | (low) "pd_index v = 0" "pt_index v \<noteq> 0xB8"
    | (kernel) "pd_index v = 1" | (high) "2 \<le> pd_index v" by linarith
  then show ?thesis
    unfolding video_page_iff kernel_page_iff
  proof cases
    case video
    have fr: "frame_of 12 0xB8003 = (0xB8000 :: u32)" by (simp add: frame_of_def)
    have "unat v div 4096 = 0xB8" using video by (simp add: pd_index_div pt_index_div)
    then have "0xB8000 + take_bit 12 v = v" using page_of_4K [of v "0xB8"] by simp
    then have "0xB8000 OR take_bit 12 v = v" using frame_offset [of 12 "0xB8000" v] by simp
    with video show "translate ?s v = (if pd_index v = 0 \<and> pt_index v = 0xB8 \<or> pd_index v = 1
        then Some \<lparr>phys = v, user = False, writable = True\<rparr> else None)"
      by (simp add: translate_def Let_def paging_init_tables d f tab fr)
  next
    case low
    with pt show "translate ?s v = (if pd_index v = 0 \<and> pt_index v = 0xB8 \<or> pd_index v = 1
        then Some \<lparr>phys = v, user = False, writable = True\<rparr> else None)"
      using init_entry_absent [of "pt_index v"]
      by (simp add: translate_def Let_def paging_init_tables d f tab)
  next
    case kernel
    have "0x400000 OR take_bit 22 v = v"
      using page_of_4M [OF kernel] frame_offset [of 22 "0x400000" v] by simp
    with kernel show "translate ?s v = (if pd_index v = 0 \<and> pt_index v = 0xB8 \<or> pd_index v = 1
        then Some \<lparr>phys = v, user = False, writable = True\<rparr> else None)"
      by (simp add: translate_def Let_def paging_init_tables frame_of_def)
  next
    case high
    with pd show "translate ?s v = (if pd_index v = 0 \<and> pt_index v = 0xB8 \<or> pd_index v = 1
        then Some \<lparr>phys = v, user = False, writable = True\<rparr> else None)"
      by (simp add: translate_def Let_def paging_init_tables)
  qed
qed

section \<open>Properties\<close>

text \<open>A machine with the tables in three frames of the kernel image.\<close>

definition paging_boot :: paging_state where
  "paging_boot = pic_state.extend pic_boot
     (paging_state.fields (\<lambda>_. 0) (\<lambda>_. 0) (\<lambda>_. 0) 0x401000 0x402000 0x403000 0 0 0 True)"

lemma paging_boot_simps [simp]:
  "page_tab_at paging_boot = 0x402000" "page_video_tab_at paging_boot = 0x403000"
  by (simp_all add: paging_boot_def pic_boot_def pic_state.defs paging_state.defs)

lemma paging_boot_aligned: "tables_aligned paging_boot"
  by (simp add: tables_aligned_def)

text \<open>C39: after \<open>paging_init\<close> an address is mapped exactly when it lies in the video page or in
  the kernel's 4 MB page, and then to itself, writable, for the supervisor only; paging, its
  protection bit and large pages are on, and \<open>CR3\<close> points to the directory.\<close>

theorem paging_init_identity:
  assumes "tables_aligned s"
  shows "translate (paging_init s) v =
    (if (0xB8000 \<le> v \<and> v < 0xB9000) \<or> (0x400000 \<le> v \<and> v < 0x800000)
     then Some \<lparr>phys = v, user = False, writable = True\<rparr> else None)
    \<and> bit (cr0 (paging_init s)) 31 \<and> bit (cr0 (paging_init s)) 0 \<and> bit (cr4 (paging_init s)) 4
    \<and> cr3 (paging_init s) = page_dir_at s"
  using paging_init_translate [OF assms]
  by (simp add: paging_init_def Let_def set_page_dir_def set_page_tab_def bit_or_iff)

theorem paging_init_identity_witness:
  "translate (paging_init paging_boot) 0xB8010 = Some \<lparr>phys = 0xB8010, user = False, writable = True\<rparr>
    \<and> translate (paging_init paging_boot) 0 = None"
  using paging_init_identity [OF paging_boot_aligned, of "0xB8010"]
    paging_init_identity [OF paging_boot_aligned, of 0] by simp

text \<open>C38: \<open>pcb_mapping\<close> gives the user the 4 MB page of \<open>virtual_address\<close>, at the 4 MB
  frame given, writable, and changes the translation of no other address; the TLB is empty
  afterwards.\<close>

theorem pcb_mapping_correct:
  assumes "take_bit 22 p = 0"
  shows "translate (pcb_mapping va p s) v =
    (if v div 0x400000 = va div 0x400000
     then Some \<lparr>phys = p + v mod 0x400000, user = True, writable = True\<rparr>
     else translate s v) \<and> tlb_fresh (pcb_mapping va p s)"
proof -
  have "pd_index v = unat (va div 0x400000) \<longleftrightarrow> v div 0x400000 = va div 0x400000"
    by (auto simp: pd_index_div unat_div word_unat_eq_iff)
  moreover have "take_bit 22 v = v mod 0x400000" by (simp add: take_bit_eq_mod)
  ultimately show ?thesis
    using pcb_mapping_translate [OF assms, of va s v] by (simp add: pcb_mapping_def Let_def)
qed

theorem pcb_mapping_correct_witness:
  "translate (pcb_mapping 0x08000000 0x00800000 paging_boot) 0x08048000
     = Some \<lparr>phys = 0x00848000, user = True, writable = True\<rparr>"
  using pcb_mapping_correct [of "0x00800000" "0x08000000" paging_boot "0x08048000"]
  by (simp add: take_bit_eq_mod)

text \<open>After \<open>syscall_video_mapping\<close> (and so after \<open>scheduling_video_mapping\<close>, which is
  the same code) the user page at 132 MB is the 4 KB frame given, writable; translations
  that do not go through directory entry 33 or the video table are as before.\<close>

lemma video_mapping_correct:
  assumes "take_bit 12 p = 0" and "tables_aligned s"
  shows "(0x08400000 \<le> v \<and> v < 0x08401000 \<longrightarrow>
      translate (syscall_video_mapping p s) v
        = Some \<lparr>phys = p + v mod 0x1000, user = True, writable = True\<rparr>)
    \<and> (pd_index v \<noteq> 33 \<and> frame_of 12 (page_dir s (pd_index v)) \<noteq> page_video_tab_at s \<longrightarrow>
      translate (syscall_video_mapping p s) v = translate s v)
    \<and> scheduling_video_mapping p s = syscall_video_mapping p s"
proof (intro conjI impI)
  assume v: "0x08400000 \<le> v \<and> v < 0x08401000"
  then have "unat v div 4194304 = 33" "unat v div 4096 = 33792"
    by (auto simp: word_le_nat_alt word_less_nat_alt intro!: div_nat_eqI)
  then have "pd_index v = 33" "pt_index v = 0" by (simp_all add: pd_index_div pt_index_div)
  from video_mapping_translate [OF assms this]
  show "translate (syscall_video_mapping p s) v
      = Some \<lparr>phys = p + v mod 0x1000, user = True, writable = True\<rparr>"
    by (simp add: take_bit_eq_mod)
next
  assume "pd_index v \<noteq> 33 \<and> frame_of 12 (page_dir s (pd_index v)) \<noteq> page_video_tab_at s"
  then show "translate (syscall_video_mapping p s) v = translate s v"
    using video_mapping_other by blast
qed (simp add: scheduling_is_syscall_mapping)

theorem video_mapping_correct_witness:
  "translate (syscall_video_mapping 0xB9000 paging_boot) 0x08400010
     = Some \<lparr>phys = 0xB9010, user = True, writable = True\<rparr>"
  using video_mapping_correct [OF _ paging_boot_aligned, of "0xB9000" "0x08400010"]
  by (simp add: take_bit_eq_mod)

end
