(* ===== verification/Lib_Mem.thy ===== *)
theory Lib_Mem
  imports Prelude
begin

text \<open>
  The memory routines of \<open>lib.c\<close>: \<open>memset\<close>, \<open>memset_word\<close>, \<open>memset_dword\<close>,
  \<open>memcpy\<close> and \<open>memmove\<close>. Each is an inline-assembly routine whose registers are the
  arguments here (\<open>edi\<close>, \<open>esi\<close>, \<open>ecx\<close>): an alignment loop, a string instruction on
  double words and a tail loop. They are proved equal to \<open>store\<close>, the reference that
  writes a byte list.
\<close>

section \<open>memset\<close>

text \<open>\<open>rep stosl\<close>, \<open>rep stosw\<close>: store \<open>eax\<close> (or \<open>ax\<close>) \<open>ecx\<close> times, upwards.\<close>

definition dword_bytes :: "u32 \<Rightarrow> byte list" where
  "dword_bytes v = [ucast v, ucast (drop_bit 8 v), ucast (drop_bit 16 v), ucast (drop_bit 24 v)]"

definition word_bytes :: "u32 \<Rightarrow> byte list" where
  "word_bytes v = [ucast v, ucast (drop_bit 8 v)]"

fun rep_stos :: "byte list \<Rightarrow> mem \<Rightarrow> addr \<Rightarrow> nat \<Rightarrow> mem \<times> addr" where
  "rep_stos unit m edi 0 = (m, edi)"
| "rep_stos unit m edi (Suc n) =
     rep_stos unit (store m edi unit) (edi + of_nat (length unit)) n"

text \<open>\<open>.memset_bottom\<close>: the bytes left after the double words.\<close>

function memset_bottom :: "mem \<Rightarrow> u32 \<Rightarrow> addr \<Rightarrow> u32 \<Rightarrow> mem" where
  "memset_bottom m eax edi edx =
     (if edx = 0 then m
      else memset_bottom (m(edi := ucast eax)) eax (edi + 1) (edx - 1))"
  by pat_completeness auto
termination
  by (relation "measure (\<lambda>(m, eax, edi, edx). unat edx)") (auto intro: measure_unat)

text \<open>\<open>.memset_aligned\<close>.\<close>

definition memset_aligned :: "mem \<Rightarrow> u32 \<Rightarrow> addr \<Rightarrow> u32 \<Rightarrow> mem" where
  "memset_aligned m eax edi ecx =
     (let edx = ecx AND 3;
          (m', edi') = rep_stos (dword_bytes eax) m edi (unat (drop_bit 2 ecx))
      in memset_bottom m' eax edi' edx)"

text \<open>\<open>.memset_top\<close>: single bytes until \<open>edi\<close> is a multiple of four.\<close>

function memset_top :: "mem \<Rightarrow> u32 \<Rightarrow> addr \<Rightarrow> u32 \<Rightarrow> mem" where
  "memset_top m eax edi ecx =
     (if ecx = 0 then m
      else if edi AND 3 = 0 then memset_aligned m eax edi ecx
      else memset_top (m(edi := ucast eax)) eax (edi + 1) (ecx - 1))"
  by pat_completeness auto
termination
  by (relation "measure (\<lambda>(m, eax, edi, ecx). unat ecx)") (auto intro: measure_unat)

declare memset_bottom.simps [simp del] memset_top.simps [simp del]

definition memset :: "mem \<Rightarrow> addr \<Rightarrow> u32 \<Rightarrow> u32 \<Rightarrow> mem" where
  "memset m s c n =
     (let c = c AND 0xFF
      in memset_top m (push_bit 24 c OR push_bit 16 c OR push_bit 8 c OR c) s n)"

definition memset_word :: "mem \<Rightarrow> addr \<Rightarrow> u32 \<Rightarrow> u32 \<Rightarrow> mem" where
  "memset_word m s c n = fst (rep_stos (word_bytes c) m s (unat n))"

definition memset_dword :: "mem \<Rightarrow> addr \<Rightarrow> u32 \<Rightarrow> u32 \<Rightarrow> mem" where
  "memset_dword m s c n = fst (rep_stos (dword_bytes c) m s (unat n))"

section \<open>memcpy\<close>

fun rep_movsl :: "mem \<Rightarrow> addr \<Rightarrow> addr \<Rightarrow> nat \<Rightarrow> mem \<times> addr \<times> addr" where
  "rep_movsl m edi esi 0 = (m, edi, esi)"
| "rep_movsl m edi esi (Suc n) = rep_movsl (store m edi (load m esi 4)) (edi + 4) (esi + 4) n"

function memcpy_bottom :: "mem \<Rightarrow> addr \<Rightarrow> addr \<Rightarrow> u32 \<Rightarrow> mem" where
  "memcpy_bottom m edi esi edx =
     (if edx = 0 then m
      else memcpy_bottom (m(edi := m esi)) (edi + 1) (esi + 1) (edx - 1))"
  by pat_completeness auto
termination
  by (relation "measure (\<lambda>(m, edi, esi, edx). unat edx)") (auto intro: measure_unat)

definition memcpy_aligned :: "mem \<Rightarrow> addr \<Rightarrow> addr \<Rightarrow> u32 \<Rightarrow> mem" where
  "memcpy_aligned m edi esi ecx =
     (let edx = ecx AND 3;
          (m', edi', esi') = rep_movsl m edi esi (unat (drop_bit 2 ecx))
      in memcpy_bottom m' edi' esi' edx)"

function memcpy_top :: "mem \<Rightarrow> addr \<Rightarrow> addr \<Rightarrow> u32 \<Rightarrow> mem" where
  "memcpy_top m edi esi ecx =
     (if ecx = 0 then m
      else if edi AND 3 = 0 then memcpy_aligned m edi esi ecx
      else memcpy_top (m(edi := m esi)) (edi + 1) (esi + 1) (ecx - 1))"
  by pat_completeness auto
termination
  by (relation "measure (\<lambda>(m, edi, esi, ecx). unat ecx)") (auto intro: measure_unat)

declare memcpy_bottom.simps [simp del] memcpy_top.simps [simp del]

definition memcpy :: "mem \<Rightarrow> addr \<Rightarrow> addr \<Rightarrow> u32 \<Rightarrow> mem" where
  "memcpy m dest src n = memcpy_top m dest src n"

section \<open>memmove\<close>

text \<open>
  \<open>rep movsb\<close> in the direction the flag gives: upwards when \<open>DF\<close> is clear, downwards
  when \<open>std\<close> has set it.
\<close>

fun rep_movsb :: "bool \<Rightarrow> mem \<Rightarrow> addr \<Rightarrow> addr \<Rightarrow> nat \<Rightarrow> mem" where
  "rep_movsb df m edi esi 0 = m"
| "rep_movsb df m edi esi (Suc n) =
     (if df then rep_movsb df (m(edi := m esi)) (edi - 1) (esi - 1) n
      else rep_movsb df (m(edi := m esi)) (edi + 1) (esi + 1) n)"

text \<open>The memory after the call, and the direction flag it leaves behind.\<close>

definition memmove :: "mem \<Rightarrow> addr \<Rightarrow> addr \<Rightarrow> u32 \<Rightarrow> mem \<times> bool" where
  "memmove m dest src n =
     (if dest \<le> src then (rep_movsb False m dest src (unat n), False)
      else (rep_movsb True m (dest + n - 1) (src + n - 1) (unat n), True))"

section \<open>The optimised routines against the reference\<close>

subsection \<open>Counting registers\<close>

lemma unat_and_3: "unat (ecx AND 3 :: u32) = unat ecx mod 4"
proof -
  have "ecx AND 3 = take_bit 2 ecx"
    by (simp add: take_bit_eq_mask mask_eq_exp_minus_1)
  then show ?thesis by (simp add: take_bit_eq_mod unat_mod)
qed

lemma unat_shr_2: "unat (drop_bit 2 ecx :: u32) = unat ecx div 4"
  by (simp add: drop_bit_eq_div unat_div)

lemma quads_and_rest: "4 * (unat ecx div 4) + unat ecx mod 4 = unat (ecx :: u32)"
  by simp

lemma ecx_step:
  "(ecx :: u32) \<noteq> 0 \<Longrightarrow> Suc (unat (ecx - 1)) = unat ecx"
  by (simp add: unat_minus_one unat_gt_0)

subsection \<open>memset\<close>

lemma rep_stos_store:
  "length unit * n \<le> 4294967296 \<Longrightarrow>
   rep_stos unit m edi n
     = (store m edi (concat (replicate n unit)), edi + of_nat (length unit * n))"
proof (induction n arbitrary: m edi)
  case 0
  then show ?case by simp
next
  case (Suc n)
  then have le: "length unit * n \<le> 4294967296" by simp
  have len: "length (concat (replicate n unit)) = length unit * n"
    by (simp add: length_concat sum_list_replicate)
  show ?case
    using Suc.prems by (simp add: Suc.IH [OF le] store_append len mult.commute add.assoc
        add.left_commute algebra_simps)
qed

lemma memset_bottom_store:
  "memset_bottom m eax edi edx = store m edi (replicate (unat edx) (ucast eax))"
proof (induction m eax edi edx rule: memset_bottom.induct)
  case (1 m eax edi edx)
  show ?case
  proof (cases "edx = 0")
    case True
    then show ?thesis by (simp add: memset_bottom.simps)
  next
    case False
    then have "memset_bottom m eax edi edx
        = memset_bottom (m(edi := ucast eax)) eax (edi + 1) (edx - 1)"
      by (subst memset_bottom.simps) simp
    also have "\<dots> = store (m(edi := ucast eax)) (edi + 1) (replicate (unat (edx - 1)) (ucast eax))"
      using False by (rule 1)
    also have "\<dots> = store m edi (replicate (Suc (unat (edx - 1))) (ucast eax))"
      by (subst store_Cons) (simp_all add: Suc_le_eq)
    finally show ?thesis using False by (simp add: ecx_step)
  qed
qed

lemma concat_replicate_const:
  "concat (replicate k (replicate j b)) = replicate (k * j) b"
  by (induction k) (simp_all add: replicate_add add.commute)

lemma memset_aligned_store:
  assumes "dword_bytes eax = replicate 4 (ucast eax)"
  shows "memset_aligned m eax edi ecx = store m edi (replicate (unat ecx) (ucast eax))"
proof -
  let ?b = "ucast eax :: byte" and ?q = "unat ecx div 4"
  have q: "length (dword_bytes eax) * ?q \<le> 4294967296"
  proof -
    from unat_u32_bound [of ecx] have "?q \<le> 1073741824" by linarith
    then show ?thesis by (simp add: assms)
  qed
  have stos: "rep_stos (dword_bytes eax) m edi ?q
      = (store m edi (replicate (?q * 4) ?b), edi + of_nat (?q * 4))"
    using rep_stos_store [OF q, of m edi] by (simp only: assms concat_replicate_const) (simp add: mult.commute)
  have "memset_aligned m eax edi ecx
      = store (store m edi (replicate (?q * 4) ?b)) (edi + of_nat (?q * 4))
          (replicate (unat ecx mod 4) ?b)"
    by (simp only: memset_aligned_def Let_def unat_shr_2 stos prod.case memset_bottom_store unat_and_3)
  also have "\<dots> = store m edi (replicate (?q * 4) ?b @ replicate (unat ecx mod 4) ?b)"
    using store_append [of "replicate (?q * 4) ?b" "replicate (unat ecx mod 4) ?b" m edi]
    by simp
  also have "replicate (?q * 4) ?b @ replicate (unat ecx mod 4) ?b = replicate (unat ecx) ?b"
    by (simp flip: replicate_add)
  finally show ?thesis .
qed

lemma memset_top_store:
  assumes "dword_bytes eax = replicate 4 (ucast eax)"
  shows "memset_top m eax edi ecx = store m edi (replicate (unat ecx) (ucast eax))"
  using assms
proof (induction m eax edi ecx rule: memset_top.induct)
  case (1 m eax edi ecx)
  consider "ecx = 0" | "ecx \<noteq> 0" "edi AND 3 = 0" | "ecx \<noteq> 0" "edi AND 3 \<noteq> 0" by blast
  then show ?case
  proof cases
    case 1
    then show ?thesis by (subst memset_top.simps) simp
  next
    case 2
    with "1.prems" show ?thesis by (subst memset_top.simps) (simp add: memset_aligned_store)
  next
    case 3
    then have "memset_top m eax edi ecx
        = memset_top (m(edi := ucast eax)) eax (edi + 1) (ecx - 1)"
      by (subst memset_top.simps) simp
    also have "\<dots> = store (m(edi := ucast eax)) (edi + 1) (replicate (unat (ecx - 1)) (ucast eax))"
      using 3 "1.prems" by (rule "1.IH")
    also have "\<dots> = store m edi (replicate (Suc (unat (ecx - 1))) (ucast eax))"
      by (subst store_Cons) (simp_all add: Suc_le_eq)
    finally show ?thesis using 3 by (simp add: ecx_step)
  qed
qed

lemma splat_bytes:
  fixes c :: u32
  defines "w \<equiv> c AND 0xFF"
  defines "v \<equiv> push_bit 24 w OR push_bit 16 w OR push_bit 8 w OR w"
  shows "dword_bytes v = replicate 4 (ucast v)" and "ucast v = (ucast c :: byte)"
proof -
  have w: "w = take_bit 8 c"
    by (simp add: w_def take_bit_eq_mask mask_eq_exp_minus_1)
  have b: "ucast v = (ucast c :: byte)" "ucast (drop_bit 8 v) = (ucast c :: byte)"
      "ucast (drop_bit 16 v) = (ucast c :: byte)" "ucast (drop_bit 24 v) = (ucast c :: byte)"
    by (rule bit_word_eqI, auto simp: v_def w bit_simps)+
  then show "dword_bytes v = replicate 4 (ucast v)" "ucast v = (ucast c :: byte)"
    by (simp_all add: dword_bytes_def numeral_eq_Suc)
qed

lemma memset_store: "memset m s c n = store m s (replicate (unat n) (ucast c))"
  by (simp only: memset_def Let_def memset_top_store splat_bytes)

subsection \<open>memcpy\<close>

text \<open>The copy the routines compute: the source run is read before it is written.\<close>

definition copy_run :: "mem \<Rightarrow> addr \<Rightarrow> addr \<Rightarrow> nat \<Rightarrow> mem" where
  "copy_run m d s n = store m d (load m s n)"

lemma copy_run_0 [simp]: "copy_run m d s 0 = m"
  by (simp add: copy_run_def)

lemma copy_run_append:
  assumes "disjoint d (n + k) s (n + k)" and "n + k \<le> 4294967296"
  shows "copy_run (copy_run m d s n) (d + of_nat n) (s + of_nat n) k = copy_run m d s (n + k)"
proof -
  have "disjoint (s + of_nat n) k d n"
    using disjoint_sub [OF disjoint_sym [OF assms(1)], of k n n 0] by simp
  then have "load (store m d (load m s n)) (s + of_nat n) k = load m (s + of_nat n) k"
    by (simp add: load_store_disjoint)
  then show ?thesis
    using store_append [of "load m s n" "load m (s + of_nat n) k" m d] assms(2)
    by (simp add: copy_run_def load_add)
qed

lemma copy_run_step:
  assumes "disjoint d (Suc k) s (Suc k)" and "Suc k \<le> 4294967296"
  shows "copy_run (m(d := m s)) (d + 1) (s + 1) k = copy_run m d s (Suc k)"
proof -
  have "copy_run m d s 1 = m(d := m s)" by (simp add: copy_run_def load_def)
  with copy_run_append [of d 1 k s m] assms show ?thesis by simp
qed

lemma disjoint_tail:
  "disjoint d (Suc k) s (Suc k) \<Longrightarrow> disjoint (d + 1) k (s + 1) k"
  using disjoint_sub [of d "Suc k" s "Suc k" k 1 k 1] by simp

lemma rep_movsl_copy:
  "disjoint edi (4 * n) esi (4 * n) \<Longrightarrow> 4 * n \<le> 4294967296 \<Longrightarrow>
   rep_movsl m edi esi n
     = (copy_run m edi esi (4 * n), edi + of_nat (4 * n), esi + of_nat (4 * n))"
proof (induction n arbitrary: m edi esi)
  case 0
  then show ?case by simp
next
  case (Suc n)
  let ?m = "copy_run m edi esi 4"
  have dis: "disjoint (edi + 4) (4 * n) (esi + 4) (4 * n)"
    using disjoint_sub [OF Suc.prems(1), of "4 * n" 4 "4 * n" 4] by simp
  have "rep_movsl m edi esi (Suc n) = rep_movsl ?m (edi + 4) (esi + 4) n"
    by (simp add: copy_run_def)
  also have "\<dots> = (copy_run ?m (edi + 4) (esi + 4) (4 * n),
      edi + 4 + of_nat (4 * n), esi + 4 + of_nat (4 * n))"
    using Suc.prems(2) by (intro Suc.IH dis) simp
  also have "copy_run ?m (edi + 4) (esi + 4) (4 * n) = copy_run m edi esi (4 + 4 * n)"
    using copy_run_append [of edi 4 "4 * n" esi m] Suc.prems by simp
  finally show ?case by (simp add: add.assoc)
qed

lemma memcpy_bottom_copy:
  "disjoint edi (unat edx) esi (unat edx) \<Longrightarrow>
   memcpy_bottom m edi esi edx = copy_run m edi esi (unat edx)"
proof (induction m edi esi edx rule: memcpy_bottom.induct)
  case (1 m edi esi edx)
  show ?case
  proof (cases "edx = 0")
    case True
    then show ?thesis by (subst memcpy_bottom.simps) simp
  next
    case False
    then have n: "Suc (unat (edx - 1)) = unat edx" by (rule ecx_step)
    with "1.prems" have d: "disjoint edi (Suc (unat (edx - 1))) esi (Suc (unat (edx - 1)))" by simp
    have "memcpy_bottom m edi esi edx = memcpy_bottom (m(edi := m esi)) (edi + 1) (esi + 1) (edx - 1)"
      using False by (subst memcpy_bottom.simps) simp
    also have "\<dots> = copy_run (m(edi := m esi)) (edi + 1) (esi + 1) (unat (edx - 1))"
      using False disjoint_tail [OF d] by (rule "1.IH")
    also have "\<dots> = copy_run m edi esi (Suc (unat (edx - 1)))"
      using d by (rule copy_run_step) (simp add: Suc_le_eq)
    finally show ?thesis by (simp add: n)
  qed
qed

lemma memcpy_aligned_copy:
  assumes "disjoint edi (unat ecx) esi (unat ecx)"
  shows "memcpy_aligned m edi esi ecx = copy_run m edi esi (unat ecx)"
proof -
  let ?n = "4 * (unat ecx div 4)" and ?k = "unat ecx mod 4"
  have nk: "?n + ?k = unat ecx" by simp
  have le: "?n \<le> 4294967296" using unat_u32_bound [of ecx] by linarith
  have d1: "disjoint edi ?n esi ?n"
    using disjoint_sub [OF assms, of ?n 0 ?n 0] nk by simp
  have d2: "disjoint (edi + of_nat ?n) ?k (esi + of_nat ?n) ?k"
    using disjoint_sub [OF assms, of ?k ?n ?k ?n] nk by simp
  have "memcpy_aligned m edi esi ecx
      = copy_run (copy_run m edi esi ?n) (edi + of_nat ?n) (esi + of_nat ?n) ?k"
    by (simp only: memcpy_aligned_def Let_def unat_shr_2 rep_movsl_copy [OF d1 le] prod.case)
       (subst memcpy_bottom_copy, simp_all only: unat_and_3 d2)
  also have "\<dots> = copy_run m edi esi (?n + ?k)"
    using assms by (intro copy_run_append) (simp_all only: nk unat_u32_le)
  finally show ?thesis by simp
qed

lemma memcpy_top_copy:
  "disjoint edi (unat ecx) esi (unat ecx) \<Longrightarrow>
   memcpy_top m edi esi ecx = copy_run m edi esi (unat ecx)"
proof (induction m edi esi ecx rule: memcpy_top.induct)
  case (1 m edi esi ecx)
  consider "ecx = 0" | "ecx \<noteq> 0" "edi AND 3 = 0" | "ecx \<noteq> 0" "edi AND 3 \<noteq> 0" by blast
  then show ?case
  proof cases
    case 1
    then show ?thesis by (subst memcpy_top.simps) simp
  next
    case 2
    with "1.prems" show ?thesis by (subst memcpy_top.simps) (simp add: memcpy_aligned_copy)
  next
    case 3
    then have n: "Suc (unat (ecx - 1)) = unat ecx" by (intro ecx_step)
    with "1.prems" have d: "disjoint edi (Suc (unat (ecx - 1))) esi (Suc (unat (ecx - 1)))" by simp
    have "memcpy_top m edi esi ecx = memcpy_top (m(edi := m esi)) (edi + 1) (esi + 1) (ecx - 1)"
      using 3 by (subst memcpy_top.simps) simp
    also have "\<dots> = copy_run (m(edi := m esi)) (edi + 1) (esi + 1) (unat (ecx - 1))"
      using 3 disjoint_tail [OF d] by (rule "1.IH")
    also have "\<dots> = copy_run m edi esi (Suc (unat (ecx - 1)))"
      using d by (rule copy_run_step) (simp add: Suc_le_eq)
    finally show ?thesis by (simp add: n)
  qed
qed

lemma memcpy_copy:
  "disjoint dest (unat n) src (unat n) \<Longrightarrow> memcpy m dest src n = copy_run m dest src (unat n)"
  by (simp add: memcpy_def memcpy_top_copy)

subsection \<open>memmove\<close>

lemma copy_run_up:
  assumes "\<And>i. i < k \<Longrightarrow> s + of_nat (Suc i) \<noteq> d" and "Suc k \<le> 4294967296"
  shows "copy_run (m(d := m s)) (d + 1) (s + 1) k = copy_run m d s (Suc k)"
proof -
  have "load (m(d := m s)) (s + 1) k = load m (s + 1) k"
    using assms(1) by (intro nth_equalityI) (auto simp: add.assoc)
  then show ?thesis
    using assms(2) by (simp add: copy_run_def load_Suc store_Cons)
qed

lemma copy_run_down:
  assumes "\<And>i. i < k \<Longrightarrow> s + of_nat i \<noteq> d + of_nat k" and "Suc k \<le> 4294967296"
  shows "copy_run (m(d + of_nat k := m (s + of_nat k))) d s k = copy_run m d s (Suc k)"
proof -
  let ?v = "m (s + of_nat k)" and ?x = "d + of_nat k"
  have "load (m(?x := ?v)) s k = load m s k"
    using assms(1) by (intro nth_equalityI) auto
  moreover have "store (m(?x := ?v)) d (load m s k) = (store m d (load m s k))(?x := ?v)"
    using assms(2) by (auto simp: store_def fun_eq_iff)
  moreover have "(store m d (load m s k))(?x := ?v) = store m d (load m s k @ [?v])"
    using store_append [of "load m s k" "[?v]" m d] assms(2) by simp
  moreover have "load m s (Suc k) = load m s k @ [?v]"
    using load_add [of m s k 1] by (simp add: load_def)
  ultimately show ?thesis by (simp add: copy_run_def)
qed

lemma rep_movsb_up:
  "unat d \<le> unat s \<Longrightarrow> unat s + n \<le> 4294967296 \<Longrightarrow>
   rep_movsb False m d s n = copy_run m d s n"
proof (induction n arbitrary: m d s)
  case 0
  then show ?case by simp
next
  case (Suc n)
  have away: "s + of_nat (Suc i) \<noteq> d" if "i < n" for i
  proof
    assume "s + of_nat (Suc i) = d"
    moreover have "unat (s + of_nat (Suc i)) = unat s + Suc i"
      using that Suc.prems(2) by (simp add: unat_word_ariths)
    ultimately show False using Suc.prems(1) by simp
  qed
  have "rep_movsb False (m(d := m s)) (d + 1) (s + 1) n = copy_run (m(d := m s)) (d + 1) (s + 1) n"
  proof (cases n)
    case 0
    then show ?thesis by simp
  next
    case (Suc k)
    then have "unat (s + 1) = unat s + 1" and "unat (d + 1) = unat d + 1"
      using Suc.prems by (simp_all add: unat_word_ariths)
    then show ?thesis using Suc.prems by (intro Suc.IH) simp_all
  qed
  then show ?case
    using Suc.prems(2) by (simp add: copy_run_up [OF away])
qed

lemma rep_movsb_down:
  "unat s < unat d \<Longrightarrow> unat d + n \<le> 4294967296 \<Longrightarrow>
   rep_movsb True m (d + of_nat n - 1) (s + of_nat n - 1) n = copy_run m d s n"
proof (induction n arbitrary: m)
  case 0
  then show ?case by simp
next
  case (Suc n)
  have away: "s + of_nat i \<noteq> d + of_nat n" if "i < n" for i
  proof
    assume "s + of_nat i = d + of_nat n"
    moreover have "unat (s + of_nat i) = unat s + i" "unat (d + of_nat n) = unat d + n"
      using that Suc.prems by (simp_all add: unat_word_ariths)
    ultimately show False using Suc.prems(1) that by simp
  qed
  have "rep_movsb True m (d + of_nat (Suc n) - 1) (s + of_nat (Suc n) - 1) (Suc n)
      = rep_movsb True (m(d + of_nat n := m (s + of_nat n)))
          (d + of_nat n - 1) (s + of_nat n - 1) n"
    by (simp add: algebra_simps)
  also have "\<dots> = copy_run (m(d + of_nat n := m (s + of_nat n))) d s n"
    using Suc.prems by (intro Suc.IH) simp_all
  also have "\<dots> = copy_run m d s (Suc n)"
    using Suc.prems(2) by (intro copy_run_down away) simp_all
  finally show ?case .
qed

lemma memmove_copy:
  assumes "unat dest + unat n \<le> 4294967296" and "unat src + unat n \<le> 4294967296"
  shows "fst (memmove m dest src n) = copy_run m dest src (unat n)"
proof (cases "dest \<le> src")
  case True
  with assms show ?thesis by (simp add: memmove_def rep_movsb_up word_le_nat_alt)
next
  case False
  then have "unat src < unat dest" by (simp add: word_le_nat_alt)
  with False rep_movsb_down [of src dest "unat n" m] assms show ?thesis
    by (simp add: memmove_def)
qed

text \<open>A byte-by-byte upward move within one buffer, one more byte at a time.\<close>

lemma copy_run_snoc:
  assumes "0 < k" and "Suc n + k \<le> 4294967296"
  shows "(copy_run m d (d + of_nat k) n)(d + of_nat n := copy_run m d (d + of_nat k) n (d + of_nat (k + n)))
    = copy_run m d (d + of_nat k) (Suc n)"
proof -
  have "copy_run m d (d + of_nat k) n (d + of_nat (k + n)) = m (d + of_nat (k + n))"
    unfolding copy_run_def using assms by (intro store_outside) (simp del: of_nat_add)
  moreover have "load m (d + of_nat k) (Suc n) = load m (d + of_nat k) n @ [m (d + of_nat (k + n))]"
    using load_add [of m "d + of_nat k" n 1] by (simp add: load_def add.assoc)
  ultimately show ?thesis
    using store_append [of "load m (d + of_nat k) n" "[m (d + of_nat (k + n))]" m d] assms(2)
    by (simp add: copy_run_def)
qed

section \<open>Properties\<close>

text \<open>C34: \<open>memset\<close>, with its byte prologue, dword loop and byte epilogue, sets exactly the
  bytes \<open>s .. s + n - 1\<close> to the low byte of \<open>c\<close>, for every alignment and every length.\<close>

theorem memset_correct:
  "memset m s c n a = (if unat (a - s) < unat n then ucast c else m a)"
  by (simp add: memset_store store_def)

text \<open>C33: \<open>memcpy\<close> between runs that do not overlap is the byte-by-byte copy, for every
  alignment and length, and writes nothing else.\<close>

theorem memcpy_correct:
  assumes "disjoint dest (unat n) src (unat n)"
  shows "memcpy m dest src n a = (if unat (a - dest) < unat n then m (src + (a - dest)) else m a)"
  by (auto simp: memcpy_copy [OF assms] copy_run_def store_def)

theorem memcpy_correct_witness:
  "memcpy (\<lambda>a. ucast a) 0x1001 0x2003 7 0x1005 = 0x07"
proof -
  have "disjoint 0x1001 (unat (7 :: u32)) 0x2003 (unat (7 :: u32))" by (rule disjointI) simp_all
  from memcpy_correct [OF this, of "\<lambda>a. ucast a" "0x1005"] show ?thesis by simp
qed

text \<open>C32: \<open>memmove\<close> copies the source as it was before the call, also when the runs overlap
  in either direction, and writes nothing outside the destination; after a copy from the
  top end it returns with the direction flag set.\<close>

theorem memmove_correct:
  assumes "unat dest + unat n \<le> 4294967296" and "unat src + unat n \<le> 4294967296"
  shows "fst (memmove m dest src n) a
      = (if unat (a - dest) < unat n then m (src + (a - dest)) else m a)
    \<and> (snd (memmove m dest src n) \<longleftrightarrow> src < dest)"
  using memmove_copy [OF assms, of m]
  by (auto simp: copy_run_def store_def memmove_def)

theorem memmove_correct_witness:
  "fst (memmove (\<lambda>a. ucast a) 0x1001 0x1000 3) 0x1003 = 0x02 \<and> snd (memmove (\<lambda>a. ucast a) 0x1001 0x1000 3)"
  using memmove_correct [of "0x1001" 3 "0x1000" "\<lambda>a. ucast a" "0x1003"] by simp

end
