(* ===== verification/Lib_String.thy ===== *)
theory Lib_String
  imports Lib_Mem
begin

text \<open>
  The string routines of \<open>lib.c\<close> (\<open>strlen\<close>, \<open>strncmp\<close>, \<open>strcpy\<close>, \<open>strncpy\<close>,
  \<open>strrev\<close>, \<open>itoa\<close>) over the flat memory. A loop that runs until it meets a NUL is an
  \<open>option\<close>: \<open>None\<close> is a loop that never meets one.
\<close>

section \<open>The routines\<close>

partial_function (option) strlen_loop :: "mem \<Rightarrow> addr \<Rightarrow> u32 \<Rightarrow> u32 option" where
  "strlen_loop m s len = (if m (s + len) \<noteq> 0 then strlen_loop m s (len + 1) else Some len)"

definition strlen :: "mem \<Rightarrow> addr \<Rightarrow> u32 option" where
  "strlen m s = strlen_loop m s 0"

text \<open>\<open>char\<close> is signed, so the difference is taken of the sign-extended bytes.\<close>

function strncmp_loop :: "mem \<Rightarrow> addr \<Rightarrow> addr \<Rightarrow> nat \<Rightarrow> nat \<Rightarrow> int" where
  "strncmp_loop m s1 s2 n i =
     (if i < n then
        (if m (s1 + of_nat i) \<noteq> m (s2 + of_nat i) \<or> m (s1 + of_nat i) = 0
         then sint (m (s1 + of_nat i)) - sint (m (s2 + of_nat i))
         else strncmp_loop m s1 s2 n (Suc i))
      else 0)"
  by pat_completeness auto
termination
  by (relation "measure (\<lambda>(m, s1, s2, n, i). n - i)") auto

declare strncmp_loop.simps [simp del]

definition strncmp :: "mem \<Rightarrow> addr \<Rightarrow> addr \<Rightarrow> u32 \<Rightarrow> int" where
  "strncmp m s1 s2 n = strncmp_loop m s1 s2 (unat n) 0"

partial_function (option) strcpy_loop :: "mem \<Rightarrow> addr \<Rightarrow> addr \<Rightarrow> u32 \<Rightarrow> mem option" where
  "strcpy_loop m dest src i =
     (if m (src + i) \<noteq> 0
      then strcpy_loop (m(dest + i := m (src + i))) dest src (i + 1)
      else Some (m(dest + i := 0)))"

definition strcpy :: "mem \<Rightarrow> addr \<Rightarrow> addr \<Rightarrow> mem option" where
  "strcpy m dest src = strcpy_loop m dest src 0"

function strncpy_copy :: "mem \<Rightarrow> addr \<Rightarrow> addr \<Rightarrow> nat \<Rightarrow> nat \<Rightarrow> mem \<times> nat" where
  "strncpy_copy m dest src n i =
     (if m (src + of_nat i) \<noteq> 0 \<and> i < n
      then strncpy_copy (m(dest + of_nat i := m (src + of_nat i))) dest src n (Suc i)
      else (m, i))"
  by pat_completeness auto
termination
  by (relation "measure (\<lambda>(m, dest, src, n, i). n - i)") auto

function strncpy_pad :: "mem \<Rightarrow> addr \<Rightarrow> nat \<Rightarrow> nat \<Rightarrow> mem" where
  "strncpy_pad m dest n i =
     (if i < n then strncpy_pad (m(dest + of_nat i := 0)) dest n (Suc i) else m)"
  by pat_completeness auto
termination
  by (relation "measure (\<lambda>(m, dest, n, i). n - i)") auto

declare strncpy_copy.simps [simp del] strncpy_pad.simps [simp del]

definition strncpy :: "mem \<Rightarrow> addr \<Rightarrow> addr \<Rightarrow> u32 \<Rightarrow> mem" where
  "strncpy m dest src n =
     (let (m', i) = strncpy_copy m dest src (unat n) 0 in strncpy_pad m' dest (unat n) i)"

function strrev_loop :: "mem \<Rightarrow> addr \<Rightarrow> int \<Rightarrow> int \<Rightarrow> mem" where
  "strrev_loop m s beg end =
     (if beg < end then
        let tmp = m (s + word_of_int end)
        in strrev_loop (m(s + word_of_int end := m (s + word_of_int beg),
                          s + word_of_int beg := tmp)) s (beg + 1) (end - 1)
      else m)"
  by pat_completeness auto
termination
  by (relation "measure (\<lambda>(m, s, beg, end). nat (end - beg))") auto

declare strrev_loop.simps [simp del]

definition strrev :: "mem \<Rightarrow> addr \<Rightarrow> mem option" where
  "strrev m s = do { len \<leftarrow> strlen m s; Some (strrev_loop m s 0 (sint (len - 1))) }"

text \<open>
  \<open>lookup[]\<close> has its terminator as 37th byte; an index past it is outside the array, and
  \<open>% 0\<close> is a divide error: both are \<open>None\<close>.
\<close>

definition itoa_lookup :: "byte list" where
  "itoa_lookup = lit ''0123456789ABCDEFGHIJKLMNOPQRSTUVWXYZ'' @ [0]"

partial_function (option)
  itoa_loop :: "mem \<Rightarrow> addr \<Rightarrow> u32 \<Rightarrow> u32 \<Rightarrow> (mem \<times> addr) option" where
  "itoa_loop m newbuf newval radix =
     (if newval = 0 then Some (m, newbuf)
      else if radix = 0 \<or> \<not> unat (newval mod radix) < length itoa_lookup then None
      else itoa_loop (m(newbuf := itoa_lookup ! unat (newval mod radix)))
             (newbuf + 1) (newval div radix) radix)"

definition itoa :: "mem \<Rightarrow> u32 \<Rightarrow> addr \<Rightarrow> u32 \<Rightarrow> mem option" where
  "itoa m value buf radix =
     (if value = 0 then Some (m(buf := 0x30, buf + 1 := 0))
      else do {
        (m', newbuf) \<leftarrow> itoa_loop m buf value radix;
        strrev (m'(newbuf := 0)) buf
      })"

section \<open>NUL-terminated strings\<close>

text \<open>\<open>cstr m s xs\<close>: the NUL-terminated string at \<open>s\<close> has the bytes \<open>xs\<close>.\<close>

definition cstr :: "mem \<Rightarrow> addr \<Rightarrow> byte list \<Rightarrow> bool" where
  "cstr m s xs \<longleftrightarrow> length xs < 4294967296 \<and> load m s (length xs) = xs \<and> 0 \<notin> set xs
     \<and> m (s + of_nat (length xs)) = 0"

lemma cstr_nth: "cstr m s xs \<Longrightarrow> i < length xs \<Longrightarrow> m (s + of_nat i) = xs ! i"
  unfolding cstr_def by (metis nth_load)

lemma cstr_nonzero: "cstr m s xs \<Longrightarrow> i < length xs \<Longrightarrow> m (s + of_nat i) \<noteq> 0"
  by (metis cstr_def cstr_nth nth_mem)

lemma cstr_end: "cstr m s xs \<Longrightarrow> m (s + of_nat (length xs)) = 0"
  by (simp add: cstr_def)

lemma cstr_store:
  "0 \<notin> set xs \<Longrightarrow> length xs < 4294967296 \<Longrightarrow> cstr (store m s (xs @ [0])) s xs"
  unfolding cstr_def
  by (auto simp: store_at nth_append intro!: nth_equalityI)

lemma cstr_load: "cstr m s xs \<longleftrightarrow>
  length xs < 4294967296 \<and> load m s (Suc (length xs)) = xs @ [0] \<and> 0 \<notin> set xs"
  using load_add [of m s "length xs" 1] by (auto simp: cstr_def load_def)

lemma cstr_unique:
  assumes "cstr m s xs" and "cstr m s ys"
  shows "xs = ys"
proof -
  have "\<not> length xs < length ys" and "\<not> length ys < length xs"
    using assms cstr_nonzero cstr_end by blast+
  then have "length xs = length ys" by simp
  with assms show ?thesis by (metis cstr_def)
qed

lemma cstr_Cons: "cstr m s (x # xs) \<longleftrightarrow> Suc (length xs) < 4294967296 \<and> m s = x \<and> x \<noteq> 0 \<and> cstr m (s + 1) xs"
  by (auto simp: cstr_def load_Suc add.assoc)

lemma cstr_Nil: "cstr m s [] \<longleftrightarrow> m s = 0"
  by (simp add: cstr_def)

lemma cstr_cong:
  "(\<And>x. x \<in> run p (Suc (length zs)) \<Longrightarrow> m x = m' x) \<Longrightarrow> cstr m p zs = cstr m' p zs"
proof -
  assume eq: "\<And>x. x \<in> run p (Suc (length zs)) \<Longrightarrow> m x = m' x"
  have "load m p (Suc (length zs)) = load m' p (Suc (length zs))"
    unfolding load_def by (rule map_cong [OF refl], rule eq, rule imageI) auto
  then show ?thesis by (simp add: cstr_load)
qed

text \<open>The rest of a string from one of its characters on.\<close>

lemma cstr_append: "cstr m s (xs @ ys) \<Longrightarrow> cstr m (s + of_nat (length xs)) ys"
  by (induction xs arbitrary: s) (auto simp: cstr_Cons simp flip: add.assoc)

subsection \<open>strlen\<close>

lemma strlen_loop_cstr:
  "cstr m s xs \<Longrightarrow> i \<le> length xs \<Longrightarrow> strlen_loop m s (of_nat i) = Some (of_nat (length xs))"
proof (induction "length xs - i" arbitrary: i)
  case 0
  then have "i = length xs" by simp
  with 0 show ?case by (subst strlen_loop.simps) (simp add: cstr_end)
next
  case (Suc k)
  then have "strlen_loop m s (of_nat (Suc i)) = Some (of_nat (length xs))"
    by (intro Suc.hyps(1)) simp_all
  with Suc show ?case
    by (subst strlen_loop.simps) (simp add: cstr_nonzero add.commute)
qed

lemma strlen_cstr: "cstr m s xs \<Longrightarrow> strlen m s = Some (of_nat (length xs))"
  using strlen_loop_cstr [of m s xs 0] by (simp add: strlen_def)

text \<open>A NUL anywhere in the address space ends the loop, at the first one from \<open>s\<close> on.\<close>

lemma cstr_exists:
  assumes "m a = 0"
  shows "\<exists>xs. cstr m s xs"
proof -
  let ?P = "\<lambda>i. m (s + of_nat i) = 0"
  have P: "?P (unat (a - s))" using assms by simp
  define n where "n = (LEAST i. ?P i)"
  have n: "?P n" "n \<le> unat (a - s)" "\<And>i. i < n \<Longrightarrow> \<not> ?P i"
    unfolding n_def using P by (rule LeastI, rule Least_le) (rule not_less_Least)
  then have "n < 4294967296" using unat_u32_bound order_le_less_trans by blast
  with n have "cstr m s (load m s n)" by (auto simp: cstr_def load_def)
  then show ?thesis ..
qed

lemma strlen_loop_None_back:
  assumes "\<And>a. m a \<noteq> 0"
  shows "strlen_loop m s len = None"
proof (rule ccontr)
  assume "strlen_loop m s len \<noteq> None"
  then obtain r where "strlen_loop m s len = Some r" by blast
  then show False
    by (rule strlen_loop.raw_induct [where P = "\<lambda>m s len r. (\<forall>a. m a \<noteq> 0) \<longrightarrow> False", rotated,
          THEN mp]) (auto simp: assms split: if_splits)
qed

lemma strlen_None_iff: "strlen m s = None \<longleftrightarrow> (\<forall>a. m a \<noteq> 0)"
proof
  assume "strlen m s = None"
  then show "\<forall>a. m a \<noteq> 0" by (metis cstr_exists strlen_cstr option.distinct(1))
next
  assume "\<forall>a. m a \<noteq> 0"
  then show "strlen m s = None" by (simp add: strlen_def strlen_loop_None_back)
qed

subsection \<open>strncmp\<close>

text \<open>\<open>str_prefix m s n\<close>: what \<open>strncmp\<close> sees of a string, its first \<open>n\<close> bytes up to a NUL.\<close>

definition str_prefix :: "mem \<Rightarrow> addr \<Rightarrow> nat \<Rightarrow> byte list" where
  "str_prefix m s n = takeWhile (\<lambda>b. b \<noteq> 0) (load m s n)"

lemma str_prefix_Suc:
  "str_prefix m s (Suc n) = (if m s = 0 then [] else m s # str_prefix m (s + 1) n)"
  by (simp add: str_prefix_def load_Suc)

lemma str_prefix_0 [simp]: "str_prefix m s 0 = []"
  by (simp add: str_prefix_def)

lemma str_prefix_cstr:
  assumes "cstr m s xs"
  shows "str_prefix m s n = take n xs"
proof (cases "n \<le> length xs")
  case True
  then have "load m s n = take n xs"
    using assms by (intro nth_equalityI) (auto simp: cstr_nth)
  moreover have "0 \<notin> set (take n xs)" using assms by (auto simp: cstr_def dest: in_set_takeD)
  ultimately show ?thesis by (auto simp: str_prefix_def takeWhile_eq_all_conv)
next
  case False
  define k where "k = n - Suc (length xs)"
  have n: "n = Suc (length xs) + k" using False by (simp add: k_def)
  have "load m s n = xs @ 0 # load m (s + of_nat (Suc (length xs))) k"
    using load_add [of m s "Suc (length xs)" k] assms by (simp add: n cstr_load)
  moreover have "\<forall>b \<in> set xs. b \<noteq> 0" using assms by (auto simp: cstr_def)
  ultimately show ?thesis using False by (simp add: str_prefix_def)
qed

lemma strncmp_loop_0_iff:
  "i \<le> n \<Longrightarrow> strncmp_loop m s1 s2 n i = 0 \<longleftrightarrow>
     str_prefix m (s1 + of_nat i) (n - i) = str_prefix m (s2 + of_nat i) (n - i)"
proof (induction m s1 s2 n i rule: strncmp_loop.induct)
  case (1 m s1 s2 n i)
  show ?case
  proof (cases "i < n")
    case False
    with 1 show ?thesis by (subst strncmp_loop.simps) simp
  next
    case True
    then obtain k where k: "n - i = Suc k" "k = n - Suc i" by (metis Suc_diff_Suc)
    let ?a = "m (s1 + of_nat i)" and ?b = "m (s2 + of_nat i)"
    show ?thesis
    proof (cases "?a \<noteq> ?b \<or> ?a = 0")
      case False
      with True 1 k show ?thesis
        by (subst strncmp_loop.simps) (simp add: str_prefix_Suc add.assoc add.commute [of 1])
    next
      case stop: True
      have "sint ?a = sint ?b \<longleftrightarrow> ?a = ?b" by (metis word_eq_iff_signed)
      with True stop k show ?thesis
        by (subst strncmp_loop.simps) (auto simp: str_prefix_Suc)
    qed
  qed
qed

lemma strncmp_0_iff:
  "strncmp m s1 s2 n = 0 \<longleftrightarrow> str_prefix m s1 (unat n) = str_prefix m s2 (unat n)"
  using strncmp_loop_0_iff [of 0 "unat n" m s1 s2] by (simp add: strncmp_def)

lemma strncmp_cstr:
  "cstr m s1 xs \<Longrightarrow> cstr m s2 ys \<Longrightarrow> strncmp m s1 s2 n = 0 \<longleftrightarrow> take (unat n) xs = take (unat n) ys"
  by (simp add: strncmp_0_iff str_prefix_cstr)

subsection \<open>strcpy and strncpy\<close>

lemma strcpy_loop_store:
  "cstr m src xs \<Longrightarrow> disjoint dest (Suc (length xs)) src (Suc (length xs)) \<Longrightarrow> i \<le> length xs \<Longrightarrow>
   strcpy_loop (store m dest (take i xs)) dest src (of_nat i) = Some (store m dest (xs @ [0]))"
proof (induction "length xs - i" arbitrary: i)
  case 0
  then have i: "i = length xs" by simp
  have "store m dest xs (src + of_nat i) = 0"
    using 0 i by (simp add: store_disjoint_at cstr_end)
  moreover have "(store m dest xs)(dest + of_nat (length xs) := 0) = store m dest (xs @ [0])"
    using store_append [of xs "[0]" m dest] 0 by (simp add: cstr_def)
  ultimately show ?case using i by (subst strcpy_loop.simps) simp
next
  case (Suc k)
  then have i: "i < length xs" by simp
  let ?m = "store m dest (take i xs)"
  have src: "?m (src + of_nat i) = xs ! i"
    using Suc i by (simp add: store_disjoint_at cstr_nth)
  have "?m(dest + of_nat i := xs ! i) = store m dest (take (Suc i) xs)"
    using store_append [of "take i xs" "[xs ! i]" m dest] Suc.prems i
    by (simp add: cstr_def take_Suc_conv_app_nth)
  moreover have "strcpy_loop (store m dest (take (Suc i) xs)) dest src (of_nat (Suc i))
      = Some (store m dest (xs @ [0]))"
    using Suc by (intro Suc.hyps(1)) simp_all
  moreover have "xs ! i \<noteq> 0"
    using Suc.prems(1) i by (metis cstr_nonzero cstr_nth)
  ultimately show ?case by (subst strcpy_loop.simps) (simp add: src add.commute)
qed

lemma strcpy_store:
  "cstr m src xs \<Longrightarrow> disjoint dest (Suc (length xs)) src (Suc (length xs)) \<Longrightarrow>
   strcpy m dest src = Some (store m dest (xs @ [0]))"
  using strcpy_loop_store [of m src xs dest 0] by (simp add: strcpy_def)

lemma strncpy_pad_store:
  "i \<le> n \<Longrightarrow> n \<le> 4294967296 \<Longrightarrow>
   strncpy_pad m dest n i = store m (dest + of_nat i) (replicate (n - i) 0)"
proof (induction m dest n i rule: strncpy_pad.induct)
  case (1 m dest n i)
  show ?case
  proof (cases "i < n")
    case False
    with 1 show ?thesis by (subst strncpy_pad.simps) simp
  next
    case True
    then have n: "n - i = Suc (n - Suc i)" by simp
    have "strncpy_pad m dest n i = store (m(dest + of_nat i := 0)) (dest + of_nat i + 1)
        (replicate (n - Suc i) 0)"
      using 1 True
      by (subst strncpy_pad.simps) (simp add: add.assoc add.commute [of 1] del: fun_upd_apply)
    also have "\<dots> = store m (dest + of_nat i) (replicate (n - i) 0)"
      using 1 True by (subst store_Cons) (simp_all add: n)
    finally show ?thesis .
  qed
qed

lemma strncpy_copy_store:
  assumes "disjoint dest n src n" and "n < 4294967296"
  shows "i \<le> length (str_prefix m src n) \<Longrightarrow>
    strncpy_copy (store m dest (take i (str_prefix m src n))) dest src n i
      = (store m dest (str_prefix m src n), length (str_prefix m src n))"
proof (induction "length (str_prefix m src n) - i" arbitrary: i)
  case 0
  let ?p = "str_prefix m src n"
  have i: "i = length ?p" using 0 by simp
  have le: "length ?p \<le> n"
    by (metis length_load length_takeWhile_le str_prefix_def)
  have "i < n \<Longrightarrow> store m dest ?p (src + of_nat i) = 0"
  proof -
    assume "i < n"
    then have "m (src + of_nat i) = 0"
      using nth_length_takeWhile [of "\<lambda>b. b \<noteq> 0" "load m src n"] i by (simp add: str_prefix_def)
    then show ?thesis
      using assms le \<open>i < n\<close> by (simp add: store_disjoint_at)
  qed
  then show ?case using i by (subst strncpy_copy.simps) auto
next
  case (Suc k)
  let ?p = "str_prefix m src n" and ?m = "store m dest (take i (str_prefix m src n))"
  have i: "i < length ?p" using Suc by simp
  have le: "length ?p \<le> n"
    by (metis length_load length_takeWhile_le str_prefix_def)
  have pi: "?p ! i = m (src + of_nat i)"
    using i le by (simp add: str_prefix_def takeWhile_nth)
  have "0 \<notin> set ?p" by (auto simp: str_prefix_def dest: set_takeWhileD)
  then have nz: "?p ! i \<noteq> 0" using i nth_mem by metis
  have src: "?m (src + of_nat i) = ?p ! i"
    using i le assms(1) pi by (simp add: store_disjoint_at)
  have "?m(dest + of_nat i := ?p ! i) = store m dest (take (Suc i) ?p)"
    using store_append [of "take i ?p" "[?p ! i]" m dest] i le assms(2)
    by (simp add: take_Suc_conv_app_nth)
  then show ?case
    using Suc i le nz by (subst strncpy_copy.simps) (simp add: src)
qed

definition pad_to :: "nat \<Rightarrow> byte list \<Rightarrow> byte list" where
  "pad_to n xs = xs @ replicate (n - length xs) 0"

lemma strncpy_store:
  assumes "disjoint dest (unat n) src (unat n)"
  shows "strncpy m dest src n = store m dest (pad_to (unat n) (str_prefix m src (unat n)))"
proof -
  let ?p = "str_prefix m src (unat n)"
  have le: "length ?p \<le> unat n"
    by (metis length_load length_takeWhile_le str_prefix_def)
  have "strncpy m dest src n
      = store (store m dest ?p) (dest + of_nat (length ?p)) (replicate (unat n - length ?p) 0)"
    using strncpy_copy_store [OF assms, of 0 m] le
    by (simp add: strncpy_def strncpy_pad_store)
  also have "\<dots> = store m dest (pad_to (unat n) ?p)"
    unfolding pad_to_def using le by (intro store_append) simp
  finally show ?thesis .
qed

subsection \<open>strrev\<close>

lemma store_at_int:
  "0 \<le> k \<Longrightarrow> k < int (length xs) \<Longrightarrow> length xs \<le> 4294967296 \<Longrightarrow>
   store m s xs (s + word_of_int k) = xs ! nat k"
  using store_at [of "nat k" xs m s] by simp

lemma store_upd_int:
  "0 \<le> k \<Longrightarrow> k < int (length xs) \<Longrightarrow> length xs \<le> 4294967296 \<Longrightarrow>
   (store m s xs)(s + word_of_int k := b) = store m s (xs[nat k := b])"
proof
  fix x
  assume k: "0 \<le> k" "k < int (length xs)" "length xs \<le> 4294967296"
  obtain j where j: "j < 4294967296" "x = s + of_nat j" by (rule offset_cases)
  have w: "(word_of_int k :: u32) = of_nat (nat k)" using k by simp
  have nk: "nat k < length xs" using k by linarith
  have "x = s + word_of_int k \<longleftrightarrow> j = nat k"
    using nk k(3) j by (simp only: w) simp
  moreover have "unat (x - s) = j" using j by simp
  ultimately show "((store m s xs)(s + word_of_int k := b)) x = store m s (xs[nat k := b]) x"
    using nk by (simp add: store_def nth_list_update)
qed

lemma swap_ends:
  "(us @ x # mid @ y # vs)[length us + Suc (length mid) := x, length us := y]
     = us @ y # mid @ x # vs"
  using list_update_length [of "us @ x # mid" y vs x] list_update_length [of us x "mid @ x # vs" y]
  by simp

lemma strrev_loop_store:
  "length (us @ xs @ vs) \<le> 4294967296 \<Longrightarrow>
   strrev_loop (store m s (us @ xs @ vs)) s (int (length us)) (int (length us + length xs) - 1)
     = store m s (us @ rev xs @ vs)"
proof (induction "length xs" arbitrary: us xs vs rule: less_induct)
  case less
  show ?case
  proof (cases "length xs < 2")
    case True
    then have "rev xs = xs" by (cases xs; cases "tl xs") auto
    with True show ?thesis by (subst strrev_loop.simps) simp
  next
    case False
    then obtain x t where xt: "xs = x # t" "t \<noteq> []" by (cases xs) auto
    then obtain mid y where "t = mid @ [y]" by (metis append_butlast_last_id)
    with xt have xs: "xs = x # mid @ [y]" by simp
    let ?ys = "us @ xs @ vs" and ?b = "int (length us)" and ?e = "int (length us + length xs) - 1"
    have e: "nat ?e = length us + Suc (length mid)" by (simp add: xs)
    have yb: "?ys ! nat ?b = x" and ye: "?ys ! nat ?e = y"
      by (simp_all only: e nat_int) (simp_all add: xs nth_append)
    have swap: "(store m s ?ys)(s + word_of_int ?e := x, s + word_of_int ?b := y)
        = store m s ((us @ [y]) @ mid @ (x # vs))"
    proof -
      have 1: "(store m s ?ys)(s + word_of_int ?e := x) = store m s (?ys[nat ?e := x])"
        using less.prems by (intro store_upd_int) (simp_all add: xs)
      have 2: "(store m s (?ys[nat ?e := x]))(s + word_of_int ?b := y)
          = store m s (?ys[nat ?e := x, nat ?b := y])"
        using less.prems by (intro store_upd_int) (simp_all add: xs)
      have 3: "?ys[nat ?e := x, nat ?b := y] = (us @ [y]) @ mid @ (x # vs)"
        using swap_ends [of us x mid y vs]
        by (simp only: e nat_int) (simp add: xs)
      show ?thesis by (simp only: 1 2 3)
    qed
    have "strrev_loop (store m s ?ys) s ?b ?e
        = strrev_loop (store m s ((us @ [y]) @ mid @ (x # vs))) s (?b + 1) (?e - 1)"
    proof -
      have "store m s ?ys (s + word_of_int ?e) = y"
        and "store m s ?ys (s + word_of_int ?b) = x"
        using less.prems store_at_int [of ?e ?ys m s] store_at_int [of ?b ?ys m s] yb ye
        by (simp_all add: xs)
      moreover have "?b < ?e" by (simp add: xs)
      ultimately show ?thesis by (subst strrev_loop.simps) (simp only: Let_def if_True swap)
    qed
    also have "\<dots> = store m s ((us @ [y]) @ rev mid @ (x # vs))"
      using less.hyps [of mid "us @ [y]" "x # vs"] less.prems
      by (simp add: xs algebra_simps)
    finally show ?thesis by (simp add: xs)
  qed
qed

lemma store_load_same: "n \<le> 4294967296 \<Longrightarrow> store m a (load m a n) = m"
  by (auto simp: store_def fun_eq_iff)

lemma strrev_store:
  assumes "cstr m s xs" and "length xs < 2147483648"
  shows "strrev m s = Some (store m s (rev xs))"
proof -
  have len: "strlen m s = Some (of_nat (length xs))" using assms(1) by (rule strlen_cstr)
  have e: "sint (of_nat (length xs) - 1 :: u32) = int (length xs) - 1"
  proof -
    have "(of_nat (length xs) - 1 :: u32) = word_of_int (int (length xs) - 1)" by simp
    then show ?thesis
      using assms(2) by (simp only: sint_of_int_u32)
  qed
  have "store m s xs = m"
    using assms(1) by (metis cstr_def less_imp_le store_load_same)
  then show ?thesis
    using strrev_loop_store [of "[]" xs "[]" m s] assms by (simp add: strrev_def len e)
qed

subsection \<open>itoa\<close>

text \<open>The digits of a number, least significant first, and the string \<open>itoa\<close> makes of them.\<close>

fun digits_rev :: "nat \<Rightarrow> nat \<Rightarrow> nat list" where
  "digits_rev r n = (if n = 0 \<or> r < 2 then [] else n mod r # digits_rev r (n div r))"

declare digits_rev.simps [simp del]

definition digit_byte :: "nat \<Rightarrow> byte" where
  "digit_byte d = itoa_lookup ! d"

definition digit_val :: "byte \<Rightarrow> nat" where
  "digit_val b = (if b \<le> 0x39 then unat b - 48 else unat b - 55)"

definition itoa_bytes :: "u32 \<Rightarrow> u32 \<Rightarrow> byte list" where
  "itoa_bytes v r =
     (if v = 0 then [0x30] else map digit_byte (rev (digits_rev (unat r) (unat v))))"

text \<open>Reading a numeral back, the usual left-to-right evaluation.\<close>

definition parse_digits :: "nat \<Rightarrow> byte list \<Rightarrow> nat" where
  "parse_digits r = foldl (\<lambda>acc b. acc * r + digit_val b) 0"

lemma length_itoa_lookup [simp]: "length itoa_lookup = 37"
  by (simp add: itoa_lookup_def)

lemma digit_byte_props:
  "d < 36 \<Longrightarrow> digit_val (digit_byte d) = d \<and> digit_byte d \<noteq> 0"
proof -
  have "\<forall>d \<in> set [0..<36]. digit_val (digit_byte d) = d \<and> digit_byte d \<noteq> 0"
    by code_simp
  then show "d < 36 \<Longrightarrow> ?thesis" by simp
qed

lemma digits_rev_bound: "d \<in> set (digits_rev r n) \<Longrightarrow> d < r"
proof (induction r n rule: digits_rev.induct)
  case (1 r n)
  then show ?case by (subst (asm) (2) digits_rev.simps) (auto split: if_splits)
qed

lemma length_digits_rev: "n < r ^ k \<Longrightarrow> length (digits_rev r n) \<le> k"
proof (induction k arbitrary: n)
  case 0
  then show ?case by (simp add: digits_rev.simps)
next
  case (Suc k)
  show ?case
  proof (cases "n = 0 \<or> r < 2")
    case True
    then show ?thesis by (simp add: digits_rev.simps)
  next
    case False
    with Suc.prems have "n div r < r ^ k" by (simp add: div_less_iff_less_mult mult.commute)
    with Suc.IH False show ?thesis by (simp add: digits_rev.simps [of r n])
  qed
qed

lemma digits_rev_value:
  "2 \<le> r \<Longrightarrow> foldr (\<lambda>d acc. acc * r + d) (digits_rev r n) 0 = n"
proof (induction r n rule: digits_rev.induct)
  case (1 r n)
  then show ?case by (subst digits_rev.simps) (simp add: mult.commute)
qed

lemma length_digits_u32: "2 \<le> r \<Longrightarrow> length (digits_rev r (unat (v :: u32))) \<le> 32"
proof (rule length_digits_rev)
  assume "2 \<le> r"
  then have "(2::nat) ^ 32 \<le> r ^ 32" by (intro power_mono) simp_all
  then have "(4294967296::nat) \<le> r ^ 32" by simp
  with unat_u32_bound [of v] show "unat v < r ^ 32" by (rule less_le_trans)
qed

lemma itoa_loop_store:
  assumes "2 \<le> unat r" and "unat r \<le> 36"
  shows "itoa_loop m nb v r
    = Some (store m nb (map digit_byte (digits_rev (unat r) (unat v))),
        nb + of_nat (length (digits_rev (unat r) (unat v))))"
proof (induction "unat v" arbitrary: m nb v rule: less_induct)
  case less
  show ?case
  proof (cases "v = 0")
    case True
    then show ?thesis by (subst itoa_loop.simps) (simp add: digits_rev.simps)
  next
    case False
    let ?ds = "digits_rev (unat r) (unat v div unat r)" and ?d = "digit_byte (unat v mod unat r)"
    have v: "0 < unat v" using False by (simp add: unat_gt_0)
    have ds: "digits_rev (unat r) (unat v) = unat v mod unat r # ?ds"
      using v assms(1) by (subst digits_rev.simps) simp
    have dec: "unat (v div r) < unat v" using v assms(1) by (simp add: unat_div)
    have "unat v mod unat r < unat r" using assms(1) by (intro mod_less_divisor) simp
    with assms(2) have "unat v mod unat r < 36" by simp
    then have ok: "r \<noteq> 0" "unat (v mod r) < length itoa_lookup"
      using assms(1) by (auto simp: unat_mod)
    have len: "length ?ds \<le> 32" using length_digits_u32 [OF assms(1), of "v div r"]
      by (simp add: unat_div)
    have "itoa_loop m nb v r = itoa_loop (m(nb := ?d)) (nb + 1) (v div r) r"
      using False ok by (subst itoa_loop.simps) (simp add: unat_mod digit_byte_def)
    also have "\<dots> = Some (store (m(nb := ?d)) (nb + 1) (map digit_byte ?ds),
        nb + 1 + of_nat (length ?ds))"
      using less [OF dec] by (simp add: unat_div)
    also have "store (m(nb := ?d)) (nb + 1) (map digit_byte ?ds) = store m nb (?d # map digit_byte ?ds)"
      using len by (intro store_Cons) simp
    finally show ?thesis by (simp add: ds add.assoc)
  qed
qed

lemma store_overwrite:
  "length xs = length ys \<Longrightarrow> store (store m a (xs @ zs)) a ys = store m a (ys @ zs)"
  by (auto simp: store_def fun_eq_iff nth_append)

lemma itoa_bytes_nonzero:
  assumes "unat r \<le> 36"
  shows "0 \<notin> set (itoa_bytes v r)"
proof
  assume "0 \<in> set (itoa_bytes v r)"
  then obtain d where "d \<in> set (digits_rev (unat r) (unat v))" "digit_byte d = 0"
    by (auto simp: itoa_bytes_def split: if_splits)
  then have "d < unat r" by (intro digits_rev_bound)
  with assms digit_byte_props [of d] \<open>digit_byte d = 0\<close> show False by simp
qed

lemma itoa_store:
  assumes "2 \<le> unat r" and "unat r \<le> 36"
  shows "itoa m v buf r = Some (store m buf (itoa_bytes v r @ [0]))"
proof (cases "v = 0")
  case True
  then show ?thesis by (simp add: itoa_def itoa_bytes_def flip: store_Cons)
next
  case False
  let ?ds = "map digit_byte (digits_rev (unat r) (unat v))"
  have len: "length ?ds \<le> 32" using length_digits_u32 [OF assms(1)] by simp
  have nul: "(store m buf ?ds)(buf + of_nat (length ?ds) := 0) = store m buf (?ds @ [0])"
    using store_append [of ?ds "[0]" m buf] len by simp
  have "cstr (store m buf (?ds @ [0])) buf ?ds"
    using itoa_bytes_nonzero [OF assms(2), of v] len False
    by (intro cstr_store) (auto simp: itoa_bytes_def)
  then have "strrev (store m buf (?ds @ [0])) buf = Some (store m buf (rev ?ds @ [0]))"
    using len by (simp add: strrev_store store_overwrite)
  with False nul show ?thesis
    by (simp add: itoa_def itoa_loop_store [OF assms] itoa_bytes_def rev_map)
qed

lemma itoa_bytes_parse:
  assumes "2 \<le> unat r" and "unat r \<le> 36"
  shows "parse_digits (unat r) (itoa_bytes v r) = unat v"
proof (cases "v = 0")
  case True
  then show ?thesis by (simp add: parse_digits_def itoa_bytes_def digit_val_def)
next
  case False
  have "foldr (\<lambda>b acc. acc * unat r + digit_val b) (map digit_byte ds) 0
      = foldr (\<lambda>d acc. acc * unat r + d) ds 0" if "\<forall>d \<in> set ds. d < 36" for ds
    using that by (induction ds) (simp_all add: digit_byte_props)
  moreover have "\<forall>d \<in> set (digits_rev (unat r) (unat v)). d < 36"
    using assms(2) digits_rev_bound by fastforce
  ultimately show ?thesis
    using False assms(1)
    by (simp add: parse_digits_def itoa_bytes_def foldl_conv_foldr rev_map digits_rev_value)
qed

lemma length_itoa_bytes:
  "unat v < unat r ^ k \<Longrightarrow> 0 < k \<Longrightarrow> length (itoa_bytes v r) \<le> k"
  using length_digits_rev [of "unat v" "unat r" k] by (auto simp: itoa_bytes_def)

section \<open>Properties\<close>

text \<open>C36: \<open>strlen\<close> returns whenever some byte of the address space is zero, and then gives
  the number of bytes before the first zero from \<open>s\<close> on.\<close>

theorem strlen_total:
  "(strlen m s = None \<longleftrightarrow> (\<forall>a. m a \<noteq> 0))
    \<and> (\<forall>n. strlen m s = Some n \<longrightarrow> m (s + n) = 0 \<and> (\<forall>i < unat n. m (s + of_nat i) \<noteq> 0))"
proof (intro conjI allI impI)
  show "strlen m s = None \<longleftrightarrow> (\<forall>a. m a \<noteq> 0)" by (rule strlen_None_iff)
next
  fix n assume n: "strlen m s = Some n"
  then obtain a where "m a = 0" using strlen_None_iff [of m s] by auto
  then obtain xs where xs: "cstr m s xs" using cstr_exists by blast
  with n have eq: "n = of_nat (length xs)" by (simp add: strlen_cstr)
  then have len: "unat n = length xs" using xs by (simp add: cstr_def)
  show "m (s + n) = 0" using xs eq by (simp add: cstr_end)
  fix i assume "i < unat n"
  then show "m (s + of_nat i) \<noteq> 0" using cstr_nonzero [OF xs] len by simp
qed

text \<open>\<open>strlen_total\<close> at the string "ab" at address 16.\<close>

theorem strlen_total_witness:
  "\<not> (\<forall>a. store (\<lambda>_. 1) 16 [0x61, 0x62, 0] a \<noteq> 0)
    \<and> strlen (store (\<lambda>_. 1) 16 [0x61, 0x62, 0]) 16 \<noteq> None"
proof -
  have "store (\<lambda>_. 1) 16 [0x61, 0x62, 0] (16 + of_nat 2) = (0 :: byte)" by (subst store_at) simp_all
  then show ?thesis
    using strlen_total [of "store (\<lambda>_. 1) 16 [0x61, 0x62, 0]" 16] by blast
qed

text \<open>\<open>strncmp\<close> returns 0 exactly when the two strings agree up to their first NUL or the
  first \<open>n\<close> bytes, whichever comes first.\<close>

lemma strncmp_zero_iff:
  "strncmp m s1 s2 n = 0 \<longleftrightarrow>
     takeWhile (\<lambda>b. b \<noteq> 0) (load m s1 (unat n)) = takeWhile (\<lambda>b. b \<noteq> 0) (load m s2 (unat n))"
  by (simp add: strncmp_0_iff str_prefix_def)

text \<open>C35: \<open>itoa\<close> followed by reading the digits gives the number back, in every radix from 2
  to 36 and for every 32-bit value; the result is NUL-terminated and at most 32 digits long.\<close>

theorem itoa_roundtrip:
  assumes "2 \<le> unat r" and "unat r \<le> 36"
  shows "\<exists>ds. itoa m v buf r = Some (store m buf (ds @ [0])) \<and> 0 \<notin> set ds
    \<and> parse_digits (unat r) ds = unat v \<and> 0 < length ds \<and> length ds \<le> 32"
proof (intro exI conjI)
  show "itoa m v buf r = Some (store m buf (itoa_bytes v r @ [0]))" by (rule itoa_store) fact+
  show "0 \<notin> set (itoa_bytes v r)" by (rule itoa_bytes_nonzero) fact
  show "parse_digits (unat r) (itoa_bytes v r) = unat v" by (rule itoa_bytes_parse) fact+
  have "(2 :: nat) ^ 32 \<le> unat r ^ 32" by (rule power_mono) (use assms in simp_all)
  then have "unat v < unat r ^ 32" using unat_u32_bound [of v] by (simp del: unat_u32_bound)
  then show "length (itoa_bytes v r) \<le> 32" by (rule length_itoa_bytes) simp
  show "0 < length (itoa_bytes v r)"
    using assms by (simp add: itoa_bytes_def digits_rev.simps [of "unat r" "unat v"] unat_eq_0)
qed

theorem itoa_roundtrip_witness:
  "\<exists>ds. itoa (\<lambda>_. 0) 1234 0x2000 16 = Some (store (\<lambda>_. 0) 0x2000 (ds @ [0])) \<and> 0 \<notin> set ds
    \<and> parse_digits 16 ds = 1234 \<and> 0 < length ds \<and> length ds \<le> 32"
  using itoa_roundtrip [of 16 "\<lambda>_. 0" 1234 "0x2000"] by simp

end
