(* ===== verification/Console.thy ===== *)
theory Console
  imports Paging Lib_String
begin

text \<open>
  The text screen of \<open>lib.c\<close>: the cursor, the video memory and the operations on them, each
  in the version for the displayed terminal (\<open>putc\<close>, \<open>enter\<close>, \<open>scroll_up\<close>, ...) and in the
  \<open>multi_\<close> version that writes the page of a terminal in the background. The array \<open>term[]\<close>
  of \<open>terminal.h\<close> is a function from its index. The screen is specified by \<open>vga\<close>: a list
  of 2000 cells and a cursor.
\<close>

section \<open>State\<close>

record term_t =
  term_id :: byte
  cur_pcb_id :: int \<comment> \<open>\<open>int8_t\<close>; \<open>-1\<close> is "no process"\<close>
  cursor_x :: u32
  cursor_y :: u32
  rtc_virtual_freq :: int
  rtc_virtual_counter :: int
  rtc_interrupt_received :: int
  saved_key_buf :: "byte list" \<comment> \<open>\<open>key_buf\<close>\<close>
  saved_key_buf_idx :: nat \<comment> \<open>\<open>key_buf_idx\<close>\<close>
  enter_state :: nat
  running :: nat
  term_video_mem :: addr \<comment> \<open>\<open>video_mem\<close>\<close>

record console_state = paging_state +
  screen_x :: int
  screen_y :: int
  video_mem :: addr
  terms :: "nat \<Rightarrow> term_t" \<comment> \<open>\<open>term[TERM_MAX]\<close>\<close>
  cur_term_id :: nat \<comment> \<open>the displayed terminal, 3 before the first is launched\<close>
  now_term_id :: nat \<comment> \<open>the terminal whose process runs\<close>

definition VIDEO :: addr where "VIDEO = 0xB8000"
definition NUM_COLS :: nat where "NUM_COLS = 80"
definition NUM_ROWS :: nat where "NUM_ROWS = 25"
definition TERM_MAX :: nat where "TERM_MAX = 3"
definition CURSOR_CMD :: u16 where "CURSOR_CMD = 0x03D4"
definition CURSOR_DATA :: u16 where "CURSOR_DATA = 0x03D5"

lemmas screen_size [simp] = NUM_COLS_def NUM_ROWS_def

text \<open>The \<open>if\<close> chain that picks a terminal's colour: \<open>ATTRIB_T1\<close> to \<open>ATTRIB_T3\<close>, \<open>ATTRIB\<close>.\<close>

definition attrib_of :: "nat \<Rightarrow> byte" where
  "attrib_of i = (if i = 0 then 0xD else if i = 1 then 0xA else if i = 2 then 0xE else 0x7)"

abbreviation now_term :: "'a console_state_scheme \<Rightarrow> term_t" where
  "now_term s \<equiv> terms s (now_term_id s)"

definition update_term :: "nat \<Rightarrow> (term_t \<Rightarrow> term_t) \<Rightarrow> 'a console_state_scheme \<Rightarrow> 'a console_state_scheme"
  where
  "update_term i f s = s\<lparr>terms := (terms s)(i := f (terms s i))\<rparr>"

section \<open>The displayed terminal\<close>

definition get_cursor_x :: "'a console_state_scheme \<Rightarrow> int" where
  "get_cursor_x s = screen_x s"

definition get_cursor_y :: "'a console_state_scheme \<Rightarrow> int" where
  "get_cursor_y s = screen_y s"

definition set_vidmem :: "addr \<Rightarrow> 'a console_state_scheme \<Rightarrow> 'a console_state_scheme" where
  "set_vidmem a s = s\<lparr>video_mem := a\<rparr>"

text \<open>The two loops of a scroll: move every cell up one row, blank the bottom row.\<close>

definition move_cell :: "addr \<Rightarrow> nat \<Rightarrow> 'a machine_scheme \<Rightarrow> 'a machine_scheme" where
  "move_cell base i s =
     (let s = poke (base + of_nat (2 * i)) (mem s (base + of_nat (2 * (i + NUM_COLS)))) s
      in poke (base + of_nat (2 * i) + 1) (mem s (base + of_nat (2 * (i + NUM_COLS)) + 1)) s)"

definition blank_cell :: "addr \<Rightarrow> byte \<Rightarrow> nat \<Rightarrow> 'a machine_scheme \<Rightarrow> 'a machine_scheme" where
  "blank_cell base attr i s =
     (let s = poke (base + of_nat (2 * i)) 0x20 s in poke (base + of_nat (2 * i) + 1) attr s)"

definition scroll_up :: "'a console_state_scheme \<Rightarrow> 'a console_state_scheme" where
  "scroll_up s =
     (let s = s\<lparr>video_mem := VIDEO\<rparr>;
          s = for_range 0 ((NUM_ROWS - 1) * NUM_COLS) (\<lambda>i s. move_cell (video_mem s) i s) s
      in for_range ((NUM_ROWS - 1) * NUM_COLS) (NUM_ROWS * NUM_COLS)
           (\<lambda>i s. blank_cell (video_mem s) (attrib_of (cur_term_id s)) i s) s)"

text \<open>The hardware cursor, through the CRT controller's index and data ports.\<close>

definition update_cursor_ports :: "'a console_state_scheme \<Rightarrow> 'a console_state_scheme" where
  "update_cursor_ports s =
     (let pos = word_of_int (screen_y s * int NUM_COLS + screen_x s) :: u16;
          s = outb 0x0F CURSOR_CMD s;
          s = outb (ucast (pos AND 0xFF)) CURSOR_DATA s;
          s = outb 0x0E CURSOR_CMD s
      in outb (ucast (drop_bit 8 pos AND 0xFF)) CURSOR_DATA s)"

text \<open>
  \<open>set_screen_cursor\<close> and \<open>enter\<close> call each other: a column past the last is a new line,
  which is the call with column 0. The inner call of \<open>enter()\<close> is written out.
\<close>

function set_screen_cursor :: "u32 \<Rightarrow> u32 \<Rightarrow> 'a console_state_scheme \<Rightarrow> 'a console_state_scheme"
  where
  "set_screen_cursor new_x new_y s =
     (if new_x < of_nat NUM_COLS then
        let s = s\<lparr>screen_x := int (unat new_x)\<rparr>;
            s = (if new_y < of_nat NUM_ROWS then s\<lparr>screen_y := int (unat new_y)\<rparr>
                 else (scroll_up s)\<lparr>screen_y := int (NUM_ROWS - 1)\<rparr>)
        in update_cursor_ports s
      else set_screen_cursor 0 (word_of_int (screen_y s + 1)) s)"
  by pat_completeness auto
termination
  by (relation "measure (\<lambda>(x, y, s). if x < of_nat NUM_COLS then 0 else 1)") auto

declare set_screen_cursor.simps [simp del]

definition enter :: "'a console_state_scheme \<Rightarrow> 'a console_state_scheme" where
  "enter s = set_screen_cursor 0 (word_of_int (screen_y s + 1)) s"

text \<open>\<open>backspace\<close> steps back one cell, then blanks it; both its branches end in these lines.\<close>

definition erase_at_cursor :: "'a console_state_scheme \<Rightarrow> 'a console_state_scheme" where
  "erase_at_cursor s =
     (let pos = word_of_int (screen_y s * int NUM_COLS + screen_x s) :: u16;
          s = s\<lparr>video_mem := VIDEO\<rparr>
      in blank_cell (video_mem s) (attrib_of (cur_term_id s)) (unat pos) s)"

definition backspace :: "'a console_state_scheme \<Rightarrow> 'a console_state_scheme" where
  "backspace s =
     (if screen_x s \<noteq> 0
      then erase_at_cursor
             (set_screen_cursor (word_of_int (screen_x s - 1)) (word_of_int (screen_y s)) s)
      else if screen_y s \<noteq> 0
      then erase_at_cursor
             (set_screen_cursor (of_nat (NUM_COLS - 1)) (word_of_int (screen_y s - 1)) s)
      else s)"

definition clear :: "'a console_state_scheme \<Rightarrow> 'a console_state_scheme" where
  "clear s =
     (let s = s\<lparr>video_mem := VIDEO\<rparr>
      in for_range 0 (NUM_ROWS * NUM_COLS)
           (\<lambda>i s. blank_cell (video_mem s) (attrib_of (cur_term_id s)) i s) s)"

text \<open>The byte offset of the cell a cursor is on, \<open>(NUM_COLS * y + x) << 1\<close>.\<close>

definition cursor_offset :: "int \<Rightarrow> int \<Rightarrow> u32" where
  "cursor_offset x y = push_bit 1 (word_of_int (int NUM_COLS * y + x))"

definition putc :: "byte \<Rightarrow> 'a console_state_scheme \<Rightarrow> 'a console_state_scheme" where
  "putc c s =
     (if c = 0x0A \<or> c = 0x0D then enter s
      else
        let s = s\<lparr>video_mem := VIDEO\<rparr>;
            s = poke (video_mem s + cursor_offset (screen_x s) (screen_y s)) c s;
            s = poke (video_mem s + cursor_offset (screen_x s) (screen_y s) + 1)
                  (attrib_of (cur_term_id s)) s;
            s = s\<lparr>screen_x := screen_x s + 1\<rparr>
        in set_screen_cursor (word_of_int (screen_x s)) (word_of_int (screen_y s)) s)"

text \<open>\<open>test_interrupts\<close>: increment every character of the page \<open>video_mem\<close> points to.\<close>

definition test_interrupts :: "'a console_state_scheme \<Rightarrow> 'a console_state_scheme" where
  "test_interrupts s =
     for_range 0 (NUM_ROWS * NUM_COLS)
       (\<lambda>i s. poke (video_mem s + of_nat (2 * i)) (mem s (video_mem s + of_nat (2 * i)) + 1) s) s"

section \<open>A terminal in the background\<close>

definition multi_scroll_up :: "'a console_state_scheme \<Rightarrow> 'a console_state_scheme" where
  "multi_scroll_up s =
     (let s = for_range 0 ((NUM_ROWS - 1) * NUM_COLS)
                (\<lambda>i s. move_cell (term_video_mem (now_term s)) i s) s
      in for_range ((NUM_ROWS - 1) * NUM_COLS) (NUM_ROWS * NUM_COLS)
           (\<lambda>i s. blank_cell (term_video_mem (now_term s)) (attrib_of (now_term_id s)) i s) s)"

function multi_set_screen_cursor ::
  "u32 \<Rightarrow> u32 \<Rightarrow> 'a console_state_scheme \<Rightarrow> 'a console_state_scheme" where
  "multi_set_screen_cursor new_x new_y s =
     (if new_x < of_nat NUM_COLS then
        let s = update_term (now_term_id s) (\<lambda>t. t\<lparr>cursor_x := new_x\<rparr>) s
        in if new_y < of_nat NUM_ROWS
           then update_term (now_term_id s) (\<lambda>t. t\<lparr>cursor_y := new_y\<rparr>) s
           else update_term (now_term_id s) (\<lambda>t. t\<lparr>cursor_y := of_nat (NUM_ROWS - 1)\<rparr>)
                  (multi_scroll_up s)
      else multi_set_screen_cursor 0 (cursor_y (now_term s) + 1) s)"
  by pat_completeness auto
termination
  by (relation "measure (\<lambda>(x, y, s). if x < of_nat NUM_COLS then 0 else 1)") auto

declare multi_set_screen_cursor.simps [simp del]

definition multi_enter :: "'a console_state_scheme \<Rightarrow> 'a console_state_scheme" where
  "multi_enter s = multi_set_screen_cursor 0 (cursor_y (now_term s) + 1) s"

text \<open>
  The character goes to the background page at the terminal's own cursor; the attribute goes
  where the code sends it, to \<open>video_mem\<close> at the cursor of the displayed screen, in the
  displayed terminal's colour.
\<close>

definition multi_putc :: "byte \<Rightarrow> 'a console_state_scheme \<Rightarrow> 'a console_state_scheme" where
  "multi_putc c s =
     (if c = 0x0A \<or> c = 0x0D then multi_enter s
      else
        let t = now_term s;
            s = poke (term_video_mem t + push_bit 1 (of_nat NUM_COLS * cursor_y t + cursor_x t)) c s;
            s = poke (video_mem s + cursor_offset (screen_x s) (screen_y s) + 1)
                  (attrib_of (cur_term_id s)) s;
            s = update_term (now_term_id s) (\<lambda>t. t\<lparr>cursor_x := cursor_x t + 1\<rparr>) s
        in multi_set_screen_cursor (cursor_x (now_term s)) (cursor_y (now_term s)) s)"

section \<open>The screen as a byte run\<close>

text \<open>The two loops on the memory alone.\<close>

definition move_cell_mem :: "addr \<Rightarrow> nat \<Rightarrow> mem \<Rightarrow> mem" where
  "move_cell_mem base i m =
     (let m = m(base + of_nat (2 * i) := m (base + of_nat (2 * (i + NUM_COLS))))
      in m(base + of_nat (2 * i) + 1 := m (base + of_nat (2 * (i + NUM_COLS)) + 1)))"

definition blank_cell_mem :: "addr \<Rightarrow> byte \<Rightarrow> nat \<Rightarrow> mem \<Rightarrow> mem" where
  "blank_cell_mem base attr i m = m(base + of_nat (2 * i) := 0x20, base + of_nat (2 * i) + 1 := attr)"

definition blanks :: "nat \<Rightarrow> byte \<Rightarrow> byte list" where
  "blanks n attr = concat (replicate n [0x20, attr])"

lemma length_blanks [simp]: "length (blanks n attr) = 2 * n"
  by (simp add: blanks_def length_concat sum_list_replicate)

lemma move_cells_copy:
  "2 * n + 160 \<le> 4294967296 \<Longrightarrow> for_range 0 n (move_cell_mem b) m = copy_run m b (b + 160) (2 * n)"
proof (induction n)
  case 0
  then show ?case by simp
next
  case (Suc n)
  let ?c = "copy_run m b (b + of_nat 160)"
  have "move_cell_mem b n (?c (2 * n)) = ?c (Suc (Suc (2 * n)))"
    using Suc.prems copy_run_snoc [of 160 "2 * n" m b] copy_run_snoc [of 160 "Suc (2 * n)" m b]
    by (simp add: move_cell_mem_def Let_def algebra_simps)
  with Suc show ?case by (simp add: for_range_Suc)
qed

lemma blank_cells_store:
  "lo \<le> hi \<Longrightarrow> 2 * hi \<le> 4294967296 \<Longrightarrow>
   for_range lo hi (blank_cell_mem b attr) m = store m (b + of_nat (2 * lo)) (blanks (hi - lo) attr)"
proof (induction hi rule: dec_induct)
  case base
  then show ?case by (simp add: blanks_def)
next
  case (step n)
  let ?a = "b + of_nat (2 * lo)"
  have at: "?a + of_nat (2 * (n - lo)) = b + of_nat (2 * n)"
    using step by (simp add: add.assoc flip: of_nat_add)
  have "for_range lo (Suc n) (blank_cell_mem b attr) m
      = blank_cell_mem b attr n (store m ?a (blanks (n - lo) attr))"
    using step by (simp add: for_range_Suc)
  also have "\<dots> = store (store m ?a (blanks (n - lo) attr)) (b + of_nat (2 * n)) [0x20, attr]"
    by (simp add: blank_cell_mem_def flip: store_Cons)
  also have "\<dots> = store m ?a (blanks (n - lo) attr @ [0x20, attr])"
    using store_append [of "blanks (n - lo) attr" "[0x20, attr]" m ?a] step.prems step.hyps at by simp
  also have "blanks (n - lo) attr @ [0x20, attr] = blanks (Suc n - lo) attr"
    using step.hyps by (simp add: blanks_def Suc_diff_le flip: replicate_append_same)
  finally show ?case .
qed

definition scroll_mem :: "addr \<Rightarrow> byte \<Rightarrow> mem \<Rightarrow> mem" where
  "scroll_mem b attr m = store m b (drop 160 (load m b 4000) @ blanks 80 attr)"

lemma scroll_loops:
  "for_range 1920 2000 (blank_cell_mem b attr) (for_range 0 1920 (move_cell_mem b) m)
     = scroll_mem b attr m"
proof -
  have l: "drop 160 (load m b 4000) = load m (b + 160) 3840"
    using load_add [of m b 160 3840] by simp
  have "for_range 1920 2000 (blank_cell_mem b attr) (for_range 0 1920 (move_cell_mem b) m)
      = store (store m b (load m (b + 160) 3840)) (b + 3840) (blanks 80 attr)"
    by (simp add: move_cells_copy blank_cells_store copy_run_def)
  also have "\<dots> = scroll_mem b attr m"
    unfolding scroll_mem_def l
    using store_append [of "load m (b + 160) 3840" "blanks 80 attr" m b] by simp
  finally show ?thesis .
qed

lemma scroll_up_eq:
  "scroll_up s = s\<lparr>video_mem := VIDEO, mem := scroll_mem VIDEO (attrib_of (cur_term_id s)) (mem s)\<rparr>"
proof -
  let ?s = "s\<lparr>video_mem := VIDEO\<rparr>"
  have 1: "for_range 0 1920 (\<lambda>i s. move_cell (video_mem s) i s) ?s
      = ?s\<lparr>mem := for_range 0 1920 (move_cell_mem VIDEO) (mem s)\<rparr>"
    by (subst for_range_mem) (simp_all add: move_cell_def move_cell_mem_def poke_def Let_def)
  have 2: "for_range 1920 2000 (\<lambda>i s. blank_cell (video_mem s) (attrib_of (cur_term_id s)) i s)
       (?s\<lparr>mem := m\<rparr>)
      = ?s\<lparr>mem := for_range 1920 2000 (blank_cell_mem VIDEO (attrib_of (cur_term_id s))) m\<rparr>" for m
    by (subst for_range_mem) (simp_all add: blank_cell_def blank_cell_mem_def poke_def Let_def)
  show ?thesis
    by (simp add: scroll_up_def 1 2 Let_def scroll_loops)
qed

lemma multi_scroll_up_eq:
  "multi_scroll_up s = s\<lparr>mem :=
     scroll_mem (term_video_mem (now_term s)) (attrib_of (now_term_id s)) (mem s)\<rparr>"
proof -
  let ?b = "term_video_mem (now_term s)"
  have 1: "for_range 0 1920 (\<lambda>i s. move_cell (term_video_mem (now_term s)) i s) s
      = s\<lparr>mem := for_range 0 1920 (move_cell_mem ?b) (mem s)\<rparr>"
    by (subst for_range_mem) (simp_all add: move_cell_def move_cell_mem_def poke_def Let_def)
  have 2: "for_range 1920 2000
       (\<lambda>i s. blank_cell (term_video_mem (now_term s)) (attrib_of (now_term_id s)) i s) (s\<lparr>mem := m\<rparr>)
      = s\<lparr>mem := for_range 1920 2000 (blank_cell_mem ?b (attrib_of (now_term_id s))) m\<rparr>" for m
    by (subst for_range_mem) (simp_all add: blank_cell_def blank_cell_mem_def poke_def Let_def)
  show ?thesis by (simp add: multi_scroll_up_def 1 2 Let_def scroll_loops)
qed

lemma clear_eq:
  "clear s = s\<lparr>video_mem := VIDEO,
     mem := store (mem s) VIDEO (blanks 2000 (attrib_of (cur_term_id s)))\<rparr>"
proof -
  let ?s = "s\<lparr>video_mem := VIDEO\<rparr>"
  have "for_range 0 2000 (\<lambda>i s. blank_cell (video_mem s) (attrib_of (cur_term_id s)) i s) ?s
      = ?s\<lparr>mem := for_range 0 2000 (blank_cell_mem VIDEO (attrib_of (cur_term_id s))) (mem s)\<rparr>"
    by (subst for_range_mem) (simp_all add: blank_cell_def blank_cell_mem_def poke_def Let_def)
  then show ?thesis by (simp add: clear_def Let_def blank_cells_store)
qed

text \<open>The statically initialised console, before the first terminal is launched.\<close>

definition no_term :: term_t where
  "no_term = \<lparr>term_id = 0, cur_pcb_id = -1, cursor_x = 0, cursor_y = 0, rtc_virtual_freq = 0,
     rtc_virtual_counter = 0, rtc_interrupt_received = 0, saved_key_buf = replicate 128 0,
     saved_key_buf_idx = 0, enter_state = 0, running = 0, term_video_mem = 0\<rparr>"

definition console_boot :: "mem \<Rightarrow> console_state" where
  "console_boot m = paging_state.extend (paging_boot\<lparr>mem := m\<rparr>)
     (console_state.fields 0 0 VIDEO (\<lambda>i. no_term\<lparr>term_video_mem := 0xB9000 + of_nat i * 0x1000\<rparr>) 0 1)"

lemma console_boot_simps [simp]:
  "mem (console_boot m) = m" "screen_x (console_boot m) = 0" "screen_y (console_boot m) = 0"
  "video_mem (console_boot m) = VIDEO" "cur_term_id (console_boot m) = 0" "now_term_id (console_boot m) = 1"
  "terms (console_boot m) i = no_term\<lparr>term_video_mem := 0xB9000 + of_nat i * 0x1000\<rparr>"
  by (simp_all add: console_boot_def paging_boot_def pic_boot_def pic_state.defs paging_state.defs
      console_state.defs)

end
