(* ===== verification/Screen.thy ===== *)
theory Screen
  imports Console
begin

text \<open>
  What the console promises. A screen is a list of 2000 cells and a cursor; a character
  is put under the cursor, a line feed or a full row moves to the next row, and on the last
  row that scrolls. The operations of \<open>Console\<close> refine it: those of the displayed terminal
  on pairs of character and attribute, those of a background terminal on the characters of
  its page. What both owe their callers is the locale \<open>char_sink\<close>, which \<open>Printf\<close> uses.
\<close>

section \<open>The abstract screen\<close>

record 'c vga =
  cells :: "'c list"
  col :: nat
  row :: nat

definition vga_ok :: "'c vga \<Rightarrow> bool" where
  "vga_ok v \<longleftrightarrow> length (cells v) = 2000 \<and> col v < 80 \<and> row v < 25"

definition vga_newline :: "'c \<Rightarrow> 'c vga \<Rightarrow> 'c vga" where
  "vga_newline blank v =
     (if row v < 24 then v\<lparr>col := 0, row := row v + 1\<rparr>
      else v\<lparr>cells := drop 80 (cells v) @ replicate 80 blank, col := 0, row := 24\<rparr>)"

definition vga_put :: "'c \<Rightarrow> (byte \<Rightarrow> 'c) \<Rightarrow> byte \<Rightarrow> 'c vga \<Rightarrow> 'c vga" where
  "vga_put blank cell c v =
     (if c = 0x0A \<or> c = 0x0D then vga_newline blank v
      else let v = v\<lparr>cells := (cells v)[80 * row v + col v := cell c]\<rparr>
           in if col v < 79 then v\<lparr>col := col v + 1\<rparr> else vga_newline blank v)"

text \<open>Backspace: step back, over the row start too, and blank the cell; nothing at the origin.\<close>

definition vga_backspace :: "'c \<Rightarrow> 'c vga \<Rightarrow> 'c vga" where
  "vga_backspace blank v =
     (if col v = 0 \<and> row v = 0 then v
      else let v = (if col v = 0 then v\<lparr>col := 79, row := row v - 1\<rparr> else v\<lparr>col := col v - 1\<rparr>)
           in v\<lparr>cells := (cells v)[80 * row v + col v := blank]\<rparr>)"

lemma vga_put_ok: "vga_ok v \<Longrightarrow> vga_ok (vga_put b f c v)"
  by (auto simp: vga_ok_def vga_put_def vga_newline_def Let_def)

section \<open>A page of video memory\<close>

definition cells_of :: "mem \<Rightarrow> addr \<Rightarrow> (byte \<times> byte) list" where
  "cells_of m b = map (\<lambda>i. (m (b + of_nat (2 * i)), m (b + of_nat (2 * i) + 1))) [0..<2000]"

abbreviation page :: "addr \<Rightarrow> addr set" where
  "page b \<equiv> (\<lambda>i. b + of_nat i) ` {..<4000}"

lemma cell_addr [simp]:
  assumes "i < 2147483648" and "k < 2147483648"
  shows "(2 * of_nat i = (2 * of_nat k :: u32)) = (i = k)"
    and "(2 * of_nat i + 1 = (2 * of_nat k + 1 :: u32)) = (i = k)"
    and "2 * of_nat i + 1 \<noteq> (2 * of_nat k :: u32)" and "2 * of_nat i \<noteq> (2 * of_nat k + 1 :: u32)"
proof -
  have inj: "(of_nat a = (of_nat b :: u32)) = (a = b)" if "a < 4294967296" "b < 4294967296" for a b
    using that by simp
  show "(2 * of_nat i = (2 * of_nat k :: u32)) = (i = k)"
    using inj [of "2 * i" "2 * k"] assms by simp
  then show "(2 * of_nat i + 1 = (2 * of_nat k + 1 :: u32)) = (i = k)" by simp
  show "2 * of_nat i + 1 \<noteq> (2 * of_nat k :: u32)" "2 * of_nat i \<noteq> (2 * of_nat k + 1 :: u32)"
    using inj [of "2 * i + 1" "2 * k"] inj [of "2 * i" "2 * k + 1"] assms
    by (auto simp: add.commute) presburger+
qed

lemma length_cells_of [simp]: "length (cells_of m b) = 2000"
  by (simp add: cells_of_def)

lemma nth_cells_of:
  "i < 2000 \<Longrightarrow> cells_of m b ! i = (m (b + of_nat (2 * i)), m (b + of_nat (2 * i) + 1))"
  by (simp add: cells_of_def)

lemma cells_of_cong: "(\<And>a. a \<in> page b \<Longrightarrow> m a = m' a) \<Longrightarrow> cells_of m b = cells_of m' b"
proof -
  assume eq: "\<And>a. a \<in> page b \<Longrightarrow> m a = m' a"
  have "m (b + of_nat j) = m' (b + of_nat j)" if "j < 4000" for j
    using eq that by auto
  from this [of "2 * i" for i] this [of "2 * i + 1" for i] show ?thesis
    by (auto simp: cells_of_def algebra_simps)
qed

lemma cells_of_put:
  "k < 2000 \<Longrightarrow> cells_of (m(b + 2 * of_nat k := c, b + 2 * of_nat k + 1 := a)) b
     = (cells_of m b)[k := (c, a)]"
  by (rule nth_equalityI) (auto simp: nth_cells_of nth_list_update add.assoc)

lemma cells_of_store:
  assumes "length xs = 4000"
  shows "cells_of (store m b xs) b = map (\<lambda>i. (xs ! (2 * i), xs ! (2 * i + 1))) [0..<2000]"
proof -
  have "store m b xs (b + of_nat j) = xs ! j" if "j < 4000" for j
    using that assms by (simp add: store_at)
  from this [of "2 * i" for i] this [of "2 * i + 1" for i] show ?thesis
    by (auto simp: cells_of_def algebra_simps)
qed

lemma nth_blanks: "i < n \<Longrightarrow> blanks n a ! (2 * i) = 0x20 \<and> blanks n a ! (2 * i + 1) = a"
proof (induction n arbitrary: i)
  case (Suc n)
  then show ?case by (cases i) (auto simp: blanks_def)
qed simp

lemma cells_of_blanks: "cells_of (store m b (blanks 2000 a)) b = replicate 2000 (0x20, a)"
  by (rule nth_equalityI) (use nth_blanks [of _ 2000 a] in \<open>auto simp: cells_of_store\<close>)

lemma cells_of_scroll:
  "cells_of (scroll_mem b a m) b = drop 80 (cells_of m b) @ replicate 80 (0x20, a)"
proof (rule nth_equalityI)
  fix i assume "i < length (cells_of (scroll_mem b a m) b)"
  then have i: "i < 2000" by simp
  show "cells_of (scroll_mem b a m) b ! i = (drop 80 (cells_of m b) @ replicate 80 (0x20, a)) ! i"
  proof (cases "i < 1920")
    case True
    then show ?thesis
      by (simp add: scroll_mem_def cells_of_store nth_append nth_cells_of add.assoc)
  next
    case False
    then have "i = 1920 + (i - 1920)" by simp
    then obtain j where "i = 1920 + j" by blast
    with i have "j < 80" by simp
    with \<open>i = 1920 + j\<close>
    show ?thesis using nth_blanks [of j 80 a]
      by (simp add: scroll_mem_def cells_of_store nth_append)
  qed
qed simp

section \<open>The displayed terminal\<close>

definition cursor_ok :: "'a console_state_scheme \<Rightarrow> bool" where
  "cursor_ok s \<longleftrightarrow> 0 \<le> screen_x s \<and> screen_x s < 80 \<and> 0 \<le> screen_y s \<and> screen_y s < 25"

definition shown :: "'a console_state_scheme \<Rightarrow> (byte \<times> byte) vga" where
  "shown s = \<lparr>cells = cells_of (mem s) VIDEO, col = nat (screen_x s), row = nat (screen_y s)\<rparr>"

abbreviation colour :: "'a console_state_scheme \<Rightarrow> byte" where
  "colour s \<equiv> attrib_of (cur_term_id s)"

abbreviation shown_put :: "'a console_state_scheme \<Rightarrow> byte \<Rightarrow> (byte \<times> byte) vga \<Rightarrow> (byte \<times> byte) vga" where
  "shown_put s \<equiv> vga_put (0x20, colour s) (\<lambda>c. (c, colour s))"

lemma cursor_ok_E:
  assumes "cursor_ok s"
  obtains x y where "screen_x s = int x" "x < 80" "screen_y s = int y" "y < 25"
  using assms that [of "nat (screen_x s)" "nat (screen_y s)"] by (auto simp: cursor_ok_def)

lemma update_cursor_ports_simps [simp]:
  "mem (update_cursor_ports s) = mem s" "screen_x (update_cursor_ports s) = screen_x s"
  "screen_y (update_cursor_ports s) = screen_y s" "terms (update_cursor_ports s) = terms s"
  "cur_term_id (update_cursor_ports s) = cur_term_id s"
  "now_term_id (update_cursor_ports s) = now_term_id s"
  "video_mem (update_cursor_ports s) = video_mem s"
  by (simp_all add: update_cursor_ports_def outb_def Let_def)

lemma scroll_mem_outside: "a \<notin> page b \<Longrightarrow> scroll_mem b attr m a = m a"
  unfolding scroll_mem_def by (rule store_outside) auto

text \<open>What a cursor move does to the state, on every branch but the wrapped column.\<close>

lemma set_screen_cursor_eq:
  assumes "x < 80" and "y < 4294967296"
  shows "set_screen_cursor (of_nat x) (of_nat y) s = update_cursor_ports
    (if y < 25 then s\<lparr>screen_x := int x, screen_y := int y\<rparr>
     else s\<lparr>screen_x := int x, video_mem := VIDEO,
            mem := scroll_mem VIDEO (colour s) (mem s), screen_y := 24\<rparr>)"
  using assms
  by (simp add: set_screen_cursor.simps [of "of_nat x"] scroll_up_eq Let_def word_less_nat_alt)

lemma set_screen_cursor_wrap:
  "\<not> new_x < 80 \<Longrightarrow> set_screen_cursor new_x new_y s = enter s"
  by (subst set_screen_cursor.simps) (simp add: enter_def)

lemma enter_eq:
  assumes "screen_y s = int y" and "y < 25"
  shows "enter s = update_cursor_ports
    (if y < 24 then s\<lparr>screen_x := 0, screen_y := int y + 1\<rparr>
     else s\<lparr>screen_x := 0, video_mem := VIDEO,
            mem := scroll_mem VIDEO (colour s) (mem s), screen_y := 24\<rparr>)"
proof -
  have "word_of_int (int y + 1) = (of_nat (Suc y) :: u32)" by simp
  then show ?thesis
    using assms set_screen_cursor_eq [of 0 "Suc y" s] unfolding enter_def
    by (auto simp: add.commute)
qed

lemma cursor_offset_eq: "cursor_offset (int x) (int y) = 2 * of_nat (80 * y + x)"
  by (simp add: cursor_offset_def push_bit_eq_mult)

text \<open>The shape of every cursor move: only the cursor, the ports and the video page change.\<close>

lemma set_screen_cursor_shape:
  "\<exists>x y v m. set_screen_cursor a b s
      = update_cursor_ports (s\<lparr>screen_x := x, video_mem := v, mem := m, screen_y := y\<rparr>)
    \<and> (\<forall>p. p \<notin> page VIDEO \<longrightarrow> m p = mem s p)"
proof -
  have narrow: "\<exists>x y v m. set_screen_cursor a b s
      = update_cursor_ports (s\<lparr>screen_x := x, video_mem := v, mem := m, screen_y := y\<rparr>)
      \<and> (\<forall>p. p \<notin> page VIDEO \<longrightarrow> m p = mem s p)" if "a < 80" for a b
  proof -
    have a: "unat a < 80" using that by (simp add: word_less_nat_alt)
    have eq: "set_screen_cursor a b s = update_cursor_ports
        (if unat b < 25 then s\<lparr>screen_x := int (unat a), screen_y := int (unat b)\<rparr>
         else s\<lparr>screen_x := int (unat a), video_mem := VIDEO,
                mem := scroll_mem VIDEO (colour s) (mem s), screen_y := 24\<rparr>)"
      using set_screen_cursor_eq [OF a, of "unat b" s] by simp
    show ?thesis
    proof (cases "unat b < 25")
      case True
      then show ?thesis
        by (intro exI [of _ "int (unat a)"] exI [of _ "int (unat b)"] exI [of _ "video_mem s"]
            exI [of _ "mem s"]) (simp add: eq)
    next
      case False
      then show ?thesis
        by (intro exI [of _ "int (unat a)"] exI [of _ 24] exI [of _ VIDEO]
            exI [of _ "scroll_mem VIDEO (colour s) (mem s)"]) (simp add: eq scroll_mem_outside)
    qed
  qed
  show ?thesis
  proof (cases "a < 80")
    case True
    then show ?thesis by (rule narrow)
  next
    case False
    then show ?thesis using narrow [of 0] by (simp add: set_screen_cursor_wrap enter_def)
  qed
qed

text \<open>A printable character: the cell is written, then the cursor moves on.\<close>

definition put_cell :: "nat \<Rightarrow> byte \<Rightarrow> 'a console_state_scheme \<Rightarrow> 'a console_state_scheme" where
  "put_cell k c s = s\<lparr>video_mem := VIDEO,
     mem := (mem s)(VIDEO + 2 * of_nat k := c, VIDEO + 2 * of_nat k + 1 := colour s)\<rparr>"

lemma put_cell_simps [simp]:
  "screen_x (put_cell k c s) = screen_x s" "screen_y (put_cell k c s) = screen_y s"
  "cur_term_id (put_cell k c s) = cur_term_id s" "terms (put_cell k c s) = terms s"
  "now_term_id (put_cell k c s) = now_term_id s"
  by (simp_all add: put_cell_def)

lemma cells_put_cell [simp]:
  "k < 2000 \<Longrightarrow> cells_of (mem (put_cell k c s)) VIDEO = (cells_of (mem s) VIDEO)[k := (c, colour s)]"
  by (simp add: put_cell_def cells_of_put)

lemma put_cell_outside: "k < 2000 \<Longrightarrow> a \<notin> page VIDEO \<Longrightarrow> mem (put_cell k c s) a = mem s a"
proof -
  assume k: "k < 2000" and a: "a \<notin> page VIDEO"
  have "VIDEO + of_nat (2 * k) \<in> page VIDEO" "VIDEO + of_nat (2 * k + 1) \<in> page VIDEO"
    by (rule imageI, use k in simp)+
  then have "a \<noteq> VIDEO + of_nat (2 * k)" "a \<noteq> VIDEO + of_nat (2 * k + 1)" using a by metis+
  then show ?thesis by (simp add: put_cell_def add.commute add.left_commute)
qed

lemma putc_eq:
  assumes "screen_x s = int x" "screen_y s = int y" "y < 25" "c \<noteq> 0x0A" "c \<noteq> 0x0D"
  defines "s' \<equiv> put_cell (80 * y + x) c s"
  shows "x < 79 \<Longrightarrow> putc c s = update_cursor_ports (s'\<lparr>screen_x := int (Suc x), screen_y := int y\<rparr>)"
    and "x = 79 \<Longrightarrow> putc c s = enter (s'\<lparr>screen_x := 80\<rparr>)"
proof -
  have 1: "putc c s = set_screen_cursor (of_nat (Suc x)) (of_nat y) (s'\<lparr>screen_x := int (Suc x)\<rparr>)"
    using assms(1,2,4,5)
    by (simp add: putc_def Let_def poke_def s'_def put_cell_def add.assoc add.commute
        cursor_offset_eq [of x y, simplified])
  show "putc c s = update_cursor_ports (s'\<lparr>screen_x := int (Suc x), screen_y := int y\<rparr>)" if "x < 79"
    unfolding 1 using set_screen_cursor_eq [of "Suc x" y "s'\<lparr>screen_x := int (Suc x)\<rparr>"] assms(3) that
    by simp
  show "putc c s = enter (s'\<lparr>screen_x := 80\<rparr>)" if "x = 79"
    unfolding 1 using that by (simp add: set_screen_cursor_wrap)
qed

text \<open>The refinement, and that the cursor stays on the screen.\<close>

lemma shown_update_cursor_ports [simp]: "shown (update_cursor_ports s) = shown s"
  by (simp add: shown_def)

lemma cursor_ok_update_cursor_ports [simp]: "cursor_ok (update_cursor_ports s) = cursor_ok s"
  by (simp add: cursor_ok_def)

lemma enter_refines:
  assumes "0 \<le> screen_y s" "screen_y s < 25"
  shows "shown (enter s) = vga_newline (0x20, colour s) (shown s)" "cursor_ok (enter s)"
proof -
  obtain y where y: "screen_y s = int y" "y < 25" using assms by (metis nonneg_int_cases of_nat_less_iff of_nat_numeral)
  show "shown (enter s) = vga_newline (0x20, colour s) (shown s)"
    using y by (simp add: enter_eq shown_def vga_newline_def cells_of_scroll nat_add_distrib)
  show "cursor_ok (enter s)"
    using y by (simp add: enter_eq cursor_ok_def)
qed

lemma putc_refines_ok:
  assumes "cursor_ok s"
  shows "shown (putc c s) = shown_put s c (shown s) \<and> cursor_ok (putc c s)"
proof (cases "c = 0x0A \<or> c = 0x0D")
  case True
  then show ?thesis
    using assms enter_refines [of s] by (auto simp: putc_def vga_put_def cursor_ok_def)
next
  case False
  from assms obtain x y where
    xy: "screen_x s = int x" "x < 80" "screen_y s = int y" "y < 25" by (rule cursor_ok_E)
  have i: "80 * y + x < 2000" using xy by linarith
  show ?thesis
  proof (cases "x < 79")
    case True
    then show ?thesis using xy False i
      by (simp add: putc_eq(1) shown_def vga_put_def cursor_ok_def nat_add_distrib Let_def)
  next
    case False
    then have "x = 79" using xy by simp
    let ?s = "put_cell (80 * y + x) c s\<lparr>screen_x := 80\<rparr>"
    have "shown (enter ?s) = vga_newline (0x20, colour s) (shown ?s)" and "cursor_ok (enter ?s)"
      using xy enter_refines [of ?s] by simp_all
    moreover have "shown ?s = (shown s)\<lparr>cells := (cells (shown s))[80 * y + x := (c, colour s)], col := 80\<rparr>"
      using xy i by (simp add: shown_def)
    ultimately show ?thesis
      using xy \<open>\<not> (c = 0x0A \<or> c = 0x0D)\<close> \<open>x = 79\<close>
      by (simp add: putc_eq(2) shown_def vga_put_def vga_newline_def Let_def)
  qed
qed

lemmas putc_refines = putc_refines_ok [THEN conjunct1]
lemmas putc_cursor_ok [inv_intros] = putc_refines_ok [THEN conjunct2]

text \<open>Nothing but the page at \<open>0xB8000\<close> is written, and no other terminal field changes.\<close>

lemma enter_outside:
  assumes "0 \<le> screen_y s" "screen_y s < 25"
  shows "a \<notin> page VIDEO \<Longrightarrow> mem (enter s) a = mem s a"
    and "terms (enter s) = terms s" "cur_term_id (enter s) = cur_term_id s"
        "now_term_id (enter s) = now_term_id s"
proof -
  obtain y where y: "screen_y s = int y" "y < 25"
    using assms by (metis nonneg_int_cases of_nat_less_iff of_nat_numeral)
  show "mem (enter s) a = mem s a" if "a \<notin> page VIDEO"
    using that y by (simp add: enter_eq scroll_mem_outside)
  show "terms (enter s) = terms s" "cur_term_id (enter s) = cur_term_id s"
    "now_term_id (enter s) = now_term_id s"
    using y by (simp_all add: enter_eq)
qed

lemma putc_outside:
  assumes "cursor_ok s"
  shows "a \<notin> page VIDEO \<Longrightarrow> mem (putc c s) a = mem s a"
    and "terms (putc c s) = terms s" "cur_term_id (putc c s) = cur_term_id s"
        "now_term_id (putc c s) = now_term_id s"
proof -
  from assms obtain x y where
    xy: "screen_x s = int x" "x < 80" "screen_y s = int y" "y < 25" by (rule cursor_ok_E)
  have i: "80 * y + x < 2000" using xy by linarith
  consider "c = 0x0A \<or> c = 0x0D" | "c \<noteq> 0x0A" "c \<noteq> 0x0D" "x < 79" | "c \<noteq> 0x0A" "c \<noteq> 0x0D" "x = 79"
    using xy by linarith
  then have "(a \<notin> page VIDEO \<longrightarrow> mem (putc c s) a = mem s a) \<and> terms (putc c s) = terms s
    \<and> cur_term_id (putc c s) = cur_term_id s \<and> now_term_id (putc c s) = now_term_id s" for a
  proof cases
    case 1
    then show ?thesis using xy enter_outside [of s] by (auto simp: putc_def)
  next
    case 2
    then show ?thesis using xy i by (auto simp: putc_eq(1) put_cell_outside)
  next
    case 3
    then show ?thesis using xy i enter_outside [of "put_cell (80 * y + x) c s\<lparr>screen_x := 80\<rparr>"]
      by (auto simp: putc_eq(2) put_cell_outside)
  qed
  then show "a \<notin> page VIDEO \<Longrightarrow> mem (putc c s) a = mem s a" "terms (putc c s) = terms s"
    "cur_term_id (putc c s) = cur_term_id s" "now_term_id (putc c s) = now_term_id s"
    by blast+
qed

lemma erase_at_cursor_eq:
  assumes "screen_x t = int a" "screen_y t = int b" "a < 80" "b < 25"
  shows "erase_at_cursor t = put_cell (80 * b + a) 0x20 t"
proof -
  have "word_of_int (int b * 80 + int a) = (of_nat (80 * b + a) :: u16)"
    by (simp add: mult.commute)
  moreover have "unat (of_nat (80 * b + a) :: u16) = 80 * b + a"
    by (subst unat_of_nat, rule mod_less) (use assms in simp)
  ultimately have u: "unat (word_of_int (int b * 80 + int a) :: u16) = 80 * b + a"
    by (simp only:)
  have "erase_at_cursor t = blank_cell VIDEO (colour t) (80 * b + a) (t\<lparr>video_mem := VIDEO\<rparr>)"
    unfolding erase_at_cursor_def Let_def screen_size assms(1,2) of_nat_numeral u by simp
  then show ?thesis
    by (simp add: blank_cell_def put_cell_def poke_def Let_def)
qed

lemma backspace_eq:
  assumes "screen_x s = int x" "screen_y s = int y" "x < 80" "y < 25"
  shows "0 < x \<Longrightarrow> backspace s = put_cell (80 * y + (x - 1)) 0x20
           (update_cursor_ports (s\<lparr>screen_x := int (x - 1), screen_y := int y\<rparr>))"
    and "x = 0 \<Longrightarrow> 0 < y \<Longrightarrow> backspace s = put_cell (80 * (y - 1) + 79) 0x20
           (update_cursor_ports (s\<lparr>screen_x := 79, screen_y := int (y - 1)\<rparr>))"
    and "x = 0 \<Longrightarrow> y = 0 \<Longrightarrow> backspace s = s"
proof -
  assume "0 < x"
  then have "word_of_int (int x - 1) = (of_nat (x - 1) :: u32)" by (simp add: of_nat_diff)
  then show "backspace s = put_cell (80 * y + (x - 1)) 0x20
      (update_cursor_ports (s\<lparr>screen_x := int (x - 1), screen_y := int y\<rparr>))"
    using assms \<open>0 < x\<close> set_screen_cursor_eq [of "x - 1" y s]
    by (simp add: backspace_def erase_at_cursor_eq [of _ "x - 1" y] of_nat_diff)
next
  assume "x = 0" "0 < y"
  then have "word_of_int (int y - 1) = (of_nat (y - 1) :: u32)" by (simp add: of_nat_diff)
  then show "backspace s = put_cell (80 * (y - 1) + 79) 0x20
      (update_cursor_ports (s\<lparr>screen_x := 79, screen_y := int (y - 1)\<rparr>))"
    using assms \<open>x = 0\<close> \<open>0 < y\<close> set_screen_cursor_eq [of 79 "y - 1" s]
    by (simp add: backspace_def erase_at_cursor_eq [of _ 79 "y - 1"] of_nat_diff)
next
  assume "x = 0" "y = 0"
  then show "backspace s = s" using assms by (simp add: backspace_def)
qed

lemma backspace_refines_ok:
  assumes "cursor_ok s"
  shows "shown (backspace s) = vga_backspace (0x20, colour s) (shown s) \<and> cursor_ok (backspace s)"
proof -
  from assms obtain x y where
    xy: "screen_x s = int x" "x < 80" "screen_y s = int y" "y < 25" by (rule cursor_ok_E)
  consider "0 < x" | "x = 0" "0 < y" | "x = 0" "y = 0" by blast
  then show ?thesis
  proof cases
    case 1
    moreover have "80 * y + x - Suc 0 < 2000" using xy by linarith
    ultimately show ?thesis using xy
      by (simp add: backspace_eq(1) [OF xy(1,3,2,4)] shown_def vga_backspace_def cursor_ok_def)
  next
    case 2
    moreover have "80 * (y - Suc 0) + 79 < 2000" using xy by linarith
    ultimately show ?thesis using xy
      by (simp add: backspace_eq(2) [OF xy(1,3,2,4)] shown_def vga_backspace_def cursor_ok_def)
  next
    case 3
    with xy show ?thesis
      by (simp add: backspace_eq(3) [OF xy(1,3,2,4)] shown_def vga_backspace_def cursor_ok_def)
  qed
qed

lemmas backspace_refines = backspace_refines_ok [THEN conjunct1]
lemmas backspace_cursor_ok [inv_intros] = backspace_refines_ok [THEN conjunct2]

lemma clear_refines: "cells (shown (clear s)) = replicate 2000 (0x20, colour s)"
  by (simp add: shown_def clear_eq cells_of_blanks)

section \<open>A background terminal\<close>

abbreviation bg_base :: "'a console_state_scheme \<Rightarrow> addr" where
  "bg_base s \<equiv> term_video_mem (now_term s)"

text \<open>Where the code puts the attribute: beside the cursor of the displayed screen.\<close>

abbreviation bg_attr_addr :: "'a console_state_scheme \<Rightarrow> addr" where
  "bg_attr_addr s \<equiv> video_mem s + cursor_offset (screen_x s) (screen_y s) + 1"

definition bg_ok :: "'a console_state_scheme \<Rightarrow> bool" where
  "bg_ok s \<longleftrightarrow> unat (cursor_x (now_term s)) < 80 \<and> unat (cursor_y (now_term s)) < 25
     \<and> bg_attr_addr s \<notin> page (bg_base s)"

definition bg :: "'a console_state_scheme \<Rightarrow> byte vga" where
  "bg s = \<lparr>cells = map fst (cells_of (mem s) (bg_base s)),
           col = unat (cursor_x (now_term s)), row = unat (cursor_y (now_term s))\<rparr>"

lemma bg_ok_E:
  assumes "bg_ok s"
  obtains x y where "cursor_x (now_term s) = of_nat x" "x < 80"
    "cursor_y (now_term s) = of_nat y" "y < 25" "bg_attr_addr s \<notin> page (bg_base s)"
  using assms that [of "unat (cursor_x (now_term s))" "unat (cursor_y (now_term s))"]
  by (simp add: bg_ok_def)

lemma multi_set_screen_cursor_eq:
  assumes "x < 80" and "y < 4294967296"
  shows "multi_set_screen_cursor (of_nat x) (of_nat y) s =
    (if y < 25 then update_term (now_term_id s) (\<lambda>t. t\<lparr>cursor_x := of_nat x, cursor_y := of_nat y\<rparr>) s
     else update_term (now_term_id s) (\<lambda>t. t\<lparr>cursor_x := of_nat x, cursor_y := 24\<rparr>)
            (s\<lparr>mem := scroll_mem (bg_base s) (attrib_of (now_term_id s)) (mem s)\<rparr>))"
  using assms
  by (simp add: multi_set_screen_cursor.simps [of "of_nat x"] multi_scroll_up_eq Let_def
      word_less_nat_alt update_term_def)

lemma multi_set_screen_cursor_wrap:
  "\<not> new_x < 80 \<Longrightarrow> multi_set_screen_cursor new_x new_y s = multi_enter s"
  by (subst multi_set_screen_cursor.simps) (simp add: multi_enter_def)

lemma multi_enter_eq:
  assumes "cursor_y (now_term s) = of_nat y" and "y < 25"
  shows "multi_enter s =
    (if y < 24 then update_term (now_term_id s) (\<lambda>t. t\<lparr>cursor_x := 0, cursor_y := of_nat (Suc y)\<rparr>) s
     else update_term (now_term_id s) (\<lambda>t. t\<lparr>cursor_x := 0, cursor_y := 24\<rparr>)
            (s\<lparr>mem := scroll_mem (bg_base s) (attrib_of (now_term_id s)) (mem s)\<rparr>))"
  using assms multi_set_screen_cursor_eq [of 0 "Suc y" s]
  unfolding multi_enter_def by (auto simp: add.commute)

lemma multi_enter_refines:
  assumes "bg_ok s"
  shows "bg (multi_enter s) = vga_newline 0x20 (bg s)" "bg_ok (multi_enter s)"
    "bg_base (multi_enter s) = bg_base s" "bg_attr_addr (multi_enter s) = bg_attr_addr s"
    "a \<notin> page (bg_base s) \<Longrightarrow> mem (multi_enter s) a = mem s a"
proof -
  from assms obtain x y where
    xy: "cursor_x (now_term s) = of_nat x" "x < 80" "cursor_y (now_term s) = of_nat y" "y < 25"
      "bg_attr_addr s \<notin> page (bg_base s)" by (rule bg_ok_E)
  have u: "unat (1 + word_of_nat y :: u32) = Suc y"
    using unat_of_nat_u32 [of "Suc y"] xy(4) by simp
  show "bg (multi_enter s) = vga_newline 0x20 (bg s)"
    using xy u by (auto simp: multi_enter_eq bg_def vga_newline_def update_term_def cells_of_scroll
        drop_map map_replicate_const)
  show "bg_ok (multi_enter s)"
    using xy u by (auto simp: multi_enter_eq bg_ok_def update_term_def)
  show "bg_base (multi_enter s) = bg_base s" "bg_attr_addr (multi_enter s) = bg_attr_addr s"
    using xy by (auto simp: multi_enter_eq update_term_def)
  show "mem (multi_enter s) a = mem s a" if "a \<notin> page (bg_base s)"
    using xy that by (auto simp: multi_enter_eq update_term_def scroll_mem_outside)
qed

text \<open>A printable character: the state between the two writes and the cursor move.\<close>

definition bg_written :: "nat \<Rightarrow> byte \<Rightarrow> 'a console_state_scheme \<Rightarrow> 'a console_state_scheme" where
  "bg_written k c s = update_term (now_term_id s) (\<lambda>t. t\<lparr>cursor_x := cursor_x t + 1\<rparr>)
     (s\<lparr>mem := (mem s)(bg_base s + 2 * of_nat k := c, bg_attr_addr s := colour s)\<rparr>)"

lemma multi_putc_eq:
  assumes "cursor_x (now_term s) = of_nat x" "cursor_y (now_term s) = of_nat y"
    "c \<noteq> 0x0A" "c \<noteq> 0x0D"
  shows "multi_putc c s
    = multi_set_screen_cursor (of_nat (Suc x)) (of_nat y) (bg_written (80 * y + x) c s)"
  using assms
  by (simp add: multi_putc_def Let_def bg_written_def poke_def update_term_def push_bit_eq_mult
      add.commute mult.commute)

lemma bg_written_simps:
  assumes "bg_ok s" and "k < 2000"
  shows "bg_base (bg_written k c s) = bg_base s" "now_term_id (bg_written k c s) = now_term_id s"
    "bg_attr_addr (bg_written k c s) = bg_attr_addr s" "cur_term_id (bg_written k c s) = cur_term_id s"
    "cursor_y (now_term (bg_written k c s)) = cursor_y (now_term s)"
    "cells_of (mem (bg_written k c s)) (bg_base s)
       = (cells_of (mem s) (bg_base s))[k := (c, snd (cells_of (mem s) (bg_base s) ! k))]"
    "mem (bg_written k c s) (bg_attr_addr s) = colour s"
    "a \<notin> page (bg_base s) \<Longrightarrow> a \<noteq> bg_attr_addr s \<Longrightarrow> mem (bg_written k c s) a = mem s a"
proof -
  have o: "bg_attr_addr s \<noteq> a" if "a \<in> page (bg_base s)" for a
    using assms that unfolding bg_ok_def by blast
  have k: "bg_base s + 2 * of_nat k \<in> page (bg_base s)" "bg_base s + 2 * of_nat k + 1 \<in> page (bg_base s)"
    using assms(2) imageI [of "2 * k" "{..<4000}" "\<lambda>i. bg_base s + of_nat i"]
      imageI [of "2 * k + 1" "{..<4000}" "\<lambda>i. bg_base s + of_nat i"]
    by (simp_all add: algebra_simps)
  let ?m = "(mem s)(bg_base s + 2 * of_nat k := c)"
  have m: "?m = (mem s)(bg_base s + 2 * of_nat k := c,
      bg_base s + 2 * of_nat k + 1 := mem s (bg_base s + 2 * of_nat k + 1))"
    by (rule ext) simp
  have "cells_of (?m(bg_attr_addr s := colour s)) (bg_base s) = cells_of ?m (bg_base s)"
  proof (rule cells_of_cong)
    fix a assume "a \<in> page (bg_base s)"
    from o [OF this] show "(?m(bg_attr_addr s := colour s)) a = ?m a"
      by (simp only: fun_upd_other)
  qed
  also have "\<dots> = (cells_of (mem s) (bg_base s))[k := (c, mem s (bg_base s + 2 * of_nat k + 1))]"
    by (subst m) (rule cells_of_put [OF assms(2)])
  finally show "cells_of (mem (bg_written k c s)) (bg_base s)
       = (cells_of (mem s) (bg_base s))[k := (c, snd (cells_of (mem s) (bg_base s) ! k))]"
    using assms(2) by (simp add: bg_written_def update_term_def nth_cells_of)
  show "mem (bg_written k c s) a = mem s a" if "a \<notin> page (bg_base s)" "a \<noteq> bg_attr_addr s"
    using that k by (auto simp: bg_written_def update_term_def)
qed (auto simp: bg_written_def update_term_def)

lemma multi_putc_refines_ok:
  assumes "bg_ok s"
  shows "bg (multi_putc c s) = vga_put 0x20 (\<lambda>c. c) c (bg s)" (is ?r)
    and "bg_ok (multi_putc c s)" (is ?o)
    and "bg_base (multi_putc c s) = bg_base s" (is ?b)
    and "bg_attr_addr (multi_putc c s) = bg_attr_addr s" (is ?t)
    and "a \<notin> page (bg_base s) \<Longrightarrow> a \<noteq> bg_attr_addr s \<Longrightarrow> mem (multi_putc c s) a = mem s a"
proof -
  from assms obtain x y where
    xy: "cursor_x (now_term s) = of_nat x" "x < 80" "cursor_y (now_term s) = of_nat y" "y < 25"
      "bg_attr_addr s \<notin> page (bg_base s)" by (rule bg_ok_E)
  have i: "80 * y + x < 2000" using xy by linarith
  let ?w = "bg_written (80 * y + x) c s"
  note w = bg_written_simps [OF assms i]
  have "?r \<and> ?o \<and> ?b \<and> ?t \<and> (a \<notin> page (bg_base s) \<longrightarrow> a \<noteq> bg_attr_addr s \<longrightarrow>
      mem (multi_putc c s) a = mem s a)" for a
  proof (cases "c = 0x0A \<or> c = 0x0D")
    case True
    then show ?thesis using multi_enter_refines [OF assms] by (auto simp: multi_putc_def vga_put_def)
  next
    case c: False
    have bgw: "cells (bg ?w) = (cells (bg s))[80 * y + x := c]"
      using w i by (simp add: bg_def map_update)
    show ?thesis
    proof (cases "x < 79")
      case True
      have e: "multi_putc c s
          = update_term (now_term_id s) (\<lambda>t. t\<lparr>cursor_x := of_nat (Suc x), cursor_y := of_nat y\<rparr>) ?w"
        using multi_putc_eq [OF xy(1,3)] c True xy multi_set_screen_cursor_eq [of "Suc x" y ?w] w
        by simp
      have u: "unat (1 + word_of_nat x :: u32) = Suc x"
        using unat_of_nat_u32 [of "Suc x"] xy(2) by simp
      show ?thesis
        using bgw w c True xy u i
        by (auto simp: e vga_put_def bg_def bg_ok_def update_term_def Let_def map_update)
    next
      case False
      then have x: "x = 79" using xy by simp
      then have "\<not> (of_nat (Suc x) :: u32) < 80" by simp
      then have e: "multi_putc c s = multi_enter ?w"
        using multi_putc_eq [OF xy(1,3)] c by (simp add: multi_set_screen_cursor_wrap)
      have ew: "multi_enter ?w
        = (if y < 24 then update_term (now_term_id s) (\<lambda>t. t\<lparr>cursor_x := 0, cursor_y := of_nat (Suc y)\<rparr>) ?w
           else update_term (now_term_id s) (\<lambda>t. t\<lparr>cursor_x := 0, cursor_y := 24\<rparr>)
             (?w\<lparr>mem := scroll_mem (bg_base s) (attrib_of (now_term_id s)) (mem ?w)\<rparr>))"
        using multi_enter_eq [of ?w y] xy w by simp
      have u: "unat (1 + word_of_nat y :: u32) = Suc y"
        using unat_of_nat_u32 [of "Suc y"] xy(4) by simp
      show ?thesis
        unfolding e ew using bgw w c x xy u i
        by (auto simp: vga_put_def vga_newline_def bg_def bg_ok_def update_term_def Let_def
            map_update cells_of_scroll drop_map [symmetric] scroll_mem_outside map_replicate_const)
    qed
  qed
  then show ?r ?o ?b ?t
    "a \<notin> page (bg_base s) \<Longrightarrow> a \<noteq> bg_attr_addr s \<Longrightarrow> mem (multi_putc c s) a = mem s a" for a
    by blast+
qed

section \<open>Properties\<close>

text \<open>C15: \<open>putc\<close> implements the abstract screen: with the cursor on the screen, the character
  is put in the displayed terminal's colour at the cursor, line feeds and full rows go to the
  next row, the last row scrolls, the cursor stays on the screen and no byte outside the video
  page is written.\<close>

theorem putc_refines_vga:
  assumes "cursor_ok s"
  shows "shown (putc c s)
      = vga_put (0x20, attrib_of (cur_term_id s)) (\<lambda>c. (c, attrib_of (cur_term_id s))) c (shown s)
    \<and> cursor_ok (putc c s) \<and> vga_ok (shown (putc c s))
    \<and> (\<forall>a. a \<notin> page VIDEO \<longrightarrow> mem (putc c s) a = mem s a)"
proof -
  have "vga_ok (shown s)" using assms by (auto simp: vga_ok_def shown_def cursor_ok_def)
  then show ?thesis
    using putc_refines_ok [OF assms, of c] putc_outside(1) [OF assms] by (simp add: vga_put_ok)
qed

theorem putc_refines_vga_witness:
  "shown (putc 0x41 (console_boot (\<lambda>_. 0)))
     = vga_put (0x20, 0xD) (\<lambda>c. (c, 0xD)) 0x41 (shown (console_boot (\<lambda>_. 0)))"

  using putc_refines_vga [of "console_boot (\<lambda>_. 0)" "0x41"] by (simp add: cursor_ok_def attrib_of_def)

text \<open>\<open>backspace\<close> steps back one cell, over the start of a row too, blanks it, and does
  nothing at the origin.\<close>

lemma backspace_refines_vga:
  assumes "cursor_ok s"
  shows "shown (backspace s) = vga_backspace (0x20, attrib_of (cur_term_id s)) (shown s)
    \<and> cursor_ok (backspace s)"
  by (rule backspace_refines_ok [OF assms])

theorem backspace_refines_vga_witness:
  "shown (backspace (console_boot (\<lambda>_. 0))) = shown (console_boot (\<lambda>_. 0))"
  using backspace_refines_vga [of "console_boot (\<lambda>_. 0)"]
  by (simp add: cursor_ok_def vga_backspace_def shown_def)

text \<open>A character written to a background terminal appears on its page, but not its
  attribute: that cell keeps the attribute it had, and the byte that changes colour is the one
  beside the cursor of the displayed screen.\<close>

lemma multi_putc_colours_the_wrong_cell:
  assumes "bg_ok s" and "c \<noteq> 0x0A" and "c \<noteq> 0x0D" and "cursor_x (now_term s) < 79"
  defines "k \<equiv> 80 * unat (cursor_y (now_term s)) + unat (cursor_x (now_term s))"
  shows "cells_of (mem (multi_putc c s)) (bg_base s)
      = (cells_of (mem s) (bg_base s))[k := (c, snd (cells_of (mem s) (bg_base s) ! k))]
    \<and> mem (multi_putc c s) (bg_attr_addr s) = attrib_of (cur_term_id s)"
proof -
  from assms(1) obtain x y where
    xy: "cursor_x (now_term s) = of_nat x" "x < 80" "cursor_y (now_term s) = of_nat y" "y < 25"
    by (rule bg_ok_E)
  then have x: "x < 79" and k: "k = 80 * y + x" and i: "80 * y + x < 2000"
    using assms(4) by (auto simp: k_def word_less_nat_alt)
  note w = bg_written_simps [OF assms(1) i]
  have "multi_putc c s = update_term (now_term_id s)
      (\<lambda>t. t\<lparr>cursor_x := of_nat (Suc x), cursor_y := of_nat y\<rparr>) (bg_written (80 * y + x) c s)"
    using multi_putc_eq [OF xy(1,3) assms(2,3)] x xy w
      multi_set_screen_cursor_eq [of "Suc x" y "bg_written (80 * y + x) c s"] by simp
  then show ?thesis using w unfolding k by (simp add: update_term_def)
qed

theorem multi_putc_colours_the_wrong_cell_witness:
  "mem (multi_putc 0x41 (console_boot (\<lambda>_. 0))) (VIDEO + 1) = 0xD"
proof -
  have "VIDEO + 1 \<notin> page 0xBA000"
  proof
    assume "VIDEO + 1 \<in> page 0xBA000"
    then obtain i where i: "i < 4000" and eq: "VIDEO + 1 = 0xBA000 + of_nat i" by blast
    from arg_cong [OF eq, of unat] i show False by (simp add: VIDEO_def unat_word_ariths)
  qed
  then have "bg_ok (console_boot (\<lambda>_. 0))"
    by (simp add: bg_ok_def no_term_def cursor_offset_def)
  from multi_putc_colours_the_wrong_cell [OF this, of "0x41"] show ?thesis
    by (simp add: no_term_def cursor_offset_def attrib_of_def)
qed

end
