(* ===== verification/Printf.thy ===== *)
theory Printf
  imports Screen
begin

text \<open>
  \<open>puts\<close> and \<open>printf\<close> of \<open>lib.c\<close> and their \<open>multi_\<close> versions, which are the same code over
  \<open>multi_putc\<close>. The code is modelled over the routine \<open>put\<close> that writes one character; what
  it needs of \<open>put\<close> is the locale \<open>char_sink\<close>, which both terminals implement. The
  arguments after the format are read from the stack through \<open>esp\<close> (here \<open>args\<close>); \<open>conv\<close> is the address
  of the local \<open>conv_buf\<close>. \<open>fmt_spec\<close> says what a format prints.
\<close>

section \<open>The code\<close>

partial_function (option) puts_loop ::
  "(byte \<Rightarrow> 'a machine_scheme \<Rightarrow> 'a machine_scheme) \<Rightarrow> addr \<Rightarrow> u32 \<Rightarrow> 'a machine_scheme
    \<Rightarrow> ('a machine_scheme \<times> u32) option" where
  "puts_loop put a index s =
     (if mem s (a + index) \<noteq> 0
      then puts_loop put a (index + 1) (put (mem s (a + index)) s)
      else Some (s, index))"

text \<open>The zero padding of \<open>%#x\<close>: \<open>while (i < 8) conv_buf[i++] = '0'\<close>.\<close>

function pad_zeros :: "mem \<Rightarrow> addr \<Rightarrow> int \<Rightarrow> mem" where
  "pad_zeros m conv i = (if i < 8 then pad_zeros (m(conv + word_of_int i := 0x30)) conv (i + 1) else m)"
  by pat_completeness auto
termination by (relation "measure (\<lambda>(m, conv, i). nat (8 - i))") auto

declare pad_zeros.simps [simp del]

text \<open>The cases \<open>'x'\<close>, \<open>'u'\<close> and \<open>'d'\<close>: convert into \<open>conv_buf\<close> and print it.\<close>

definition conv_hex ::
  "(byte \<Rightarrow> 'a machine_scheme \<Rightarrow> 'a machine_scheme) \<Rightarrow> addr \<Rightarrow> bool \<Rightarrow> u32 \<Rightarrow> 'a machine_scheme
    \<Rightarrow> 'a machine_scheme option" where
  "conv_hex put conv alternate v s =
     (if \<not> alternate then do {
        m \<leftarrow> itoa (mem s) v conv 16;
        (s, n) \<leftarrow> puts_loop put conv 0 (s\<lparr>mem := m\<rparr>);
        Some s
      }
      else do {
        m \<leftarrow> itoa (mem s) v (conv + 8) 16;
        starting_index \<leftarrow> strlen m (conv + 8);
        (s, n) \<leftarrow> puts_loop put (conv + starting_index) 0
                    (s\<lparr>mem := pad_zeros m conv (sint starting_index)\<rparr>);
        Some s
      })"

definition conv_unsigned ::
  "(byte \<Rightarrow> 'a machine_scheme \<Rightarrow> 'a machine_scheme) \<Rightarrow> addr \<Rightarrow> u32 \<Rightarrow> 'a machine_scheme
    \<Rightarrow> 'a machine_scheme option" where
  "conv_unsigned put conv v s = do {
     m \<leftarrow> itoa (mem s) v conv 10;
     (s, n) \<leftarrow> puts_loop put conv 0 (s\<lparr>mem := m\<rparr>);
     Some s
   }"

definition conv_signed ::
  "(byte \<Rightarrow> 'a machine_scheme \<Rightarrow> 'a machine_scheme) \<Rightarrow> addr \<Rightarrow> u32 \<Rightarrow> 'a machine_scheme
    \<Rightarrow> 'a machine_scheme option" where
  "conv_signed put conv v s = do {
     m \<leftarrow> (if sint v < 0 then itoa ((mem s)(conv := 0x2D)) (- v) (conv + 1) 10
           else itoa (mem s) v conv 10);
     (s, n) \<leftarrow> puts_loop put conv 0 (s\<lparr>mem := m\<rparr>);
     Some s
   }"

text \<open>
  The switch after a \<open>%\<close>. It returns the position of the conversion character, the advanced
  \<open>args\<close> and the state. The \<open>goto\<close> of the \<open>#\<close> case is the recursion.
\<close>

partial_function (option) format_char_switch ::
  "(byte \<Rightarrow> 'a machine_scheme \<Rightarrow> 'a machine_scheme) \<Rightarrow> addr \<Rightarrow> bool \<Rightarrow> addr \<Rightarrow> addr
    \<Rightarrow> 'a machine_scheme \<Rightarrow> (addr \<times> addr \<times> 'a machine_scheme) option" where
  "format_char_switch put conv alternate buf args s =
     (let c = mem s buf; arg = load32 (mem s) args
      in if c = 0x25 then Some (buf, args, put 0x25 s) \<comment> \<open>percent\<close>
         else if c = 0x23 then format_char_switch put conv True (buf + 1) args s \<comment> \<open>number sign\<close>
         else if c = 0x78 then do { s \<leftarrow> conv_hex put conv alternate arg s; Some (buf, args + 4, s) } \<comment> \<open>x\<close>
         else if c = 0x75 then do { s \<leftarrow> conv_unsigned put conv arg s; Some (buf, args + 4, s) } \<comment> \<open>u\<close>
         else if c = 0x64 then do { s \<leftarrow> conv_signed put conv arg s; Some (buf, args + 4, s) } \<comment> \<open>d\<close>
         else if c = 0x63 then Some (buf, args + 4, put (ucast arg) s) \<comment> \<open>c\<close>
         else if c = 0x73 then do { (s, n) \<leftarrow> puts_loop put arg 0 s; Some (buf, args + 4, s) } \<comment> \<open>s\<close>
         else Some (buf, args, s))"

partial_function (option) format_loop ::
  "(byte \<Rightarrow> 'a machine_scheme \<Rightarrow> 'a machine_scheme) \<Rightarrow> addr \<Rightarrow> addr \<Rightarrow> addr
    \<Rightarrow> 'a machine_scheme \<Rightarrow> (addr \<times> 'a machine_scheme) option" where
  "format_loop put conv buf args s =
     (if mem s buf = 0 then Some (buf, s)
      else if mem s buf = 0x25 then do {
        (buf, args, s) \<leftarrow> format_char_switch put conv False (buf + 1) args s;
        format_loop put conv (buf + 1) args s
      }
      else format_loop put conv (buf + 1) args (put (mem s buf) s))"

text \<open>The four routines. \<open>args\<close> is the address after \<open>&format\<close>.\<close>

definition puts :: "addr \<Rightarrow> 'a console_state_scheme \<Rightarrow> ('a console_state_scheme \<times> u32) option" where
  "puts a s = puts_loop putc a 0 s"

definition multi_puts ::
  "addr \<Rightarrow> 'a console_state_scheme \<Rightarrow> ('a console_state_scheme \<times> u32) option" where
  "multi_puts a s = puts_loop multi_putc a 0 s"

definition printf :: "addr \<Rightarrow> addr \<Rightarrow> addr \<Rightarrow> 'a console_state_scheme
    \<Rightarrow> ('a console_state_scheme \<times> u32) option" where
  "printf conv format args s = do {
     (buf, s) \<leftarrow> format_loop putc conv format args s;
     Some (s, buf - format)
   }"

definition multi_printf :: "addr \<Rightarrow> addr \<Rightarrow> addr \<Rightarrow> 'a console_state_scheme
    \<Rightarrow> ('a console_state_scheme \<times> u32) option" where
  "multi_printf conv format args s = do {
     (buf, s) \<leftarrow> format_loop multi_putc conv format args s;
     Some (s, buf - format)
   }"

section \<open>What a format prints\<close>

text \<open>
  \<open>fmt_spec str st fs args\<close> are the bytes the format \<open>fs\<close> prints, \<open>st\<close> the state of the
  scan (\<open>Some alternate\<close> after a percent sign), \<open>str\<close> the strings the arguments may point to.
  It is \<open>None\<close> for a format that ends inside a conversion and for one with too few arguments.
\<close>

definition hex_spec :: "bool \<Rightarrow> u32 \<Rightarrow> byte list" where
  "hex_spec alternate v =
     (let ds = itoa_bytes v 16
      in if alternate then replicate (8 - length ds) 0x30 @ ds else ds)"

definition signed_spec :: "u32 \<Rightarrow> byte list" where
  "signed_spec v = (if sint v < 0 then 0x2D # itoa_bytes (- v) 10 else itoa_bytes v 10)"

definition conv_spec :: "(u32 \<Rightarrow> byte list option) \<Rightarrow> bool \<Rightarrow> byte \<Rightarrow> u32 \<Rightarrow> byte list option" where
  "conv_spec str alternate c v =
     (if c = 0x78 then Some (hex_spec alternate v)
      else if c = 0x75 then Some (itoa_bytes v 10)
      else if c = 0x64 then Some (signed_spec v)
      else if c = 0x63 then Some [ucast v]
      else str v)"

fun fmt_spec :: "(u32 \<Rightarrow> byte list option) \<Rightarrow> bool option \<Rightarrow> byte list \<Rightarrow> u32 list \<Rightarrow> byte list option" where
  "fmt_spec str None [] args = Some []"
| "fmt_spec str (Some alt) [] args = None"
| "fmt_spec str None (c # fs) args =
     (if c = 0x25 then fmt_spec str (Some False) fs args
      else map_option ((#) c) (fmt_spec str None fs args))"
| "fmt_spec str (Some alt) (c # fs) args =
     (if c = 0x25 then map_option ((#) c) (fmt_spec str None fs args)
      else if c = 0x23 then fmt_spec str (Some True) fs args
      else if c \<in> {0x78, 0x75, 0x64, 0x63, 0x73} then
        (case args of [] \<Rightarrow> None
         | v # args \<Rightarrow> do {
             out \<leftarrow> conv_spec str alt c v;
             rest \<leftarrow> fmt_spec str None fs args;
             Some (out @ rest)
           })
      else fmt_spec str None fs args)"

text \<open>The buffer a conversion prints from.\<close>

lemma pad_zeros_store:
  "i \<le> 8 \<Longrightarrow> pad_zeros m conv (int i) = store m (conv + of_nat i) (replicate (8 - i) 0x30)"
proof (induction "8 - i" arbitrary: i m)
  case 0
  then show ?case by (simp add: pad_zeros.simps)
next
  case (Suc k)
  from Suc.hyps(2) have "i < 8" by simp
  have "pad_zeros m conv (int i) = pad_zeros (m(conv + of_nat i := 0x30)) conv (int (Suc i))"
    using \<open>i < 8\<close> by (subst pad_zeros.simps) (simp add: add.commute)
  also have "\<dots> = store (m(conv + of_nat i := 0x30)) (conv + of_nat i + 1) (replicate (8 - Suc i) 0x30)"
    using Suc.hyps(1) [of "Suc i"] Suc.hyps(2) Suc.prems by (simp add: add.assoc add.commute add.left_commute)
  also have "\<dots> = store m (conv + of_nat i) (0x30 # replicate (8 - Suc i) 0x30)"
    by (rule store_Cons) simp
  finally show ?case using Suc.hyps(2) Suc_diff_Suc [of i 8] by (simp flip: replicate_Suc)
qed

lemma cstr_pad_zeros:
  assumes "cstr m (conv + 8) ds" and "length ds \<le> 8"
  shows "cstr (pad_zeros m conv (int (length ds))) (conv + of_nat (length ds))
    (replicate (8 - length ds) 0x30 @ ds)"
proof -
  let ?k = "8 - length ds" and ?a = "conv + of_nat (length ds)"
  have a8: "?a + of_nat ?k = conv + 8" using assms(2) by (simp add: of_nat_diff)
  have disj: "disjoint (?a + of_nat ?k) (Suc (length ds)) ?a ?k"
    unfolding a8 disjoint_def
  proof (intro allI impI)
    fix i j assume "i < Suc (length ds)" "j < ?k"
    then have "of_nat (8 + i) \<noteq> (of_nat (length ds + j) :: u32)"
      using assms(2) by (subst of_nat_u32_inj) simp_all
    then show "conv + 8 + of_nat i \<noteq> ?a + of_nat j" by (simp add: add.assoc)
  qed
  have "load (pad_zeros m conv (int (length ds))) ?a (?k + Suc (length ds))
      = replicate ?k 0x30 @ load m (conv + 8) (Suc (length ds))"
    using assms(2) disj a8
    by (simp only: load_add pad_zeros_store) (simp add: load_store load_store_disjoint)
  with assms show ?thesis by (simp add: cstr_load)
qed

lemma itoa_cstr:
  "2 \<le> unat r \<Longrightarrow> unat r \<le> 36 \<Longrightarrow> length (itoa_bytes v r) < 4294967296 \<Longrightarrow>
    itoa m v buf r = Some (store m buf (itoa_bytes v r @ [0]))
      \<and> cstr (store m buf (itoa_bytes v r @ [0])) buf (itoa_bytes v r)"
  by (simp add: itoa_store cstr_store itoa_bytes_nonzero)

lemma itoa_bytes_lengths: "length (itoa_bytes v 16) \<le> 8" "length (itoa_bytes v 10) \<le> 10"
  using length_itoa_bytes [of v 16 8] length_itoa_bytes [of v 10 10]
    unat_u32_bound [of v] by simp_all

text \<open>
  The memory \<open>printf\<close> reads, outside the set \<open>D\<close> it writes: the format at \<open>a\<close>, the
  arguments on the stack.
\<close>

fun text_at :: "mem \<Rightarrow> addr set \<Rightarrow> addr \<Rightarrow> byte list \<Rightarrow> bool" where
  "text_at m D a [] = (a \<notin> D \<and> m a = 0)"
| "text_at m D a (c # cs) = (a \<notin> D \<and> m a = c \<and> c \<noteq> 0 \<and> text_at m D (a + 1) cs)"

fun stack_args :: "mem \<Rightarrow> addr set \<Rightarrow> addr \<Rightarrow> u32 list \<Rightarrow> bool" where
  "stack_args m D a [] = True"
| "stack_args m D a (v # vs) = (run a 4 \<inter> D = {} \<and> load32 m a = v \<and> stack_args m D (a + 4) vs)"

text \<open>The scan from either state of the loop.\<close>

definition format_from ::
  "(byte \<Rightarrow> 'a machine_scheme \<Rightarrow> 'a machine_scheme) \<Rightarrow> addr \<Rightarrow> bool option \<Rightarrow> addr \<Rightarrow> addr
    \<Rightarrow> 'a machine_scheme \<Rightarrow> (addr \<times> 'a machine_scheme) option" where
  "format_from put conv st buf args s =
     (case st of None \<Rightarrow> format_loop put conv buf args s
      | Some alternate \<Rightarrow> do {
          (buf, args, s) \<leftarrow> format_char_switch put conv alternate buf args s;
          format_loop put conv (buf + 1) args s
        })"

lemma format_from_None:
  "format_from put conv None buf args s =
     (if mem s buf = 0 then Some (buf, s)
      else if mem s buf = 0x25 then format_from put conv (Some False) (buf + 1) args s
      else format_from put conv None (buf + 1) args (put (mem s buf) s))"
  unfolding format_from_def by (simp add: format_loop.simps [of put conv buf])

lemma format_from_Some:
  "format_from put conv (Some alternate) buf args s =
     (let c = mem s buf; arg = load32 (mem s) args; next = format_from put conv None (buf + 1)
      in if c = 0x25 then next args (put 0x25 s)
         else if c = 0x23 then format_from put conv (Some True) (buf + 1) args s
         else if c = 0x78 then conv_hex put conv alternate arg s \<bind> next (args + 4)
         else if c = 0x75 then conv_unsigned put conv arg s \<bind> next (args + 4)
         else if c = 0x64 then conv_signed put conv arg s \<bind> next (args + 4)
         else if c = 0x63 then next (args + 4) (put (ucast arg) s)
         else if c = 0x73 then puts_loop put arg 0 s \<bind> (\<lambda>(s, n). next (args + 4) s)
         else next args s)"
  unfolding format_from_def
  by (subst format_char_switch.simps)
    (auto simp: Let_def split_beta split: Option.bind_split)

section \<open>The contract of a character sink\<close>

text \<open>
  \<open>put\<close> keeps \<open>ok\<close>, acts on what is seen (\<open>view\<close>) as \<open>vput\<close> does, and writes only the
  device's own memory \<open>dev\<close>, on which alone \<open>ok\<close> and \<open>view\<close> depend.
\<close>

locale char_sink =
  fixes put :: "byte \<Rightarrow> 'a machine_scheme \<Rightarrow> 'a machine_scheme"
    and ok :: "'a machine_scheme \<Rightarrow> bool"
    and view :: "'a machine_scheme \<Rightarrow> 'v"
    and vput :: "byte \<Rightarrow> 'v \<Rightarrow> 'v"
    and dev :: "'a machine_scheme \<Rightarrow> addr set"
  assumes put_ok: "ok s \<Longrightarrow> ok (put c s)"
    and put_view: "ok s \<Longrightarrow> view (put c s) = vput c (view s)"
    and put_dev: "ok s \<Longrightarrow> dev (put c s) = dev s"
    and put_mem: "ok s \<Longrightarrow> a \<notin> dev s \<Longrightarrow> mem (put c s) a = mem s a"
    and upd_ok: "ok s \<Longrightarrow> (\<forall>a \<in> dev s. m a = mem s a) \<Longrightarrow> ok (s\<lparr>mem := m\<rparr>)"
    and upd_view: "ok s \<Longrightarrow> (\<forall>a \<in> dev s. m a = mem s a) \<Longrightarrow> view (s\<lparr>mem := m\<rparr>) = view s"
    and upd_dev: "ok s \<Longrightarrow> (\<forall>a \<in> dev s. m a = mem s a) \<Longrightarrow> dev (s\<lparr>mem := m\<rparr>) = dev s"
begin

text \<open>From \<open>s\<close> to \<open>s'\<close> the bytes \<open>xs\<close> were printed, and nothing outside \<open>dev\<close> and \<open>X\<close> written.\<close>

definition emits :: "addr set \<Rightarrow> 'a machine_scheme \<Rightarrow> byte list \<Rightarrow> 'a machine_scheme \<Rightarrow> bool" where
  "emits X s xs s' \<longleftrightarrow> ok s' \<and> view s' = fold vput xs (view s) \<and> dev s' = dev s
     \<and> (\<forall>a. a \<notin> dev s \<union> X \<longrightarrow> mem s' a = mem s a)"

lemma emits_trans: "emits X s xs s' \<Longrightarrow> emits X s' ys s'' \<Longrightarrow> emits X s (xs @ ys) s''"
  by (auto simp: emits_def)

lemma emits_refl: "ok s \<Longrightarrow> emits X s [] s"
  by (simp add: emits_def)

lemma emits_put: "ok s \<Longrightarrow> emits X s [c] (put c s)"
  by (simp add: emits_def put_ok put_view put_dev put_mem)

lemma emits_fold: "ok s \<Longrightarrow> emits X s xs (fold put xs s)"
proof (induction xs arbitrary: s)
  case (Cons x xs)
  have "emits X s [x] (put x s)" using Cons.prems by (rule emits_put)
  moreover have "emits X (put x s) xs (fold put xs (put x s))"
    by (rule Cons.IH, rule put_ok, rule Cons.prems)
  ultimately show ?case using emits_trans by fastforce
qed (simp add: emits_refl)

lemma emits_upd:
  assumes "ok s" and "\<And>a. a \<in> dev s \<Longrightarrow> m a = mem s a" and "\<And>a. a \<notin> X \<Longrightarrow> m a = mem s a"
  shows "emits X s [] (s\<lparr>mem := m\<rparr>)"
  using assms by (simp add: emits_def upd_ok upd_view upd_dev)

lemma puts_loop_fold:
  "ok s \<Longrightarrow> load (mem s) (a + of_nat i) (length xs) = xs \<Longrightarrow> 0 \<notin> set xs
    \<Longrightarrow> mem s (a + of_nat i + of_nat (length xs)) = 0
    \<Longrightarrow> run (a + of_nat i) (Suc (length xs)) \<inter> dev s = {}
    \<Longrightarrow> puts_loop put a (of_nat i) s = Some (fold put xs s, of_nat (i + length xs))"
proof (induction xs arbitrary: s i)
  case Nil
  then show ?case by (simp add: puts_loop.simps [of put a])
next
  case (Cons x xs)
  let ?b = "a + of_nat i"
  have x: "mem s ?b = x" and xs: "load (mem s) (a + of_nat (Suc i)) (length xs) = xs"
    using Cons.prems(2) by (simp_all add: load_Suc add.assoc add.commute add.left_commute)
  have sub: "run (a + of_nat (Suc i)) (Suc (length xs)) \<subseteq> run ?b (Suc (length (x # xs)))"
  proof -
    have e: "a + of_nat (Suc i) = ?b + of_nat 1" by simp
    show ?thesis unfolding e by (rule run_subset) simp
  qed
  have keep: "mem (put x s) p = mem s p" if "p \<in> run (a + of_nat (Suc i)) (Suc (length xs))" for p
    using that sub Cons.prems(5) by (intro put_mem [OF Cons.prems(1)]) blast
  have "load (mem (put x s)) (a + of_nat (Suc i)) (length xs) = xs"
    by (subst xs [symmetric], rule nth_equalityI, simp, simp del: of_nat_Suc, rule keep, rule imageI, simp)
  moreover have "mem (put x s) (a + of_nat (Suc i) + of_nat (length xs)) = 0"
    using Cons.prems(4) by (subst keep, intro imageI) (simp_all add: add.assoc add.commute add.left_commute)
  moreover have "run (a + of_nat (Suc i)) (Suc (length xs)) \<inter> dev (put x s) = {}"
    using sub Cons.prems(5) put_dev [OF Cons.prems(1)] by blast
  ultimately have "puts_loop put a (of_nat (Suc i)) (put x s)
      = Some (fold put xs (put x s), of_nat (Suc i + length xs))"
    using Cons.IH [of "put x s" "Suc i"] put_ok [OF Cons.prems(1)] Cons.prems(3)
    by (simp del: of_nat_Suc)
  then show ?case
    using x Cons.prems(3) by (subst puts_loop.simps) (simp add: add.commute)
qed

lemma puts_loop_cstr:
  "ok s \<Longrightarrow> cstr (mem s) a xs \<Longrightarrow> run a (Suc (length xs)) \<inter> dev s = {}
    \<Longrightarrow> puts_loop put a 0 s = Some (fold put xs s, of_nat (length xs))"
  using puts_loop_fold [of s a 0 xs] by (simp add: cstr_def)

text \<open>Printing from \<open>conv_buf\<close>, which the sink does not own.\<close>

lemma emits_buf:
  assumes "ok s" and "run conv 64 \<inter> dev s = {}"
    and m: "\<And>a. a \<notin> run conv 64 \<Longrightarrow> m a = mem s a"
    and "cstr m (conv + of_nat k) xs" and "k + Suc (length xs) \<le> 64"
  shows "\<exists>s' n. puts_loop put (conv + of_nat k) 0 (s\<lparr>mem := m\<rparr>) = Some (s', n)
    \<and> emits (run conv 64) s xs s'"
proof -
  let ?s = "s\<lparr>mem := m\<rparr>"
  have e: "emits (run conv 64) s [] ?s"
    using assms(1,2) m by (intro emits_upd) blast+
  then have ok: "ok ?s" and dev: "dev ?s = dev s" by (simp_all add: emits_def)
  have "run (conv + of_nat k) (Suc (length xs)) \<subseteq> run conv 64"
    by (rule run_subset [OF assms(5)])
  then have "run (conv + of_nat k) (Suc (length xs)) \<inter> dev ?s = {}"
    using assms(2) unfolding dev by blast
  then have "puts_loop put (conv + of_nat k) 0 ?s = Some (fold put xs ?s, of_nat (length xs))"
    using puts_loop_cstr [OF ok, of "conv + of_nat k" xs] assms(4) by simp
  moreover have "emits (run conv 64) s ([] @ xs) (fold put xs ?s)"
    by (rule emits_trans [OF e emits_fold [OF ok]])
  ultimately show ?thesis by auto
qed

lemma store_conv:
  "k + length xs \<le> 64 \<Longrightarrow> a \<notin> run conv 64 \<Longrightarrow> store m (conv + of_nat k) xs a = m a"
  using run_subset [of k "length xs" 64 conv] by (blast intro: store_outside_run)

lemma conv_hex_emits:
  assumes "ok s" and "run conv 64 \<inter> dev s = {}"
  shows "\<exists>s'. conv_hex put conv alternate v s = Some s' \<and> emits (run conv 64) s (hex_spec alternate v) s'"
proof (cases alternate)
  case False
  have "\<exists>s' n. puts_loop put (conv + of_nat 0) 0 (s\<lparr>mem := store (mem s) conv (itoa_bytes v 16 @ [0])\<rparr>)
      = Some (s', n) \<and> emits (run conv 64) s (itoa_bytes v 16) s'"
    using itoa_bytes_lengths [of v] itoa_cstr [of 16 v "mem s" conv] store_conv [of 0]
    by (intro emits_buf assms) auto
  with False itoa_bytes_lengths [of v] show ?thesis
    by (auto simp: conv_hex_def hex_spec_def Let_def itoa_store)
next
  case True
  let ?ds = "itoa_bytes v 16"
  let ?m = "store (mem s) (conv + 8) (?ds @ [0])"
  have c: "cstr ?m (conv + 8) ?ds" and i: "itoa (mem s) v (conv + 8) 16 = Some ?m"
    using itoa_cstr [of 16 v "mem s" "conv + 8"] itoa_bytes_lengths [of v] by auto
  have z: "pad_zeros ?m conv (int (length ?ds)) a = mem s a" if "a \<notin> run conv 64" for a
    using that itoa_bytes_lengths [of v] store_conv [of 8] store_conv [of "length ?ds"]
    by (simp add: pad_zeros_store)
  have "\<exists>s' n. puts_loop put (conv + of_nat (length ?ds)) 0
        (s\<lparr>mem := pad_zeros ?m conv (int (length ?ds))\<rparr>)
      = Some (s', n) \<and> emits (run conv 64) s (replicate (8 - length ?ds) 0x30 @ ?ds) s'"
    using itoa_bytes_lengths [of v] cstr_pad_zeros [OF c] z by (intro emits_buf assms) auto
  moreover have "sint (of_nat (length ?ds) :: u32) = int (length ?ds)"
    using itoa_bytes_lengths [of v] sint_of_int_u32 [of "int (length ?ds)"] by simp
  ultimately show ?thesis
    using True strlen_cstr [OF c] i by (auto simp: conv_hex_def hex_spec_def Let_def)
qed

lemma conv_unsigned_emits:
  assumes "ok s" and "run conv 64 \<inter> dev s = {}"
  shows "\<exists>s'. conv_unsigned put conv v s = Some s' \<and> emits (run conv 64) s (itoa_bytes v 10) s'"
proof -
  have "\<exists>s' n. puts_loop put (conv + of_nat 0) 0 (s\<lparr>mem := store (mem s) conv (itoa_bytes v 10 @ [0])\<rparr>)
      = Some (s', n) \<and> emits (run conv 64) s (itoa_bytes v 10) s'"
    using itoa_bytes_lengths [of v] itoa_cstr [of 10 v "mem s" conv] store_conv [of 0]
    by (intro emits_buf assms) auto
  then show ?thesis by (auto simp: conv_unsigned_def itoa_store)
qed

lemma conv_signed_emits:
  assumes "ok s" and "run conv 64 \<inter> dev s = {}"
  shows "\<exists>s'. conv_signed put conv v s = Some s' \<and> emits (run conv 64) s (signed_spec v) s'"
proof (cases "sint v < 0")
  case False
  then show ?thesis
    using conv_unsigned_emits [OF assms, of v]
    by (simp add: conv_signed_def conv_unsigned_def signed_spec_def)
next
  case True
  let ?xs = "0x2D # itoa_bytes (- v) 10"
  have l: "length (itoa_bytes (- v) 10) \<le> 10" by (rule itoa_bytes_lengths)
  have m: "store ((mem s)(conv := 0x2D)) (conv + 1) (itoa_bytes (- v) 10 @ [0])
      = store (mem s) conv (?xs @ [0])"
    using l by (subst store_Cons) simp_all
  have "\<exists>s' n. puts_loop put (conv + of_nat 0) 0 (s\<lparr>mem := store (mem s) conv (?xs @ [0])\<rparr>)
      = Some (s', n) \<and> emits (run conv 64) s ?xs s'"
    using l cstr_store [of ?xs "mem s" conv] itoa_bytes_nonzero [of 10 "- v"]
      store_conv [of 0 "?xs @ [0]" _ conv "mem s"]
    by (intro emits_buf assms) auto
  with True m show ?thesis
    by (auto simp: conv_signed_def signed_spec_def itoa_store)
qed

text \<open>One conversion with an argument.\<close>

lemma conv_emits:
  assumes "ok s" and "run conv 64 \<inter> dev s = {}" and "conv_spec str alternate c v = Some out"
    and "\<forall>p ys. str p = Some ys \<longrightarrow> cstr (mem s) p ys \<and> run p (Suc (length ys)) \<inter> dev s = {}"
  shows "c = 0x78 \<Longrightarrow> \<exists>s'. conv_hex put conv alternate v s = Some s' \<and> emits (run conv 64) s out s'"
    and "c = 0x75 \<Longrightarrow> \<exists>s'. conv_unsigned put conv v s = Some s' \<and> emits (run conv 64) s out s'"
    and "c = 0x64 \<Longrightarrow> \<exists>s'. conv_signed put conv v s = Some s' \<and> emits (run conv 64) s out s'"
    and "c = 0x63 \<Longrightarrow> emits (run conv 64) s out (put (ucast v) s)"
    and "c = 0x73 \<Longrightarrow> \<exists>s' n. puts_loop put v 0 s = Some (s', n) \<and> emits (run conv 64) s out s'"
  using assms conv_hex_emits [OF assms(1,2), of alternate v] conv_unsigned_emits [OF assms(1,2), of v]
    conv_signed_emits [OF assms(1,2), of v] emits_put [OF assms(1)] emits_fold [OF assms(1)]
    puts_loop_cstr [OF assms(1), of v out]
  by (auto simp: conv_spec_def)

lemma format_from_spec:
  assumes D: "D = dv \<union> run conv 64" and conv: "run conv 64 \<inter> dv = {}"
    and str: "\<And>p ys. str p = Some ys \<Longrightarrow> cstr m0 p ys \<and> run p (Suc (length ys)) \<inter> D = {}"
  shows "fmt_spec str st fs vs = Some out \<Longrightarrow> text_at m0 D buf fs \<Longrightarrow> stack_args m0 D args vs
    \<Longrightarrow> ok s \<Longrightarrow> dev s = dv \<Longrightarrow> (\<forall>a. a \<notin> D \<longrightarrow> mem s a = m0 a)
    \<Longrightarrow> \<exists>s'. format_from put conv st buf args s = Some (buf + of_nat (length fs), s')
          \<and> emits (run conv 64) s out s'"
proof (induction fs arbitrary: st vs out buf args s)
  case Nil
  then show ?case by (cases st) (simp_all add: format_from_None emits_refl)
next
  case (Cons c fs)
  let ?X = "run conv 64"
  have c: "mem s buf = c" "c \<noteq> 0" and ok: "ok s" and tx: "text_at m0 D (buf + 1) fs"
    using Cons.prems by simp_all
  have free: "run conv 64 \<inter> dev s = {}" using conv Cons.prems(5) by simp
  have go: "\<exists>s''. format_from put conv st' (buf + 1) a s' = Some (buf + of_nat (length (c # fs)), s'')
      \<and> emits ?X s (xs @ ys) s''"
    if "emits ?X s xs s'" "fmt_spec str st' fs ws = Some ys" "stack_args m0 D a ws" for xs s' st' ws ys a
  proof -
    have "ok s'" "dev s' = dv" "\<forall>a. a \<notin> D \<longrightarrow> mem s' a = m0 a"
      using that(1) Cons.prems(5,6) by (simp_all add: emits_def D)
    from Cons.IH [OF that(2) tx that(3) this] emits_trans [OF that(1)] show ?thesis
      by (auto simp: add.assoc)
  qed
  show ?case
  proof (cases st)
    case None
    show ?thesis
    proof (cases "c = 0x25")
      case True
      then show ?thesis
        using None go [OF emits_refl [OF ok] _ Cons.prems(3), of "Some False" out] Cons.prems(1) c
        by (simp add: format_from_None)
    next
      case False
      then obtain out' where "fmt_spec str None fs vs = Some out'" "out = [c] @ out'"
        using Cons.prems(1) None by auto
      then show ?thesis
        using None False go [OF emits_put [OF ok] _ Cons.prems(3), of None out' c] c
        by (simp add: format_from_None)
    qed
  next
    case (Some alt)
    consider "c = 0x25" | "c = 0x23" | "c \<in> {0x78, 0x75, 0x64, 0x63, 0x73}"
      | "c \<notin> {0x25, 0x23, 0x78, 0x75, 0x64, 0x63, 0x73}" by blast
    then show ?thesis
    proof cases
      case 1
      then obtain ys where "fmt_spec str None fs vs = Some ys" "out = [c] @ ys"
        using Cons.prems(1) Some by auto
      then show ?thesis
        using Some 1 go [OF emits_put [OF ok] _ Cons.prems(3), of None ys c] c
        by (simp add: format_from_Some)
    next
      case 2
      then show ?thesis
        using Some go [OF emits_refl [OF ok] _ Cons.prems(3), of "Some True" out] Cons.prems(1) c
        by (simp add: format_from_Some)
    next
      case 3
      then obtain v ws xs ys where w: "vs = v # ws" "conv_spec str alt c v = Some xs"
          "fmt_spec str None fs ws = Some ys" "out = xs @ ys"
        using Cons.prems(1) Some by (cases vs) (auto split: bind_splits)
      have a: "load32 (mem s) args = v" "stack_args m0 D (args + 4) ws"
      proof -
        have "load32 (mem s) args = load32 m0 args"
          using Cons.prems(3,6) w(1) by (intro load32_cong) auto
        then show "load32 (mem s) args = v" "stack_args m0 D (args + 4) ws"
          using Cons.prems(3) w(1) by simp_all
      qed
      have str': "\<forall>p ys. str p = Some ys \<longrightarrow> cstr (mem s) p ys \<and> run p (Suc (length ys)) \<inter> dev s = {}"
      proof (intro allI impI)
        fix p ys assume "str p = Some ys"
        with str have "cstr m0 p ys" and d: "run p (Suc (length ys)) \<inter> D = {}" by blast+
        moreover have "cstr (mem s) p ys = cstr m0 p ys"
          using d Cons.prems(6) by (intro cstr_cong) blast
        ultimately show "cstr (mem s) p ys \<and> run p (Suc (length ys)) \<inter> dev s = {}"
          using Cons.prems(5) D by blast
      qed
      note em = conv_emits [OF ok free w(2) str']
      note go' = go [OF _ w(3) a(2)]
      from 3 consider "c = 0x78" | "c = 0x75" | "c = 0x64" | "c = 0x63" | "c = 0x73" by blast
      then show ?thesis
      proof cases
        case 1
        from em(1) [OF this] obtain s' where s': "conv_hex put conv alt v s = Some s'" "emits ?X s xs s'"
          by blast
        with 1 Some c a(1) w go' [OF s'(2)] show ?thesis by (simp add: format_from_Some)
      next
        case 2
        from em(2) [OF this] obtain s' where s': "conv_unsigned put conv v s = Some s'" "emits ?X s xs s'"
          by blast
        with 2 Some c a(1) w go' [OF s'(2)] show ?thesis by (simp add: format_from_Some)
      next
        case 3
        from em(3) [OF this] obtain s' where s': "conv_signed put conv v s = Some s'" "emits ?X s xs s'"
          by blast
        with 3 Some c a(1) w go' [OF s'(2)] show ?thesis by (simp add: format_from_Some)
      next
        case 4
        with Some c a(1) w go' [OF em(4) [OF 4]] show ?thesis by (simp add: format_from_Some)
      next
        case 5
        from em(5) [OF this] obtain s' n where s': "puts_loop put v 0 s = Some (s', n)" "emits ?X s xs s'"
          by blast
        with 5 Some c a(1) w go' [OF s'(2)] show ?thesis by (simp add: format_from_Some)
      qed
    next
      case 4
      then show ?thesis
        using Some go [OF emits_refl [OF ok] _ Cons.prems(3), of None out] Cons.prems(1) c
        by (simp add: format_from_Some)
    qed
  qed
qed

end

section \<open>Both terminals are character sinks\<close>

lemma shown_upd:
  assumes "\<forall>a \<in> page VIDEO. m a = mem s a"
  shows "shown (s\<lparr>mem := m\<rparr>) = shown s"
proof -
  have "cells_of m VIDEO = cells_of (mem s) VIDEO" by (rule cells_of_cong) (use assms in blast)
  then show ?thesis by (simp add: shown_def)
qed

lemma cursor_ok_upd [simp]: "cursor_ok (s\<lparr>mem := m\<rparr>) = cursor_ok s"
  by (simp add: cursor_ok_def)

interpretation shown_sink: char_sink putc cursor_ok "\<lambda>s. (colour s, shown s)"
    "\<lambda>c (k, v). (k, vga_put (0x20, k) (\<lambda>c. (c, k)) c v)" "\<lambda>s. page VIDEO"
  by unfold_locales
    (simp_all add: putc_cursor_ok putc_refines putc_outside shown_upd)

lemma bg_upd:
  assumes "\<forall>a \<in> page (bg_base s). m a = mem s a"
  shows "bg (s\<lparr>mem := m\<rparr>) = bg s"
proof -
  have "cells_of m (bg_base s) = cells_of (mem s) (bg_base s)"
    by (rule cells_of_cong) (use assms in blast)
  then show ?thesis by (simp add: bg_def)
qed

interpretation bg_sink: char_sink multi_putc bg_ok bg "vga_put 0x20 (\<lambda>c. c)"
    "\<lambda>s. insert (bg_attr_addr s) (page (bg_base s))"
proof unfold_locales
  fix s :: "'a console_state_scheme" and c m a
  assume ok: "bg_ok s"
  show "bg_ok (multi_putc c s)" and "bg (multi_putc c s) = vga_put 0x20 (\<lambda>c. c) c (bg s)"
    and "insert (bg_attr_addr (multi_putc c s)) (page (bg_base (multi_putc c s)))
      = insert (bg_attr_addr s) (page (bg_base s))"
    using multi_putc_refines_ok(1-4) [OF ok] by simp_all
  show "mem (multi_putc c s) a = mem s a" if "a \<notin> insert (bg_attr_addr s) (page (bg_base s))"
    using multi_putc_refines_ok(5) [OF ok] that by blast
  assume m: "\<forall>a \<in> insert (bg_attr_addr s) (page (bg_base s)). m a = mem s a"
  show "bg_ok (s\<lparr>mem := m\<rparr>)" using ok by (simp add: bg_ok_def)
  show "bg (s\<lparr>mem := m\<rparr>) = bg s" using m by (intro bg_upd) blast
  show "insert (bg_attr_addr (s\<lparr>mem := m\<rparr>)) (page (bg_base (s\<lparr>mem := m\<rparr>)))
      = insert (bg_attr_addr s) (page (bg_base s))" by simp
qed

lemma fold_colour:
  "fold (\<lambda>c (k, v). (k, vga_put (0x20, k) (\<lambda>c. (c, k)) c v)) xs (k, v)
     = (k, fold (vga_put (0x20, k) (\<lambda>c. (c, k))) xs v)"
  by (induction xs arbitrary: v) simp_all

text \<open>The strings a call's arguments may point to, clear of the memory the call writes.\<close>

definition strings_at :: "mem \<Rightarrow> addr set \<Rightarrow> (u32 \<Rightarrow> byte list option) \<Rightarrow> bool" where
  "strings_at m D str \<longleftrightarrow>
     (\<forall>p ys. str p = Some ys \<longrightarrow> cstr m p ys \<and> run p (Suc (length ys)) \<inter> D = {})"

lemma printf_emits:
  assumes "cursor_ok s" and "run conv 64 \<inter> page VIDEO = {}" and "D = page VIDEO \<union> run conv 64"
    and "strings_at (mem s) D str" and "text_at (mem s) D format fs"
    and "stack_args (mem s) D args vs" and "fmt_spec str None fs vs = Some out"
  shows "\<exists>s'. printf conv format args s = Some (s', of_nat (length fs))
    \<and> shown_sink.emits (run conv 64) s out s'"
proof -
  have "\<exists>s'. format_from putc conv None format args s = Some (format + of_nat (length fs), s')
      \<and> shown_sink.emits (run conv 64) s out s'"
    using assms(4) unfolding strings_at_def
    by (intro shown_sink.format_from_spec [OF assms(3,2) _ assms(7,5,6,1)]) auto
  then show ?thesis by (auto simp: printf_def format_from_def)
qed

lemma multi_printf_emits:
  assumes "bg_ok s" and "dv = insert (bg_attr_addr s) (page (bg_base s))"
    and "run conv 64 \<inter> dv = {}" and "D = dv \<union> run conv 64"
    and "strings_at (mem s) D str" and "text_at (mem s) D format fs"
    and "stack_args (mem s) D args vs" and "fmt_spec str None fs vs = Some out"
  shows "\<exists>s'. multi_printf conv format args s = Some (s', of_nat (length fs))
    \<and> bg_sink.emits (run conv 64) s out s'"
proof -
  have "\<exists>s'. format_from multi_putc conv None format args s = Some (format + of_nat (length fs), s')
      \<and> bg_sink.emits (run conv 64) s out s'"
    using assms(5) unfolding strings_at_def
    by (intro bg_sink.format_from_spec [OF assms(4,3) _ assms(8,6,7,1) assms(2)[symmetric]]) auto
  then show ?thesis by (auto simp: multi_printf_def format_from_def)
qed

section \<open>Properties\<close>

text \<open>C16: \<open>printf\<close> returns the length of the format and prints what the format means: plain
  bytes as they are, the conversions in the digits of the argument, percent-number-x padded to
  eight digits, strings up to their NUL. The cursor stays on the screen, and only the screen
  and the conversion buffer are written.\<close>

theorem printf_prints:
  assumes "cursor_ok s" and "run conv 64 \<inter> page VIDEO = {}" and "D = page VIDEO \<union> run conv 64"
    and "strings_at (mem s) D str" and "text_at (mem s) D format fs"
    and "stack_args (mem s) D args vs" and "fmt_spec str None fs vs = Some out"
  shows "\<exists>s'. printf conv format args s = Some (s', of_nat (length fs))
    \<and> shown s' = fold (vga_put (0x20, colour s) (\<lambda>c. (c, colour s))) out (shown s)
    \<and> cursor_ok s' \<and> (\<forall>a. a \<notin> D \<longrightarrow> mem s' a = mem s a)"
  using printf_emits [OF assms] assms(3)
  by (auto simp: shown_sink.emits_def fold_colour)

lemma not_in_run:
  "unat x < unat b \<or> unat b + n \<le> unat x \<Longrightarrow> unat b + n \<le> 4294967296 \<Longrightarrow> x \<notin> run b n"
  by (auto simp: unat_word_ariths)

text \<open>The format "v=%u" with the argument 42 on the stack.\<close>

definition print_example :: console_state where
  "print_example = console_boot
     ((\<lambda>_. 0)(0x400000 := 0x76, 0x400001 := 0x3D, 0x400002 := 0x25, 0x400003 := 0x75, 0x7FFF00 := 42))"

theorem printf_prints_witness:
  "\<exists>s'. printf 0x7FFE00 0x400000 0x7FFF00 print_example = Some (s', 4)
    \<and> shown s' = fold (vga_put (0x20, 0xD) (\<lambda>c. (c, 0xD))) [0x76, 0x3D, 0x34, 0x32] (shown print_example)"
proof -
  let ?D = "page VIDEO \<union> run 0x7FFE00 64"
  have out: "a \<notin> ?D" if "0x400000 \<le> a" "a \<le> 0x7FF000 \<or> 0x7FFF00 \<le> a" "a \<le> 0x7FFFFF" for a
    using that not_in_run [of a VIDEO 4000] not_in_run [of a "0x7FFE00" 64]
    by (auto simp: VIDEO_def word_le_nat_alt simp del: image_iff)
  have args: "run 0x7FFF00 4 \<inter> ?D = {}"
    using runs_apart [of "0x7FFF00" 4 VIDEO 4000] runs_apart [of "0x7FFF00" 4 "0x7FFE00" 64]
    by (simp add: VIDEO_def Int_Un_distrib)
  have spec: "fmt_spec (\<lambda>_. None) None [0x76, 0x3D, 0x25, 0x75] [42] = Some [0x76, 0x3D, 0x34, 0x32]"
    by (simp add: conv_spec_def itoa_bytes_def digits_rev.simps digit_byte_def itoa_lookup_def)
  have "\<exists>s'. printf 0x7FFE00 0x400000 0x7FFF00 print_example = Some (s', of_nat (length [0x76, 0x3D, 0x25, 0x75 :: byte]))
    \<and> shown s' = fold (vga_put (0x20, colour print_example) (\<lambda>c. (c, colour print_example)))
        [0x76, 0x3D, 0x34, 0x32] (shown print_example)
    \<and> cursor_ok s' \<and> (\<forall>a. a \<notin> ?D \<longrightarrow> mem s' a = mem print_example a)"
  proof (rule printf_prints [OF _ _ refl _ _ _ spec])
    show "run 0x7FFE00 64 \<inter> page VIDEO = {}" by (rule runs_apart) (simp_all add: VIDEO_def)
    show "text_at (mem print_example) ?D 0x400000 [0x76, 0x3D, 0x25, 0x75]"
      using out by (simp add: print_example_def)
    show "stack_args (mem print_example) ?D 0x7FFF00 [42]"
      using args by (simp add: print_example_def load32_def)
  qed (simp_all add: print_example_def cursor_ok_def strings_at_def)
  then show ?thesis by (auto simp: print_example_def attrib_of_def)
qed

end
