(* ===== verification/Terminal.thy ===== *)
theory Terminal
  imports Printf
begin

text \<open>
  The terminals (\<open>terminal.c\<close>) and the key buffer they share with the keyboard driver: set-up,
  saving and restoring a terminal's screen and line, switching, and the terminal driver's
  read and write. \<open>term[]\<close> has three elements; an index past them is outside the array,
  which the operations that do not check it return as \<open>None\<close>. \<open>term_launch\<close>, which
  starts a shell, is in \<open>Process\<close>.
\<close>

section \<open>State\<close>

record kbd_state = console_state +
  key_buf :: "byte list" \<comment> \<open>\<open>key_buf[KEY_BUF_MAX]\<close>\<close>
  key_buf_idx :: nat
  scancode_state :: byte
  ctrl_state :: nat
  alt_state :: nat
  keyboard_enabled :: nat
  ctrl_c_flag :: nat

definition KEY_BUF_MAX :: nat where "KEY_BUF_MAX = 128"

text \<open>\<open>buf_clear\<close> of \<open>keyboard.c\<close>.\<close>

definition buf_clear :: "'a kbd_state_scheme \<Rightarrow> 'a kbd_state_scheme" where
  "buf_clear s =
     (let s = for_range 0 KEY_BUF_MAX (\<lambda>i s. s\<lparr>key_buf := (key_buf s)[i := 0]\<rparr>) s
      in s\<lparr>key_buf_idx := 0\<rparr>)"

section \<open>Set-up\<close>

text \<open>One terminal: its record, its video page in the page table, and the page blanked.\<close>

definition term_init_one :: "nat \<Rightarrow> 'a console_state_scheme \<Rightarrow> 'a console_state_scheme" where
  "term_init_one i s =
     (let s = update_term i (\<lambda>t. t\<lparr>term_id := of_nat i, cur_pcb_id := -1, cursor_x := 0, cursor_y := 0\<rparr>) s;
          s = for_range 0 KEY_BUF_MAX
                (\<lambda>j. update_term i (\<lambda>t. t\<lparr>saved_key_buf := (saved_key_buf t)[j := 0]\<rparr>)) s;
          s = update_term i (\<lambda>t. t\<lparr>saved_key_buf_idx := 0, enter_state := 0, running := 0,
                 rtc_virtual_freq := 2, rtc_virtual_counter := 0, rtc_interrupt_received := 0\<rparr>) s;
          s = terminal_video_mapping (0xB9000 + 0x1000 * of_nat i) i s;
          s = update_term i (\<lambda>t. t\<lparr>term_video_mem := 0xB9000 + 0x1000 * of_nat i\<rparr>) s
      in for_range 0 (NUM_ROWS * NUM_COLS)
           (\<lambda>j s. blank_cell (term_video_mem (terms s i)) (attrib_of i) j s) s)"

definition term_init :: "'a console_state_scheme \<Rightarrow> 'a console_state_scheme" where
  "term_init s = (for_range 0 TERM_MAX term_init_one s)\<lparr>cur_term_id := 3\<rparr>"

section \<open>Saving, restoring, switching\<close>

definition term_save :: "nat \<Rightarrow> 'a kbd_state_scheme \<Rightarrow> 'a kbd_state_scheme option" where
  "term_save i s =
     (if i \<ge> TERM_MAX then None
      else
        let s = for_range 0 KEY_BUF_MAX
                  (\<lambda>j s. update_term i (\<lambda>t. t\<lparr>saved_key_buf := (saved_key_buf t)[j := key_buf s ! j]\<rparr>) s) s;
            s = update_term i (\<lambda>t. t\<lparr>saved_key_buf_idx := key_buf_idx s\<rparr>) s;
            s = update_term i (\<lambda>t. t\<lparr>cursor_x := word_of_int (get_cursor_x s)\<rparr>) s;
            s = update_term i (\<lambda>t. t\<lparr>cursor_y := word_of_int (get_cursor_y s)\<rparr>) s
        in Some (s\<lparr>mem := memcpy (mem s) (term_video_mem (terms s i)) VIDEO
                           (2 * of_nat NUM_COLS * of_nat NUM_ROWS)\<rparr>))"

definition term_restore :: "nat \<Rightarrow> 'a kbd_state_scheme \<Rightarrow> 'a kbd_state_scheme option" where
  "term_restore i s =
     (if i \<ge> TERM_MAX then None
      else
        let s = for_range 0 KEY_BUF_MAX
                  (\<lambda>j s. s\<lparr>key_buf := (key_buf s)[j := saved_key_buf (terms s i) ! j]\<rparr>) s;
            s = s\<lparr>key_buf_idx := saved_key_buf_idx (terms s i)\<rparr>;
            s = set_screen_cursor (cursor_x (terms s i)) (cursor_y (terms s i)) s;
            s = s\<lparr>mem := memcpy (mem s) VIDEO (term_video_mem (terms s i))
                           (2 * of_nat NUM_COLS * of_nat NUM_ROWS)\<rparr>
        in Some (s\<lparr>cur_term_id := i\<rparr>))"

definition term_switch :: "nat \<Rightarrow> nat \<Rightarrow> 'a kbd_state_scheme \<Rightarrow> 'a kbd_state_scheme option" where
  "term_switch old_id new_id s = do { s \<leftarrow> term_save old_id s; term_restore new_id s }"

section \<open>The terminal driver\<close>

definition term_open :: "addr \<Rightarrow> int" where "term_open file_name = 0"
definition term_close :: "nat \<Rightarrow> int" where "term_close fd = 0"

text \<open>
  Busy waiting: the loop is left as soon as its condition is false; what happens while it spins
  are the interrupts of the list, in order. \<open>None\<close> is a loop still spinning when they are
  used up.
\<close>

fun wait_while :: "('s \<Rightarrow> bool) \<Rightarrow> ('s \<Rightarrow> 's option) list \<Rightarrow> 's \<Rightarrow> 's option" where
  "wait_while c [] s = (if c s then None else Some s)"
| "wait_while c (irq # irqs) s = (if c s then irq s \<bind> wait_while c irqs else Some s)"

text \<open>The copy loop of \<open>term_read\<close>, from index \<open>i\<close> on.\<close>

function term_read_copy :: "byte list \<Rightarrow> addr \<Rightarrow> int \<Rightarrow> nat \<Rightarrow> mem \<Rightarrow> nat \<times> mem" where
  "term_read_copy kb buf len i m =
     (if i < KEY_BUF_MAX \<and> int i < len
      then if kb ! i = 0 then (i, m)
           else term_read_copy kb buf len (Suc i) (m(buf + of_nat i := kb ! i))
      else (i, m))"
  by pat_completeness auto
termination
  by (relation "measure (\<lambda>(kb, buf, len, i, m). KEY_BUF_MAX - i)") auto

declare term_read_copy.simps [simp del]

definition term_read ::
  "('a kbd_state_scheme \<Rightarrow> 'a kbd_state_scheme option) list \<Rightarrow> addr \<Rightarrow> int \<Rightarrow> 'a kbd_state_scheme
    \<Rightarrow> (int \<times> 'a kbd_state_scheme) option" where
  "term_read irqs buf len s =
     (let s = sti s
      in if buf = 0 then Some (-1, s)
         else do {
           s \<leftarrow> wait_while (\<lambda>s. enter_state (now_term s) = 0) irqs s;
           let s = update_term (now_term_id s) (\<lambda>t. t\<lparr>enter_state := 0\<rparr>) s;
               (i, m) = term_read_copy (key_buf s) buf len 0 (mem s);
               s = buf_clear (s\<lparr>mem := m\<rparr>)
           in Some (int i, s)
         })"

text \<open>
  \<open>term_write\<close>: the bytes before the first NUL are copied to \<open>temp_buf\<close>, on the stack, which is
  then the format of \<open>printf\<close>. \<open>temp_buf\<close>, \<open>conv\<close> and \<open>args\<close> are the addresses of the
  local array, of \<open>printf\<close>'s local buffer and of the stack above its argument.
\<close>

function term_write_copy :: "addr \<Rightarrow> addr \<Rightarrow> int \<Rightarrow> nat \<Rightarrow> mem \<Rightarrow> nat \<times> mem" where
  "term_write_copy temp_buf buf len i m =
     (if int i < len
      then if m (buf + of_nat i) = 0 then (i, m)
           else term_write_copy temp_buf buf len (Suc i) (m(temp_buf + of_nat i := m (buf + of_nat i)))
      else (i, m))"
  by pat_completeness auto
termination
  by (relation "measure (\<lambda>(temp_buf, buf, len, i, m). nat (len - int i))") auto

declare term_write_copy.simps [simp del]

definition term_write ::
  "addr \<Rightarrow> addr \<Rightarrow> addr \<Rightarrow> addr \<Rightarrow> int \<Rightarrow> 'a console_state_scheme \<Rightarrow> (int \<times> 'a console_state_scheme) option"
  where
  "term_write temp_buf conv args buf len s =
     (if buf = 0 then Some (-1, s)
      else
        let (i, m) = term_write_copy temp_buf buf len 0 (mem s);
            s = s\<lparr>mem := m(temp_buf + of_nat i := 0)\<rparr>
        in do {
          (s, n) \<leftarrow> (if now_term_id s = cur_term_id s then printf conv temp_buf args s
                      else multi_printf conv temp_buf args s);
          Some (int i, s)
        })"

section \<open>The operations by their effect\<close>

definition kbd_ok :: "'a kbd_state_scheme \<Rightarrow> bool" where
  "kbd_ok s \<longleftrightarrow> length (key_buf s) = 128 \<and> key_buf_idx s \<le> 128 \<and> scancode_state s < 4
     \<and> (\<forall>i < 3. length (saved_key_buf (terms s i)) = 128 \<and> saved_key_buf_idx (terms s i) \<le> 128)"

text \<open>The terminals' pages are apart from the screen and from each other.\<close>

definition pages_ok :: "'a console_state_scheme \<Rightarrow> bool" where
  "pages_ok s \<longleftrightarrow> (\<forall>i < 3. page (term_video_mem (terms s i)) \<inter> page VIDEO = {})
     \<and> (\<forall>i < 3. \<forall>j < 3. i \<noteq> j \<longrightarrow> page (term_video_mem (terms s i)) \<inter> page (term_video_mem (terms s j)) = {})"

lemma disjoint_pages: "page a \<inter> page b = {} \<Longrightarrow> disjoint a 4000 b 4000"
  unfolding disjoint_def by blast

lemma buf_clear_eq:
  "length (key_buf s) = 128 \<Longrightarrow> buf_clear s = s\<lparr>key_buf := replicate 128 0, key_buf_idx := 0\<rparr>"
proof -
  assume l: "length (key_buf s) = 128"
  have "for_range 0 128 (\<lambda>i s. s\<lparr>key_buf := (key_buf s)[i := 0]\<rparr>) (s\<lparr>key_buf := key_buf s\<rparr>)
      = s\<lparr>key_buf := for_range 0 128 (\<lambda>i xs. xs[i := 0]) (key_buf s)\<rparr>"
    by (rule for_range_map) simp
  then show ?thesis
    using l by (simp add: buf_clear_def KEY_BUF_MAX_def for_range_fill_all map_replicate_const)
qed

lemma update_term_simps [simp]:
  "mem (update_term i f s) = mem s" "screen_x (update_term i f s) = screen_x s"
  "screen_y (update_term i f s) = screen_y s" "cur_term_id (update_term i f s) = cur_term_id s"
  "now_term_id (update_term i f s) = now_term_id s" "video_mem (update_term i f s) = video_mem s"
  "terms (update_term i f s) j = (if j = i then f (terms s i) else terms s j)"
  by (simp_all add: update_term_def)

lemma update_term_kbd [simp]:
  "key_buf (update_term i f s) = key_buf s" "key_buf_idx (update_term i f s) = key_buf_idx s"
  "scancode_state (update_term i f s) = scancode_state s" "ctrl_state (update_term i f s) = ctrl_state s"
  "alt_state (update_term i f s) = alt_state s"
  by (simp_all add: update_term_def)

lemma update_term_twice: "update_term i g (update_term i f s) = update_term i (g \<circ> f) s"
  by (simp add: update_term_def)

lemma update_cursor_ports_kbd [simp]:
  "key_buf (update_cursor_ports s) = key_buf s" "key_buf_idx (update_cursor_ports s) = key_buf_idx s"
  "scancode_state (update_cursor_ports s) = scancode_state s"
  "ctrl_state (update_cursor_ports s) = ctrl_state s" "alt_state (update_cursor_ports s) = alt_state s"
  by (simp_all add: update_cursor_ports_def outb_def Let_def)

lemma set_screen_cursor_frame:
  "terms (set_screen_cursor a b s) = terms s" "cur_term_id (set_screen_cursor a b s) = cur_term_id s"
  "now_term_id (set_screen_cursor a b s) = now_term_id s"
  "p \<notin> page VIDEO \<Longrightarrow> mem (set_screen_cursor a b s) p = mem s p"
  using set_screen_cursor_shape [of a b s] by auto

lemma set_screen_cursor_kbd:
  "key_buf (set_screen_cursor a b s) = key_buf s" "key_buf_idx (set_screen_cursor a b s) = key_buf_idx s"
  "scancode_state (set_screen_cursor a b s) = scancode_state s"
  "ctrl_state (set_screen_cursor a b s) = ctrl_state s" "alt_state (set_screen_cursor a b s) = alt_state s"
  using set_screen_cursor_shape [of a b s] by auto

text \<open>Where the cursor ends does not depend on the key buffer.\<close>

lemma set_screen_cursor_xy:
  "screen_x (set_screen_cursor a b s) = (if a < 80 then int (unat a) else 0)"
  "screen_y (set_screen_cursor a b s) =
     (if a < 80 then if unat b < 25 then int (unat b) else 24
      else if unat (word_of_int (screen_y s + 1) :: u32) < 25
      then int (unat (word_of_int (screen_y s + 1) :: u32)) else 24)"
proof -
  have in_row: "screen_x (set_screen_cursor a b s) = int (unat a)
      \<and> screen_y (set_screen_cursor a b s) = (if unat b < 25 then int (unat b) else 24)" if "a < 80" for a b
    using that set_screen_cursor_eq [of "unat a" "unat b" s] by (simp add: word_less_nat_alt)
  show "screen_x (set_screen_cursor a b s) = (if a < 80 then int (unat a) else 0)"
    using in_row [of a b] in_row [of 0] by (simp add: set_screen_cursor_wrap enter_def)
  show "screen_y (set_screen_cursor a b s) =
     (if a < 80 then if unat b < 25 then int (unat b) else 24
      else if unat (word_of_int (screen_y s + 1) :: u32) < 25
      then int (unat (word_of_int (screen_y s + 1) :: u32)) else 24)"
    using in_row [of a b] in_row [of 0] by (simp add: set_screen_cursor_wrap enter_def)
qed

lemma term_save_eq:
  assumes "i < 3" and "length (key_buf s) = 128" and "length (saved_key_buf (terms s i)) = 128"
    and "page (term_video_mem (terms s i)) \<inter> page VIDEO = {}"
  shows "term_save i s = Some ((update_term i (\<lambda>t. t\<lparr>saved_key_buf := key_buf s,
        saved_key_buf_idx := key_buf_idx s, cursor_x := word_of_int (screen_x s),
        cursor_y := word_of_int (screen_y s)\<rparr>) s)
      \<lparr>mem := store (mem s) (term_video_mem (terms s i)) (load (mem s) VIDEO 4000)\<rparr>)"
proof -
  let ?f = "\<lambda>xs. update_term i (\<lambda>t. t\<lparr>saved_key_buf := xs\<rparr>) s"
  have "for_range 0 128 (\<lambda>j s. update_term i (\<lambda>t. t\<lparr>saved_key_buf := (saved_key_buf t)[j := key_buf s ! j]\<rparr>) s)
        (?f (saved_key_buf (terms s i)))
      = ?f (for_range 0 128 (\<lambda>j xs. xs[j := key_buf s ! j]) (saved_key_buf (terms s i)))"
    by (rule for_range_map) (simp add: update_term_def)
  moreover have "?f (saved_key_buf (terms s i)) = s" by (simp add: update_term_def)
  moreover have "map ((!) (key_buf s)) [0..<128] = key_buf s" using assms(2) map_nth [of "key_buf s"] by simp
  ultimately have loop: "for_range 0 128 (\<lambda>j s. update_term i
        (\<lambda>t. t\<lparr>saved_key_buf := (saved_key_buf t)[j := key_buf s ! j]\<rparr>) s) s = ?f (key_buf s)"
    using assms(3) by (simp add: for_range_fill_all)
  show ?thesis
    using assms(1) memcpy_copy [of "term_video_mem (terms s i)" 4000 VIDEO "mem s"]
      disjoint_pages [OF assms(4)]
    by (simp add: term_save_def Let_def KEY_BUF_MAX_def TERM_MAX_def loop copy_run_def get_cursor_x_def
        get_cursor_y_def)
      (simp add: update_term_def)
qed

lemma term_restore_eq:
  assumes "i < 3" and "length (key_buf s) = 128" and "length (saved_key_buf (terms s i)) = 128"
    and "page (term_video_mem (terms s i)) \<inter> page VIDEO = {}"
  shows "\<exists>s'. term_restore i s = Some s' \<and> key_buf s' = saved_key_buf (terms s i)
    \<and> key_buf_idx s' = saved_key_buf_idx (terms s i) \<and> terms s' = terms s
    \<and> cur_term_id s' = i \<and> now_term_id s' = now_term_id s
    \<and> screen_x s' = screen_x (set_screen_cursor (cursor_x (terms s i)) (cursor_y (terms s i)) s)
    \<and> screen_y s' = screen_y (set_screen_cursor (cursor_x (terms s i)) (cursor_y (terms s i)) s)
    \<and> load (mem s') VIDEO 4000 = load (mem s) (term_video_mem (terms s i)) 4000
    \<and> (\<forall>p. p \<notin> page VIDEO \<longrightarrow> mem s' p = mem s p)
    \<and> scancode_state s' = scancode_state s \<and> ctrl_state s' = ctrl_state s \<and> alt_state s' = alt_state s"
proof -
  let ?t = "terms s i"
  have "for_range 0 128 (\<lambda>j s. s\<lparr>key_buf := (key_buf s)[j := saved_key_buf (terms s i) ! j]\<rparr>)
        (s\<lparr>key_buf := key_buf s\<rparr>)
      = s\<lparr>key_buf := for_range 0 128 (\<lambda>j xs. xs[j := saved_key_buf (terms s i) ! j]) (key_buf s)\<rparr>"
    by (rule for_range_map) simp
  moreover have "map ((!) (saved_key_buf ?t)) [0..<128] = saved_key_buf ?t"
    using assms(3) map_nth [of "saved_key_buf ?t"] by simp
  ultimately have loop: "for_range 0 128 (\<lambda>j s. s\<lparr>key_buf := (key_buf s)[j := saved_key_buf (terms s i) ! j]\<rparr>) s
      = s\<lparr>key_buf := saved_key_buf ?t\<rparr>"
    using assms(2) by (simp add: for_range_fill_all)
  define s1 where "s1 = s\<lparr>key_buf := saved_key_buf ?t, key_buf_idx := saved_key_buf_idx ?t\<rparr>"
  define s2 where "s2 = set_screen_cursor (cursor_x ?t) (cursor_y ?t) s1"
  have s2: "terms s2 = terms s" "key_buf s2 = saved_key_buf ?t" "key_buf_idx s2 = saved_key_buf_idx ?t"
    "now_term_id s2 = now_term_id s" "scancode_state s2 = scancode_state s" "ctrl_state s2 = ctrl_state s"
    "alt_state s2 = alt_state s"
    by (simp_all add: s2_def s1_def set_screen_cursor_frame set_screen_cursor_kbd)
  have mem2: "mem s2 p = mem s p" if "p \<notin> page VIDEO" for p
    using that by (simp add: s2_def s1_def set_screen_cursor_frame)
  have xy: "screen_x s2 = screen_x (set_screen_cursor (cursor_x ?t) (cursor_y ?t) s)"
    "screen_y s2 = screen_y (set_screen_cursor (cursor_x ?t) (cursor_y ?t) s)"
    unfolding s2_def s1_def by (simp_all add: set_screen_cursor_xy)
  define s3 where "s3 = s2\<lparr>mem := store (mem s2) VIDEO (load (mem s2) (term_video_mem ?t) 4000), cur_term_id := i\<rparr>"
  have d: "disjoint VIDEO 4000 (term_video_mem ?t) 4000"
    using disjoint_pages [OF assms(4)] by (rule disjoint_sym)
  have "term_restore i s = Some s3"
    using assms(1) memcpy_copy [of VIDEO 4000 "term_video_mem ?t" "mem s2"] d s2
    by (simp add: term_restore_def Let_def KEY_BUF_MAX_def TERM_MAX_def loop s1_def [symmetric]
        s2_def [symmetric] s3_def copy_run_def)
  moreover have "load (mem s2) (term_video_mem ?t) 4000 = load (mem s) (term_video_mem ?t) 4000"
    by (rule nth_equalityI) (use mem2 assms(4) in auto)
  ultimately show ?thesis
    using s2 xy mem2 by (intro exI [of _ s3]) (simp add: s3_def load_store store_outside_run)
qed

definition saved_as :: "'a kbd_state_scheme \<Rightarrow> term_t \<Rightarrow> term_t" where
  "saved_as s t = t\<lparr>saved_key_buf := key_buf s, saved_key_buf_idx := key_buf_idx s,
     cursor_x := word_of_int (screen_x s), cursor_y := word_of_int (screen_y s)\<rparr>"

text \<open>A switch: terminal \<open>a\<close> keeps the screen and the line, \<open>b\<close> gives them.\<close>

lemma term_switch_eq:
  assumes "a < 3" and "b < 3" and ok: "kbd_ok s" and pages: "pages_ok s" and "cursor_ok s"
  defines "t \<equiv> (terms s)(a := saved_as s (terms s a))"
  shows "\<exists>s'. term_switch a b s = Some s' \<and> terms s' = t \<and> cur_term_id s' = b
    \<and> key_buf s' = saved_key_buf (t b) \<and> key_buf_idx s' = saved_key_buf_idx (t b)
    \<and> now_term_id s' = now_term_id s
    \<and> load (mem s') (term_video_mem (terms s a)) 4000 = load (mem s) VIDEO 4000
    \<and> load (mem s') VIDEO 4000
        = (if a = b then load (mem s) VIDEO 4000 else load (mem s) (term_video_mem (terms s b)) 4000)
    \<and> (\<forall>p. p \<notin> page VIDEO \<longrightarrow> p \<notin> page (term_video_mem (terms s a)) \<longrightarrow> mem s' p = mem s p)
    \<and> (unat (cursor_x (t b)) < 80 \<longrightarrow> unat (cursor_y (t b)) < 25 \<longrightarrow>
        screen_x s' = int (unat (cursor_x (t b))) \<and> screen_y s' = int (unat (cursor_y (t b))))
    \<and> scancode_state s' = scancode_state s \<and> ctrl_state s' = ctrl_state s \<and> alt_state s' = alt_state s"
proof -
  let ?va = "term_video_mem (terms s a)" and ?vb = "term_video_mem (terms s b)"
  have l: "length (key_buf s) = 128" "length (saved_key_buf (terms s a)) = 128" "length (saved_key_buf (t b)) = 128"
    using ok assms(1,2) by (auto simp: kbd_ok_def t_def saved_as_def)
  have pa: "page ?va \<inter> page VIDEO = {}" and pb: "page ?vb \<inter> page VIDEO = {}"
    using pages assms(1,2) by (simp_all add: pages_ok_def)
  define s1 where "s1 = (update_term a (saved_as s) s)\<lparr>mem := store (mem s) ?va (load (mem s) VIDEO 4000)\<rparr>"
  have save: "term_save a s = Some s1"
    unfolding s1_def by (subst term_save_eq [OF assms(1) l(1,2) pa]) (simp add: saved_as_def update_term_def)
  have s1: "terms s1 = t" "key_buf s1 = key_buf s" "now_term_id s1 = now_term_id s"
    "scancode_state s1 = scancode_state s" "ctrl_state s1 = ctrl_state s" "alt_state s1 = alt_state s"
    "mem s1 = store (mem s) ?va (load (mem s) VIDEO 4000)"
    by (simp_all add: s1_def t_def fun_eq_iff)
  have vb: "term_video_mem (t b) = ?vb" by (simp add: t_def saved_as_def)
  obtain s' where s': "term_restore b s1 = Some s'" "key_buf s' = saved_key_buf (t b)"
      "key_buf_idx s' = saved_key_buf_idx (t b)" "terms s' = t" "cur_term_id s' = b"
      "now_term_id s' = now_term_id s" 
      "screen_x s' = screen_x (set_screen_cursor (cursor_x (t b)) (cursor_y (t b)) s1)"
      "screen_y s' = screen_y (set_screen_cursor (cursor_x (t b)) (cursor_y (t b)) s1)"
      "load (mem s') VIDEO 4000 = load (mem s1) ?vb 4000" "\<forall>p. p \<notin> page VIDEO \<longrightarrow> mem s' p = mem s1 p"
      "scancode_state s' = scancode_state s" "ctrl_state s' = ctrl_state s" "alt_state s' = alt_state s"
    using term_restore_eq [OF assms(2), of s1] l pb vb by (auto simp: s1)
  have la: "load (mem s1) ?va 4000 = load (mem s) VIDEO 4000" by (simp add: s1(7) load_store)
  have "load (mem s') ?va 4000 = load (mem s1) ?va 4000"
    by (rule nth_equalityI) (use s'(10) pa in auto)
  moreover have "load (mem s1) ?vb 4000 = load (mem s) ?vb 4000" if "a \<noteq> b"
  proof -
    have "disjoint ?vb 4000 ?va 4000"
      using pages assms(1,2) that by (intro disjoint_pages) (simp add: pages_ok_def)
    then show ?thesis by (simp add: s1(7) load_store_disjoint)
  qed
  moreover have "mem s1 p = mem s p" if "p \<notin> page ?va" for p
    using that by (simp add: s1(7) store_outside_run)
  moreover have "term_switch a b s = Some s'" by (simp add: term_switch_def save s'(1))
  ultimately show ?thesis
    using s' la by (intro exI [of _ s']) (auto simp: set_screen_cursor_xy word_less_nat_alt)
qed

lemma term_switch_kbd_ok:
  assumes "a < 3" and "b < 3" and "kbd_ok s" and "pages_ok s" and "cursor_ok s"
  obtains s' where "term_switch a b s = Some s'" "kbd_ok s'" "pages_ok s'" "cur_term_id s' = b"
proof -
  obtain s' where s': "term_switch a b s = Some s'" "terms s' = (terms s)(a := saved_as s (terms s a))"
      "cur_term_id s' = b" "key_buf s' = saved_key_buf (terms s' b)"
      "key_buf_idx s' = saved_key_buf_idx (terms s' b)" "scancode_state s' = scancode_state s"
    using term_switch_eq [OF assms] by metis
  then have "kbd_ok s'" "pages_ok s'"
    using assms(2-4) by (auto simp: kbd_ok_def pages_ok_def saved_as_def)
  with s' that show thesis by blast
qed

section \<open>A keyboard at rest\<close>

definition kbd_boot :: "mem \<Rightarrow> kbd_state" where
  "kbd_boot m = console_state.extend (console_boot m) (kbd_state.fields (replicate 128 0) 0 0 0 0 0 0)"

lemma kbd_boot_simps [simp]:
  "mem (kbd_boot m) = m" "screen_x (kbd_boot m) = 0" "screen_y (kbd_boot m) = 0"
  "video_mem (kbd_boot m) = VIDEO" "cur_term_id (kbd_boot m) = 0" "now_term_id (kbd_boot m) = 1"
  "terms (kbd_boot m) i = no_term\<lparr>term_video_mem := 0xB9000 + of_nat i * 0x1000\<rparr>"
  "key_buf (kbd_boot m) = replicate 128 0" "key_buf_idx (kbd_boot m) = 0"
  "scancode_state (kbd_boot m) = 0" "ctrl_state (kbd_boot m) = 0" "alt_state (kbd_boot m) = 0"
  by (simp_all add: kbd_boot_def console_boot_def paging_boot_def pic_boot_def pic_state.defs
      paging_state.defs console_state.defs kbd_state.defs)

section \<open>The invariant of the terminals\<close>

text \<open>A key buffer holding a line of \<open>n\<close> bytes: no NUL in it, only NULs after it.\<close>

definition line_ok :: "byte list \<Rightarrow> nat \<Rightarrow> bool" where
  "line_ok kb n \<longleftrightarrow> length kb = 128 \<and> n \<le> 128 \<and> (\<forall>i < 128. kb ! i = 0 \<longleftrightarrow> n \<le> i)"

definition key_line :: "'a kbd_state_scheme \<Rightarrow> byte list" where
  "key_line s = take (key_buf_idx s) (key_buf s)"

definition term_ok :: "term_t \<Rightarrow> bool" where
  "term_ok t \<longleftrightarrow> line_ok (saved_key_buf t) (saved_key_buf_idx t)
     \<and> unat (cursor_x t) < 80 \<and> unat (cursor_y t) < 25"

definition terminals_ok :: "'a kbd_state_scheme \<Rightarrow> bool" where
  "terminals_ok s \<longleftrightarrow> line_ok (key_buf s) (key_buf_idx s) \<and> scancode_state s < 4 \<and> cursor_ok s
     \<and> pages_ok s \<and> (\<forall>i < 3. term_ok (terms s i))"

lemma terminals_kbd_ok: "terminals_ok s \<Longrightarrow> kbd_ok s"
  by (simp add: terminals_ok_def kbd_ok_def term_ok_def line_ok_def)

lemma line_ok_empty [simp]: "line_ok (replicate 128 0) 0"
  by (simp add: line_ok_def)

lemma line_ok_append: "line_ok kb n \<Longrightarrow> n < 128 \<Longrightarrow> c \<noteq> 0 \<Longrightarrow> line_ok (kb[n := c]) (Suc n)"
  by (auto simp: line_ok_def nth_list_update)

lemma line_ok_chop: "line_ok kb (Suc n) \<Longrightarrow> line_ok (kb[n := 0]) n"
  by (auto simp: line_ok_def nth_list_update)

lemma line_append: "n < length kb \<Longrightarrow> take (Suc n) (kb[n := c]) = take n kb @ [c]"
  by (simp add: take_Suc_conv_app_nth)

lemma line_chop: "n < length kb \<Longrightarrow> take n (kb[n := c]) = butlast (take (Suc n) kb)"
  by (simp add: take_Suc_conv_app_nth)

lemma cursor_on_screen:
  "cursor_ok s \<Longrightarrow> unat (word_of_int (screen_x s) :: u32) = nat (screen_x s)"
  "cursor_ok s \<Longrightarrow> unat (word_of_int (screen_y s) :: u32) = nat (screen_y s)"
  by (simp_all add: cursor_ok_def unat_eq_nat_uint uint_word_of_int)

lemma saved_as_ok: "terminals_ok s \<Longrightarrow> term_ok (saved_as s t)"
  by (auto simp: terminals_ok_def term_ok_def saved_as_def cursor_on_screen) (auto simp: cursor_ok_def)

lemma term_switch_terminals_ok:
  assumes "a < 3" and "b < 3" and ok: "terminals_ok s"
  shows "\<exists>s'. term_switch a b s = Some s' \<and> terminals_ok s' \<and> cur_term_id s' = b
    \<and> screen_x s' = int (unat (cursor_x (terms s' b))) \<and> screen_y s' = int (unat (cursor_y (terms s' b)))"
proof -
  have 1: "kbd_ok s" "pages_ok s" "cursor_ok s" "\<forall>i < 3. term_ok (terms s i)" "scancode_state s < 4"
    using ok terminals_kbd_ok [OF ok] by (auto simp: terminals_ok_def)
  define t where "t = (terms s)(a := saved_as s (terms s a))"
  have t: "\<forall>i < 3. term_ok (t i)" using 1(4) saved_as_ok [OF ok] by (simp add: t_def)
  then have xy: "unat (cursor_x (t b)) < 80" "unat (cursor_y (t b)) < 25" "line_ok (saved_key_buf (t b)) (saved_key_buf_idx (t b))"
    using assms(2) by (auto simp: term_ok_def)
  obtain s' where s': "term_switch a b s = Some s'" "terms s' = t" "cur_term_id s' = b"
      "key_buf s' = saved_key_buf (t b)" "key_buf_idx s' = saved_key_buf_idx (t b)"
      "screen_x s' = int (unat (cursor_x (t b)))" "screen_y s' = int (unat (cursor_y (t b)))"
      "scancode_state s' = scancode_state s"
    using term_switch_eq [OF assms(1,2) 1(1-3)] xy unfolding t_def [symmetric] by blast
  have "pages_ok s'" using 1(2) s'(2) by (simp add: pages_ok_def t_def saved_as_def)
  moreover have "cursor_ok s'" using xy(1,2) unfolding cursor_ok_def s'(6,7) by linarith
  ultimately show ?thesis using s' xy t 1(5) by (simp add: terminals_ok_def)
qed

section \<open>Reading a line\<close>

lemma term_read_copy_stores:
  "i + length l = n \<Longrightarrow> n \<le> 128 \<Longrightarrow> length kb = 128 \<Longrightarrow> l = drop i (take n kb) \<Longrightarrow> 0 \<notin> set l \<Longrightarrow>
    int n \<le> len \<Longrightarrow> (n < 128 \<Longrightarrow> int n < len \<Longrightarrow> kb ! n = 0) \<Longrightarrow>
    term_read_copy kb buf len i m = (n, store m (buf + of_nat i) l)"
proof (induction l arbitrary: i m)
  case Nil
  then show ?case by (subst term_read_copy.simps) (auto simp: KEY_BUF_MAX_def)
next
  case (Cons c l)
  from Cons.prems(1) have i: "i < n" by simp
  have c: "kb ! i = c" "l = drop (Suc i) (take n kb)"
    using Cons.prems(2,3,4) i Cons_nth_drop_Suc [of i "take n kb", symmetric] by (simp_all add: min_def)
  have z: "0 \<notin> set l" "c \<noteq> 0" using Cons.prems(5) by auto
  have "term_read_copy kb buf len (Suc i) (m(buf + of_nat i := c))
      = (n, store (m(buf + of_nat i := c)) (buf + of_nat (Suc i)) l)"
    using Cons.prems(1,7) by (intro Cons.IH [OF _ Cons.prems(2,3) c(2) z(1) Cons.prems(6)]) auto
  moreover have "store (m(buf + of_nat i := c)) (buf + of_nat (Suc i)) l = store m (buf + of_nat i) ([c] @ l)"
    using store_append [of "[c]" l m "buf + of_nat i"] Cons.prems(1,2) by (simp add: ac_simps)
  ultimately show ?case
    using i Cons.prems(2,6) c(1) z(2) by (subst term_read_copy.simps) (simp add: KEY_BUF_MAX_def)
qed

lemma term_read_copy_line:
  assumes "line_ok kb n" and "0 \<le> len"
  shows "term_read_copy kb buf len 0 m
    = (min n (nat len), store m buf (take (min n (nat len)) kb))"
proof -
  have "0 \<notin> set (take (min n (nat len)) kb)"
    using assms(1) by (auto simp: line_ok_def in_set_conv_nth)
  then show ?thesis
    using term_read_copy_stores [of 0 "take (min n (nat len)) kb" "min n (nat len)" kb len buf m] assms
    by (auto simp: line_ok_def)
qed

text \<open>After the wait the line is copied, up to the caller's length, and the buffer is emptied.\<close>

lemma term_read_line:
  assumes "buf \<noteq> 0" and "0 \<le> len" and "line_ok (key_buf s1) (key_buf_idx s1)"
    and "wait_while (\<lambda>s. enter_state (now_term s) = 0) irqs (sti s) = Some s1"
  shows "term_read irqs buf len s = Some (int (min (length (key_line s1)) (nat len)),
    (update_term (now_term_id s1) (\<lambda>t. t\<lparr>enter_state := 0\<rparr>) s1)
      \<lparr>mem := store (mem s1) buf (take (nat len) (key_line s1)), key_buf := replicate 128 0, key_buf_idx := 0\<rparr>)"
proof -
  have l: "length (key_buf s1) = 128" "key_buf_idx s1 \<le> 128" using assms(3) by (auto simp: line_ok_def)
  show ?thesis
    using assms l by (simp add: term_read_def Let_def term_read_copy_line buf_clear_eq key_line_def min.commute)
qed

lemma load_eq_on: "load m a n = load m' b n \<Longrightarrow> i < n \<Longrightarrow> m (a + of_nat i) = m' (b + of_nat i)"
  by (simp add: load_def)

text \<open>Away and back: the first terminal's record holds what was saved, the other's is as it was.\<close>

lemma term_switch_back:
  assumes "a < 3" and "b < 3" and "a \<noteq> b" and ok: "terminals_ok s"
  shows "\<exists>s1 s2. term_switch a b s = Some s1 \<and> term_switch b a s1 = Some s2
    \<and> load (mem s1) VIDEO 4000 = load (mem s) (term_video_mem (terms s b)) 4000
    \<and> terms s2 = (terms s)(a := saved_as s (terms s a)) \<and> cur_term_id s2 = a
    \<and> key_buf s2 = key_buf s \<and> key_buf_idx s2 = key_buf_idx s
    \<and> screen_x s2 = screen_x s \<and> screen_y s2 = screen_y s
    \<and> (\<forall>p. p \<notin> page (term_video_mem (terms s a)) \<longrightarrow> mem s2 p = mem s p)"
proof -
  have 1: "kbd_ok s" "pages_ok s" "cursor_ok s" "term_ok (terms s b)"
    using ok terminals_kbd_ok [OF ok] assms(2) by (auto simp: terminals_ok_def)
  define t where "t = (terms s)(a := saved_as s (terms s a))"
  let ?va = "term_video_mem (terms s a)" and ?vb = "term_video_mem (terms s b)"
  have t: "t b = terms s b" "t a = saved_as s (terms s a)" using assms(3) by (simp_all add: t_def)
  obtain s1 where s1: "term_switch a b s = Some s1" "terms s1 = t" "cur_term_id s1 = b"
      "key_buf s1 = saved_key_buf (t b)" "key_buf_idx s1 = saved_key_buf_idx (t b)"
      "load (mem s1) ?va 4000 = load (mem s) VIDEO 4000"
      "load (mem s1) VIDEO 4000 = load (mem s) ?vb 4000"
      "\<forall>p. p \<notin> page VIDEO \<longrightarrow> p \<notin> page ?va \<longrightarrow> mem s1 p = mem s p"
      "screen_x s1 = int (unat (cursor_x (t b)))" "screen_y s1 = int (unat (cursor_y (t b)))"
    using term_switch_eq [OF assms(1,2) 1(1-3)] 1(4) assms(3)
    unfolding t_def [symmetric] t(1) [symmetric] term_ok_def by fastforce
  have ok1: "terminals_ok s1" using term_switch_terminals_ok [OF assms(1,2) ok] s1(1) by auto
  then have 2: "kbd_ok s1" "pages_ok s1" "cursor_ok s1"
    using terminals_kbd_ok [OF ok1] by (auto simp: terminals_ok_def)
  have "saved_as s1 (terms s1 b) = terms s b"
    using s1 t by (simp add: saved_as_def)
  then have t2: "(terms s1)(b := saved_as s1 (terms s1 b)) = t" using s1(2) t(1) by auto
  have xy: "unat (cursor_x (t a)) < 80" "unat (cursor_y (t a)) < 25"
      "int (unat (cursor_x (t a))) = screen_x s" "int (unat (cursor_y (t a))) = screen_y s"
    using 1(3) saved_as_ok [OF ok] cursor_on_screen [OF 1(3)]
    by (auto simp: t(2) term_ok_def saved_as_def cursor_ok_def simp del: of_nat_unat)
  have va: "term_video_mem (terms s1 a) = ?va" "term_video_mem (terms s1 b) = ?vb"
    using s1(2) t by (simp_all add: saved_as_def)
  obtain s2 where s2: "term_switch b a s1 = Some s2" "terms s2 = t" "cur_term_id s2 = a"
      "key_buf s2 = saved_key_buf (t a)" "key_buf_idx s2 = saved_key_buf_idx (t a)"
      "load (mem s2) ?vb 4000 = load (mem s1) VIDEO 4000"
      "load (mem s2) VIDEO 4000 = load (mem s1) ?va 4000"
      "\<forall>p. p \<notin> page VIDEO \<longrightarrow> p \<notin> page ?vb \<longrightarrow> mem s2 p = mem s1 p"
      "screen_x s2 = screen_x s" "screen_y s2 = screen_y s"
    using term_switch_eq [OF assms(2,1) 2] xy assms(3)
    unfolding t2 va by fastforce
  have "mem s2 p = mem s p" if p: "p \<notin> page ?va" for p
  proof (cases "p \<in> page VIDEO \<or> p \<in> page ?vb")
    case True
    then obtain i where "i < 4000" "p = VIDEO + of_nat i \<or> p = ?vb + of_nat i" by blast
    then show ?thesis
      using load_eq_on [OF trans [OF s2(7) s1(6)]] load_eq_on [OF trans [OF s2(6) s1(7)]] by metis
  qed (use s1(8) s2(8) p in auto)
  with s1 s2 t show ?thesis
    unfolding t_def [symmetric] by (intro exI [of _ s1] exI [of _ s2]) (simp add: saved_as_def)
qed

definition page_no :: "nat \<Rightarrow> addr" where "page_no i = 0xB8000 + of_nat i * 0x1000"

lemma pages_apart: "i < 4 \<Longrightarrow> j < 4 \<Longrightarrow> i \<noteq> j \<Longrightarrow> page (page_no i) \<inter> page (page_no j) = {}"
proof -
  assume ij: "i < 4" "j < 4" "i \<noteq> j"
  have u: "unat (page_no i) = 0xB8000 + i * 0x1000" if "i < 4" for i
  proof -
    have "page_no i = of_nat (0xB8000 + i * 0x1000)" by (simp add: page_no_def)
    then show ?thesis using that by (simp only: unat_of_nat_u32)
  qed
  have "disjoint (page_no i) 4000 (page_no j) 4000"
    by (rule disjointI) (use ij u [of i] u [of j] in auto)
  then show ?thesis unfolding disjoint_def by blast
qed

lemma kbd_boot_ok [simp]: "terminals_ok (kbd_boot m)"
proof -
  have a: "0xB9000 + of_nat i * 0x1000 = page_no (Suc i)" for i
    by (simp add: page_no_def algebra_simps)
  have v: "VIDEO = page_no 0" by (simp add: page_no_def VIDEO_def)
  have "pages_ok (kbd_boot m)"
    by (simp add: pages_ok_def a v) (simp add: pages_apart)
  then show ?thesis
    by (simp add: terminals_ok_def term_ok_def cursor_ok_def no_term_def)
qed

section \<open>Properties\<close>

text \<open>C14: Switching from one terminal to another and back restores what the user saw: the second
  terminal's page is displayed in between, and afterwards the screen, the cursor, the line being
  typed and every other terminal's record and page are as they were; only the first terminal's
  own page and record have been written.\<close>

theorem term_switch_roundtrip:
  assumes "a < 3" and "b < 3" and "a \<noteq> b" and "terminals_ok s"
  shows "\<exists>s1 s2. term_switch a b s = Some s1 \<and> term_switch b a s1 = Some s2
    \<and> load (mem s1) VIDEO 4000 = load (mem s) (term_video_mem (terms s b)) 4000
    \<and> terms s2 = (terms s)(a := saved_as s (terms s a)) \<and> cur_term_id s2 = a
    \<and> key_buf s2 = key_buf s \<and> key_buf_idx s2 = key_buf_idx s
    \<and> screen_x s2 = screen_x s \<and> screen_y s2 = screen_y s
    \<and> (\<forall>p. p \<notin> page (term_video_mem (terms s a)) \<longrightarrow> mem s2 p = mem s p)"
  by (rule term_switch_back [OF assms])

theorem term_switch_roundtrip_witness:
  "\<exists>s1 s2. term_switch 0 1 (kbd_boot (\<lambda>_. 65)) = Some s1 \<and> term_switch 1 0 s1 = Some s2
    \<and> mem s2 VIDEO = 65 \<and> screen_x s2 = 0"
proof -
  have "VIDEO \<in> page (page_no 0)" by (rule image_eqI [of _ _ 0]) (simp_all add: page_no_def VIDEO_def)
  then have "VIDEO \<notin> page 0xB9000" using pages_apart [of 0 1] by (simp add: page_no_def) blast
  then show ?thesis
    using term_switch_roundtrip [of 0 1 "kbd_boot (\<lambda>_. 65)"] by (simp add: no_term_def) blast
qed

end
