(* ===== verification/Pcb.thy ===== *)
theory Pcb
  imports Terminal
begin

text \<open>
  Process control blocks (\<open>system_call.h\<close>, and the helpers at the end of \<open>system_call.c\<close>). A
  control block lies at the bottom of its process's 8 KB kernel stack, below 8 MB; the code finds
  it by the process number or by masking \<open>ESP\<close>, so the blocks are a function from the address.
  A table of function pointers is a record of the names of the kernel functions it points to.
\<close>

section \<open>File descriptors and control blocks\<close>

datatype read_fun = Term_Read | Rtc_Read | Dir_Read | File_Read | No_Read
datatype write_fun = Term_Write | Rtc_Write | Dir_Write | File_Write | No_Write
datatype open_fun = Term_Open | Rtc_Open | Dir_Open | File_Open | No_Open
datatype close_fun = Term_Close | Rtc_Close | Dir_Close | File_Close | No_Close

record file_optable =
  read_fn :: read_fun
  write_fn :: write_fun
  open_fn :: open_fun
  close_fn :: close_fun

record file_desc =
  optable :: file_optable
  inode :: u32
  file_position :: u32
  flags :: int

definition MAX_FILE_NUM :: nat where "MAX_FILE_NUM = 8"
definition MAX_ARG_LENGTH :: nat where "MAX_ARG_LENGTH = 100"
definition MAX_PCB_MASK_LEN :: nat where "MAX_PCB_MASK_LEN = 4"

text \<open>
  \<open>argbuf\<close> has 100 bytes; the byte after it, the first of \<open>cur_tss\<close>, is a field of its own
  since \<open>execute\<close> writes its terminator there.
\<close>

record pcb =
  fds :: "nat \<Rightarrow> file_desc" \<comment> \<open>\<open>fds[MAX_FILE_NUM]\<close>\<close>
  parent_ksp :: u32
  parent_kbp :: u32
  ksp :: u32
  kbp :: u32
  process_number :: int
  parent_process_number :: int
  argbuf :: "byte list"
  cur_tss_byte0 :: byte
  pcb_term_id :: nat
  rtc_counter :: u32
  rtc_freq :: u32

definition stdin_fop :: file_optable where
  "stdin_fop = \<lparr>read_fn = Term_Read, write_fn = No_Write, open_fn = Term_Open, close_fn = Term_Close\<rparr>"
definition stdout_fop :: file_optable where
  "stdout_fop = \<lparr>read_fn = No_Read, write_fn = Term_Write, open_fn = Term_Open, close_fn = Term_Close\<rparr>"
definition rtc_fop :: file_optable where
  "rtc_fop = \<lparr>read_fn = Rtc_Read, write_fn = Rtc_Write, open_fn = Rtc_Open, close_fn = Rtc_Close\<rparr>"
definition dir_fop :: file_optable where
  "dir_fop = \<lparr>read_fn = Dir_Read, write_fn = Dir_Write, open_fn = Dir_Open, close_fn = Dir_Close\<rparr>"
definition file_fop :: file_optable where
  "file_fop = \<lparr>read_fn = File_Read, write_fn = File_Write, open_fn = File_Open, close_fn = File_Close\<rparr>"
definition error_fop :: file_optable where
  "error_fop = \<lparr>read_fn = No_Read, write_fn = No_Write, open_fn = No_Open, close_fn = No_Close\<rparr>"

section \<open>The process table\<close>

record proc_state = kbd_state +
  pcbs :: "addr \<Rightarrow> pcb"
  PCB_mask :: "nat \<Rightarrow> nat \<Rightarrow> int" \<comment> \<open>\<open>PCB_mask[TERM_MAX][MAX_PCB_MASK_LEN]\<close>\<close>
  tss_esp0 :: u32
  tss_ss0 :: u32
  interrupt_halt_flag :: int
  next_term_id :: nat
  prev_term_id :: nat

definition get_cur_pcb :: "'a machine_scheme \<Rightarrow> addr" where
  "get_cur_pcb s = esp s AND 0xFFFFE000"

definition get_pcb_from_id :: "byte \<Rightarrow> addr" where
  "get_pcb_from_id i = 0x800000 - (ucast i + 1) * 0x2000"

text \<open>The control block of the process running in terminal \<open>i\<close>.\<close>

definition pcb_of_term :: "nat \<Rightarrow> 'a console_state_scheme \<Rightarrow> addr" where
  "pcb_of_term i s = get_pcb_from_id (word_of_int (cur_pcb_id (terms s i) + int i * int MAX_PCB_MASK_LEN))"

abbreviation now_pcb :: "'a proc_state_scheme \<Rightarrow> pcb" where
  "now_pcb s \<equiv> pcbs s (pcb_of_term (now_term_id s) s)"

definition update_pcb :: "addr \<Rightarrow> (pcb \<Rightarrow> pcb) \<Rightarrow> 'a proc_state_scheme \<Rightarrow> 'a proc_state_scheme" where
  "update_pcb a f s = s\<lparr>pcbs := (pcbs s)(a := f (pcbs s a))\<rparr>"

definition update_fd :: "nat \<Rightarrow> (file_desc \<Rightarrow> file_desc) \<Rightarrow> pcb \<Rightarrow> pcb" where
  "update_fd fd f p = p\<lparr>fds := (fds p)(fd := f (fds p fd))\<rparr>"

definition set_mask :: "nat \<Rightarrow> nat \<Rightarrow> int \<Rightarrow> 'a proc_state_scheme \<Rightarrow> 'a proc_state_scheme" where
  "set_mask t i v s = s\<lparr>PCB_mask := (PCB_mask s)(t := (PCB_mask s t)(i := v))\<rparr>"

definition PCB_total_number :: "'a proc_state_scheme \<Rightarrow> int" where
  "PCB_total_number s =
     for_range 0 TERM_MAX (\<lambda>i. for_range 0 MAX_PCB_MASK_LEN
       (\<lambda>j sum. if PCB_mask s i j \<noteq> 0 then sum + 1 else sum)) 0"

text \<open>
  The first free slot of the displayed terminal, unless seven processes would be running. The
  row of a terminal number past 2 is outside the array: \<open>None\<close>.
\<close>

function PCB_process_number_from :: "nat \<Rightarrow> 'a proc_state_scheme \<Rightarrow> int \<times> 'a proc_state_scheme" where
  "PCB_process_number_from i s =
     (if i < MAX_PCB_MASK_LEN
      then if PCB_mask s (cur_term_id s) i = 0
           then let s = set_mask (cur_term_id s) i 1 s
                in if PCB_total_number s > 6 then (-1, set_mask (cur_term_id s) i 0 s)
                   else (int i + int (cur_term_id s) * int MAX_PCB_MASK_LEN, s)
           else PCB_process_number_from (Suc i) s
      else (-1, s))"
  by pat_completeness auto
termination
  by (relation "measure (\<lambda>(i, s). MAX_PCB_MASK_LEN - i)") auto

declare PCB_process_number_from.simps [simp del]

definition PCB_process_number :: "'a proc_state_scheme \<Rightarrow> (int \<times> 'a proc_state_scheme) option" where
  "PCB_process_number s =
     (if cur_term_id s \<ge> TERM_MAX then None else Some (PCB_process_number_from 0 s))"

definition operation_error :: int where "operation_error = -1"

lemma update_pcb_simps [simp]:
  "pcbs (update_pcb a f s) = (pcbs s)(a := f (pcbs s a))" "PCB_mask (update_pcb a f s) = PCB_mask s"
  "terms (update_pcb a f s) = terms s" "now_term_id (update_pcb a f s) = now_term_id s"
  "cur_term_id (update_pcb a f s) = cur_term_id s" "mem (update_pcb a f s) = mem s"
  "esp (update_pcb a f s) = esp s" "ebp (update_pcb a f s) = ebp s" "out_log (update_pcb a f s) = out_log s"
  "next_term_id (update_pcb a f s) = next_term_id s"
  by (simp_all add: update_pcb_def)

lemma pcb_of_term_update_pcb [simp]: "pcb_of_term i (update_pcb a f s) = pcb_of_term i s"
  by (simp add: pcb_of_term_def)

lemma pcb_of_term_sti [simp]: "pcb_of_term i (sti s) = pcb_of_term i s"
  by (simp add: pcb_of_term_def sti_def)

lemma fds_update_fd [simp]: "fds (update_fd fd f p) = (fds p)(fd := f (fds p fd))"
  by (simp add: update_fd_def)

section \<open>An empty process table\<close>

definition no_pcb :: pcb where
  "no_pcb = \<lparr>fds = (\<lambda>_. \<lparr>optable = error_fop, inode = 0, file_position = 0, flags = 0\<rparr>), parent_ksp = 0,
     parent_kbp = 0, ksp = 0, kbp = 0, process_number = 0, parent_process_number = 0,
     argbuf = replicate 100 0, cur_tss_byte0 = 0, pcb_term_id = 0, rtc_counter = 0, rtc_freq = 0\<rparr>"

definition proc_boot :: "mem \<Rightarrow> proc_state" where
  "proc_boot m = kbd_state.extend (kbd_boot m) (proc_state.fields (\<lambda>_. no_pcb) (\<lambda>_ _. 0) 0 0 0 0 0)"

lemma proc_boot_simps [simp]:
  "mem (proc_boot m) = m" "esp (proc_boot m) = 0" "cur_term_id (proc_boot m) = 0" "now_term_id (proc_boot m) = 1"
  "terms (proc_boot m) i = no_term\<lparr>term_video_mem := 0xB9000 + of_nat i * 0x1000\<rparr>"
  "pcbs (proc_boot m) a = no_pcb" "PCB_mask (proc_boot m) t i = 0"
  by (simp_all add: proc_boot_def kbd_boot_def console_boot_def paging_boot_def pic_boot_def pic_state.defs
      paging_state.defs console_state.defs kbd_state.defs proc_state.defs)

lemma least_index:
  fixes P :: "nat \<Rightarrow> bool"
  assumes "\<exists>k < n. P k"
  shows "\<exists>i < n. P i \<and> (\<forall>j < i. \<not> P j)"
proof -
  obtain k where k: "k < n" "P k" using assms by blast
  have "P (LEAST i. P i)" using k(2) by (rule LeastI)
  moreover have "(LEAST i. P i) < n" using Least_le [of P, OF k(2)] k(1) by simp
  ultimately show ?thesis by (blast dest: not_less_Least)
qed

section \<open>First-fit allocation\<close>

text \<open>
  What the descriptor table owes \<open>open\<close> and \<open>close\<close>: a new slot is the first free one,
  \<open>n\<close> stands for none, and releasing a slot frees that slot only. The code keeps these tables as
  flags in an array; the clients need no more than this.
\<close>

locale first_fit =
  fixes n :: nat
    and used :: "'s \<Rightarrow> nat \<Rightarrow> bool"
    and alloc :: "'s \<Rightarrow> nat \<times> 's"
    and release :: "nat \<Rightarrow> 's \<Rightarrow> 's"
  assumes alloc_full: "\<forall>k < n. used s k \<Longrightarrow> alloc s = (n, s)"
    and alloc_first: "k < n \<Longrightarrow> \<not> used s k \<Longrightarrow> \<forall>j < k. used s j \<Longrightarrow>
      fst (alloc s) = k \<and> used (snd (alloc s)) = (used s)(k := True)"
    and release_used: "k < n \<Longrightarrow> used (release k s) = (used s)(k := False)"
begin

lemma alloc_cases:
  obtains (full) "\<forall>k < n. used s k" "alloc s = (n, s)"
  | (slot) k s' where "k < n" "\<not> used s k" "\<forall>j < k. used s j" "alloc s = (k, s')"
      "used s' = (used s)(k := True)"
proof (cases "\<exists>k < n. \<not> used s k")
  case True
  from least_index [OF this] obtain k where k: "k < n" "\<not> used s k" "\<forall>j < k. used s j" by blast
  with alloc_first [OF this] show thesis by (cases "alloc s") (auto intro: slot)
qed (use alloc_full [of s] in \<open>auto intro: full\<close>)

lemma alloc_some_iff: "fst (alloc s) < n \<longleftrightarrow> (\<exists>k < n. \<not> used s k)"
  by (rule alloc_cases [of s]) auto

lemma alloc_counts:
  assumes "fst (alloc s) < n"
  shows "card {k. k < n \<and> used (snd (alloc s)) k} = Suc (card {k. k < n \<and> used s k})"
proof (rule alloc_cases [of s])
  fix k s' assume k: "k < n" "\<not> used s k" "alloc s = (k, s')" "used s' = (used s)(k := True)"
  then have "{j. j < n \<and> used s' j} = insert k {j. j < n \<and> used s j}" by auto
  then show ?thesis using k by simp
qed (use assms in auto)

lemma alloc_release:
  "alloc s = (k, s') \<Longrightarrow> k < n \<Longrightarrow> used (release k s') = used s"
  by (rule alloc_cases [of s]) (auto simp: release_used fun_eq_iff)

lemma release_alloc:
  assumes "k < n" and "\<forall>j < k. used s j"
  shows "fst (alloc (release k s)) = k"
  using assms alloc_first [of k "release k s"] by (simp add: release_used)

end

section \<open>The allocation of process numbers\<close>

definition used_slots :: "'a proc_state_scheme \<Rightarrow> (nat \<times> nat) set" where
  "used_slots s = {(t, i). t < 3 \<and> i < 4 \<and> PCB_mask s t i \<noteq> 0}"

lemma finite_used_slots [simp]: "finite (used_slots s)"
  by (rule finite_subset [of _ "{..<3} \<times> {..<4}"]) (auto simp: used_slots_def)

lemma for_range_count:
  "for_range 0 n (\<lambda>j sum. if P j then sum + 1 else sum) a = a + int (card {j. j < n \<and> P j})"
proof (induction n)
  case (Suc n)
  have "{j. j < Suc n \<and> P j} = (if P n then insert n {j. j < n \<and> P j} else {j. j < n \<and> P j})"
    by (auto simp: less_Suc_eq)
  then show ?case using Suc by (simp add: for_range_Suc)
qed simp

lemma for_range_sum: "for_range 0 n (\<lambda>i sum. sum + int (f i)) a = a + int (\<Sum>i<n. f i)"
  by (induction n) (simp_all add: for_range_Suc)

lemma PCB_total_number_eq: "PCB_total_number s = int (card (used_slots s))"
proof -
  have "used_slots s = (SIGMA t:{..<3}. {i. i < 4 \<and> PCB_mask s t i \<noteq> 0})"
    by (auto simp: used_slots_def)
  moreover have "for_range 0 4 (\<lambda>j sum. if P j then sum + 1 else sum) = (\<lambda>sum. sum + int (card {j. j < 4 \<and> P j}))"
    for P :: "nat \<Rightarrow> bool" by (rule ext) (rule for_range_count)
  ultimately show ?thesis
    using for_range_sum [of 3 "\<lambda>t. card {i. i < 4 \<and> PCB_mask s t i \<noteq> 0}" 0]
    by (simp add: PCB_total_number_def TERM_MAX_def MAX_PCB_MASK_LEN_def)
qed

lemma set_mask_simps [simp]:
  "PCB_mask (set_mask t i v s) = (PCB_mask s)(t := (PCB_mask s t)(i := v))"
  "cur_term_id (set_mask t i v s) = cur_term_id s" "terms (set_mask t i v s) = terms s"
  "pcbs (set_mask t i v s) = pcbs s" "now_term_id (set_mask t i v s) = now_term_id s"
  "mem (set_mask t i v s) = mem s"
  by (simp_all add: set_mask_def)

lemma used_slots_set_mask:
  "t < 3 \<Longrightarrow> i < 4 \<Longrightarrow> used_slots (set_mask t i v s)
     = (if v = 0 then used_slots s - {(t, i)} else insert (t, i) (used_slots s))"
  by (auto simp: used_slots_def split: if_splits)

lemma PCB_process_number_from_skip:
  "\<forall>j. i \<le> j \<longrightarrow> j < k \<longrightarrow> PCB_mask s (cur_term_id s) j \<noteq> 0 \<Longrightarrow> i \<le> k \<Longrightarrow> k \<le> 4 \<Longrightarrow>
    PCB_process_number_from i s = PCB_process_number_from k s"
proof (induction "k - i" arbitrary: i)
  case (Suc n)
  then have "i < k" "PCB_mask s (cur_term_id s) i \<noteq> 0" by simp_all
  then have "PCB_process_number_from i s = PCB_process_number_from (Suc i) s"
    using Suc.prems(3) by (subst PCB_process_number_from.simps) (simp add: MAX_PCB_MASK_LEN_def)
  also have "\<dots> = PCB_process_number_from k s"
    using Suc by (intro Suc.hyps(1)) auto
  finally show ?case .
qed simp

text \<open>The search: no slot of the displayed terminal is free, or the first one is taken if that
  makes at most six processes.\<close>

lemma PCB_process_number_full:
  assumes "cur_term_id s < 3" and "\<forall>i < 4. PCB_mask s (cur_term_id s) i \<noteq> 0"
  shows "PCB_process_number s = Some (-1, s)"
  using assms PCB_process_number_from_skip [of 0 4 s]
  by (simp add: PCB_process_number_def TERM_MAX_def PCB_process_number_from.simps [of 4] MAX_PCB_MASK_LEN_def)

lemma PCB_process_number_found:
  assumes "cur_term_id s < 3" and i: "i < 4" "PCB_mask s (cur_term_id s) i = 0"
    and "\<forall>j < i. PCB_mask s (cur_term_id s) j \<noteq> 0"
  shows "PCB_process_number s = Some
    (if card (used_slots s) \<ge> 6 then (-1, set_mask (cur_term_id s) i 0 (set_mask (cur_term_id s) i 1 s))
     else (int i + int (cur_term_id s) * 4, set_mask (cur_term_id s) i 1 s))"
proof -
  have "(cur_term_id s, i) \<notin> used_slots s" using i by (simp add: used_slots_def)
  then have "PCB_total_number (set_mask (cur_term_id s) i 1 s) = int (Suc (card (used_slots s)))"
    using assms(1) i(1) by (simp add: PCB_total_number_eq used_slots_set_mask)
  then have "PCB_process_number_from i s =
    (if card (used_slots s) \<ge> 6 then (-1, set_mask (cur_term_id s) i 0 (set_mask (cur_term_id s) i 1 s))
     else (int i + int (cur_term_id s) * 4, set_mask (cur_term_id s) i 1 s))"
    using i by (subst PCB_process_number_from.simps) (simp add: MAX_PCB_MASK_LEN_def Let_def)
  then show ?thesis
    using assms PCB_process_number_from_skip [of 0 i s] by (simp add: PCB_process_number_def TERM_MAX_def)
qed

lemma set_mask_undo: "PCB_mask s t i = v \<Longrightarrow> set_mask t i v (set_mask t i w s) = s"
proof -
  assume "PCB_mask s t i = v"
  then have "(PCB_mask s)(t := (PCB_mask s t)(i := v)) = PCB_mask s" by (auto simp: fun_eq_iff)
  then show ?thesis by (simp add: set_mask_def)
qed

lemma PCB_process_number_given:
  assumes "PCB_process_number s = Some (n, s')" and "n \<noteq> -1"
  obtains i where "i < 4" "cur_term_id s < 3" "PCB_mask s (cur_term_id s) i = 0" "n = int i + int (cur_term_id s) * 4"
    "s' = set_mask (cur_term_id s) i 1 s" "card (used_slots s) < 6" "\<forall>j < i. PCB_mask s (cur_term_id s) j \<noteq> 0"
proof -
  have c: "cur_term_id s < 3" using assms(1) by (auto simp: PCB_process_number_def TERM_MAX_def split: if_splits)
  have "\<exists>i < 4. PCB_mask s (cur_term_id s) i = 0"
    using PCB_process_number_full [OF c] assms by auto
  from least_index [OF this] obtain i where
    i: "i < 4" "PCB_mask s (cur_term_id s) i = 0" "\<forall>j < i. PCB_mask s (cur_term_id s) j \<noteq> 0" by blast
  show thesis
    using PCB_process_number_found [OF c i] assms i c by (intro that [of i]) (auto split: if_splits)
qed

section \<open>Properties\<close>

text \<open>C23: A process number is the first free slot of the displayed terminal, four to a terminal;
  none is given when the terminal's four are taken or when six processes run in all, and then
  the table is as it was. So there are never more than six processes.\<close>

theorem process_number_allocation:
  assumes "cur_term_id s < 3" and "card (used_slots s) \<le> 6"
  shows "\<exists>r s'. PCB_process_number s = Some (r, s') \<and> card (used_slots s') \<le> 6
    \<and> (r = -1 \<longleftrightarrow> (\<forall>i < 4. PCB_mask s (cur_term_id s) i \<noteq> 0) \<or> card (used_slots s) = 6)
    \<and> (if r = -1 then s' = s
       else \<exists>i < 4. r = int (i + 4 * cur_term_id s) \<and> PCB_mask s (cur_term_id s) i = 0
         \<and> (\<forall>j < i. PCB_mask s (cur_term_id s) j \<noteq> 0)
         \<and> used_slots s' = insert (cur_term_id s, i) (used_slots s))"
proof (cases "\<forall>i < 4. PCB_mask s (cur_term_id s) i \<noteq> 0")
  case True
  then show ?thesis using PCB_process_number_full [OF assms(1)] assms(2) by simp
next
  case False
  from False have "\<exists>k < 4. PCB_mask s (cur_term_id s) k = 0" by blast
  from least_index [OF this] obtain i
    where i: "PCB_mask s (cur_term_id s) i = 0" "i < 4" "\<forall>j < i. PCB_mask s (cur_term_id s) j \<noteq> 0" by blast
  show ?thesis
  proof (cases "card (used_slots s) = 6")
    case True
    then show ?thesis
      using PCB_process_number_found [OF assms(1) i(2,1,3)] set_mask_undo [OF i(1)] by simp
  next
    case less: False
    let ?s1 = "set_mask (cur_term_id s) i 1 s" and ?r = "int i + int (cur_term_id s) * 4"
    have u: "used_slots ?s1 = insert (cur_term_id s, i) (used_slots s)"
      using assms(1) i(2) by (simp add: used_slots_set_mask)
    have c: "card (used_slots ?s1) \<le> 6" using assms(2) less unfolding u by (simp add: card_insert_if)
    have n: "?r \<noteq> -1" by simp
    have x: "\<exists>i < 4. ?r = int (i + 4 * cur_term_id s) \<and> PCB_mask s (cur_term_id s) i = 0
         \<and> (\<forall>j < i. PCB_mask s (cur_term_id s) j \<noteq> 0) \<and> used_slots ?s1 = insert (cur_term_id s, i) (used_slots s)"
      using i by (intro exI [of _ i] conjI u) simp_all
    have p: "PCB_process_number s = Some (?r, ?s1)"
      using PCB_process_number_found [OF assms(1) i(2,1,3)] assms(2) less by simp
    show ?thesis
      by (rule exI [of _ ?r], rule exI [of _ ?s1]) (simp only: p c n x False less if_False simp_thms)
  qed
qed

theorem process_number_allocation_witness:
  "\<exists>s'. PCB_process_number (set_mask 0 0 1 (proc_boot (\<lambda>_. 0))) = Some (1, s') \<and> card (used_slots s') \<le> 6"
proof -
  let ?s = "set_mask 0 0 1 (proc_boot (\<lambda>_. 0))"
  have m: "PCB_mask ?s 0 i = (if i = 0 then 1 else 0)" "cur_term_id ?s = 0" for i by simp_all
  have u: "used_slots ?s = {(0, 0)}" by (auto simp: used_slots_def split: if_splits)
  have c: "card {(0 :: nat, 0 :: nat)} \<le> 6" by simp
  obtain r s' where r: "PCB_process_number ?s = Some (r, s')" "card (used_slots s') \<le> 6"
      "r = -1 \<longleftrightarrow> (\<forall>i < (4 :: nat). (if i = 0 then 1 else 0 :: int) \<noteq> 0) \<or> card {(0 :: nat, 0 :: nat)} = 6"
      "if r = -1 then s' = ?s else \<exists>i < 4. r = int (i + 4 * 0) \<and> (if i = 0 then 1 else 0 :: int) = 0
         \<and> (\<forall>j < i. (if j = 0 then 1 else 0 :: int) \<noteq> 0) \<and> used_slots s' = insert (0, i) {(0, 0)}"
    using process_number_allocation [of ?s, unfolded m u, OF zero_less_numeral c] by (elim exE conjE) (rule that)
  have "\<not> (\<forall>i < (4 :: nat). (if i = 0 then 1 else 0 :: int) \<noteq> 0)"
    by (rule notI, drule spec [of _ 1]) simp
  then have "r \<noteq> -1" using r(3) unfolding u by simp
  with r(4) obtain i where i: "r = int i" "i \<noteq> 0" "\<forall>j < i. j = 0"
    by (auto split: if_splits)
  then have "r = 1" by (cases "1 < i") auto
  with r(1,2) show ?thesis by blast
qed

end
