(* ===== verification/File_System.thy ===== *)
theory File_System
  imports Pcb
begin

text \<open>
  The read-only file system (\<open>file_system.c\<close>). The image is a run of the memory: a boot block
  with the directory, one block per inode, the data blocks. The module's pointers into it are
  addresses, and every access is a memory read at the address the C expression has, also
  where the code does not check the index. \<open>fs_files\<close> and the predicates on it say what a
  well-formed image holds, and the operations are specified by it.
\<close>

section \<open>State and layout\<close>

definition MAX_FILE_DENTRIES :: nat where "MAX_FILE_DENTRIES = 63"
definition MAX_FILENAME_LENGTH :: u32 where "MAX_FILENAME_LENGTH = 32"
definition FS_BLOCK_SIZE :: u32 where "FS_BLOCK_SIZE = 4096"
definition FS_STATS_SIZE :: u32 where "FS_STATS_SIZE = 64"

lemmas fs_sizes [simp] = MAX_FILE_DENTRIES_def MAX_FILENAME_LENGTH_def FS_BLOCK_SIZE_def FS_STATS_SIZE_def

record bootblock =
  num_dentries :: u32
  num_inodes :: u32
  num_datablocks :: u32
  reserved :: "byte list"

record fs_state = proc_state +
  dentry_number :: u32
  inode_number :: u32
  block_number :: u32
  bootblk :: bootblock
  fs_dentry :: addr
  inodeblk :: addr
  first_datablk :: addr
  num_file_read :: u32
  flag_file_read :: u32

text \<open>
  The \<open>memcpy\<close> of 64 bytes into \<open>bootblk\<close> fills its fields. The fields of a \<open>dentry_t\<close> at \<open>a\<close>
  and the addresses of the arrays' elements follow.
\<close>

definition dentry_filetype :: "mem \<Rightarrow> addr \<Rightarrow> u32" where
  "dentry_filetype m a = load32 m (a + 32)"

definition dentry_inode :: "mem \<Rightarrow> addr \<Rightarrow> u32" where
  "dentry_inode m a = load32 m (a + 36)"

definition dentry_addr :: "'a fs_state_scheme \<Rightarrow> u32 \<Rightarrow> addr" where
  "dentry_addr s index = fs_dentry s + index * 64"

definition inode_size :: "'a fs_state_scheme \<Rightarrow> mem \<Rightarrow> u32 \<Rightarrow> u32" where
  "inode_size s m i = load32 m (inodeblk s + i * 4096)"

definition inode_block :: "'a fs_state_scheme \<Rightarrow> mem \<Rightarrow> u32 \<Rightarrow> u32 \<Rightarrow> u32" where
  "inode_block s m i k = load32 m (inodeblk s + i * 4096 + 4 + k * 4)"

definition store32 :: "mem \<Rightarrow> addr \<Rightarrow> u32 \<Rightarrow> mem" where
  "store32 m a v = store m a (dword_bytes v)"

section \<open>Operations\<close>

definition fs_init :: "addr \<Rightarrow> addr \<Rightarrow> 'a fs_state_scheme \<Rightarrow> int \<times> 'a fs_state_scheme" where
  "fs_init fs_start_addr fs_end_addr s =
     (if fs_start_addr = 0 \<or> fs_end_addr = 0 then (-1, s)
      else
        let s = s\<lparr>dentry_number := load32 (mem s) fs_start_addr\<rparr>;
            s = s\<lparr>inode_number := load32 (mem s) (fs_start_addr + 4)\<rparr>;
            s = s\<lparr>block_number := load32 (mem s) (fs_start_addr + 8)\<rparr>
        in if load32 (mem s) fs_start_addr > of_nat MAX_FILE_DENTRIES then (-1, s)
           else
             let s = s\<lparr>bootblk := \<lparr>num_dentries = load32 (mem s) fs_start_addr,
                                   num_inodes = load32 (mem s) (fs_start_addr + 4),
                                   num_datablocks = load32 (mem s) (fs_start_addr + 8),
                                   reserved = load (mem s) (fs_start_addr + 12) 52\<rparr>\<rparr>;
                 s = s\<lparr>fs_dentry := fs_start_addr + FS_STATS_SIZE\<rparr>;
                 s = s\<lparr>inodeblk := fs_start_addr + FS_BLOCK_SIZE\<rparr>;
                 s = s\<lparr>first_datablk := fs_start_addr + (num_inodes (bootblk s) + 1) * FS_BLOCK_SIZE\<rparr>
             in (0, s\<lparr>num_file_read := 0, flag_file_read := 1\<rparr>))"

text \<open>The three assignments that copy a directory entry to \<open>*dentry\<close>.\<close>

definition copy_dentry :: "addr \<Rightarrow> addr \<Rightarrow> mem \<Rightarrow> mem option" where
  "copy_dentry dentry src m = do {
     m \<leftarrow> strcpy m dentry src;
     let m = store32 m (dentry + 32) (dentry_filetype m src)
     in Some (store32 m (dentry + 36) (dentry_inode m src))
   }"

function read_dentry_from ::
  "addr \<Rightarrow> addr \<Rightarrow> u32 \<Rightarrow> nat \<Rightarrow> 'a fs_state_scheme \<Rightarrow> (int \<times> 'a fs_state_scheme) option" where
  "read_dentry_from fname dentry f1_length index s =
     (if index < MAX_FILE_DENTRIES then do {
        f2_length \<leftarrow> strlen (mem s) (dentry_addr s (of_nat index));
        let name = dentry_addr s (of_nat index);
            f2_length = (if sint f2_length \<ge> sint MAX_FILENAME_LENGTH then MAX_FILENAME_LENGTH else f2_length)
        in if strncmp (mem s) name fname f1_length = 0 \<and> strncmp (mem s) name fname f2_length = 0
              \<and> mem s fname \<noteq> 0
           then do { m \<leftarrow> copy_dentry dentry name (mem s); Some (0, s\<lparr>mem := m\<rparr>) }
           else read_dentry_from fname dentry f1_length (Suc index) s
      }
      else Some (-1, s))"
  by pat_completeness auto
termination
  by (relation "measure (\<lambda>(fname, dentry, f1, index, s). MAX_FILE_DENTRIES - index)") auto

declare read_dentry_from.simps [simp del]

definition read_dentry_by_name ::
  "addr \<Rightarrow> addr \<Rightarrow> 'a fs_state_scheme \<Rightarrow> (int \<times> 'a fs_state_scheme) option" where
  "read_dentry_by_name fname dentry s =
     (if fname = 0 \<or> dentry = 0 then Some (-1, s)
      else do { f1_length \<leftarrow> strlen (mem s) fname; read_dentry_from fname dentry f1_length 0 s })"

definition read_dentry_by_index ::
  "u32 \<Rightarrow> addr \<Rightarrow> 'a fs_state_scheme \<Rightarrow> (int \<times> 'a fs_state_scheme) option" where
  "read_dentry_by_index index dentry s =
     (if dentry = 0 then Some (-1, s)
      else if index < of_nat MAX_FILE_DENTRIES
      then do { m \<leftarrow> copy_dentry dentry (dentry_addr s index) (mem s); Some (0, s\<lparr>mem := m\<rparr>) }
      else Some (-1, s))"

text \<open>
  The copy loop of \<open>read_data\<close>. \<open>done\<close> is \<open>copied_bytes_done\<close>; the block index of the inode is
  read, and checked against the number of data blocks, only when a block has been used up.
\<close>

function read_data_loop ::
  "'a fs_state_scheme \<Rightarrow> u32 \<Rightarrow> u32 \<Rightarrow> addr \<Rightarrow> nat \<Rightarrow> nat \<Rightarrow> u32 \<Rightarrow> u32 \<Rightarrow> addr \<Rightarrow> mem \<Rightarrow> int \<times> mem" where
  "read_data_loop s ino offset buf len copied cur_datablk byte_in_blk cur_addr m =
     (if copied < len then
        let wrap = byte_in_blk \<ge> FS_BLOCK_SIZE;
            cur_datablk = (if wrap then cur_datablk + 1 else cur_datablk);
            byte_in_blk = (if wrap then 0 else byte_in_blk)
        in if wrap \<and> inode_block s m ino cur_datablk \<ge> num_datablocks (bootblk s) then (-1, m)
           else
             let cur_addr = (if wrap then first_datablk s + inode_block s m ino cur_datablk * FS_BLOCK_SIZE
                             else cur_addr)
             in if of_nat copied + offset \<ge> inode_size s m ino
                then (sint (of_nat copied :: u32), m)
                else read_data_loop s ino offset buf len (Suc copied) cur_datablk (byte_in_blk + 1)
                       (cur_addr + 1) (m(buf + of_nat copied := m cur_addr))
      else (sint (of_nat copied :: u32), m))"
  by pat_completeness auto
termination
  by (relation "measure (\<lambda>(s, i, off, b, len, copied, x). len - copied)") auto

declare read_data_loop.simps [simp del]

definition read_data ::
  "u32 \<Rightarrow> u32 \<Rightarrow> addr \<Rightarrow> u32 \<Rightarrow> 'a fs_state_scheme \<Rightarrow> int \<times> 'a fs_state_scheme" where
  "read_data ino offset buf len s =
     (if buf = 0 then (-1, s)
      else
        let cur_datablk = offset div FS_BLOCK_SIZE;
            byte_in_blk = offset mod FS_BLOCK_SIZE;
            cur_addr = first_datablk s + inode_block s (mem s) ino cur_datablk * FS_BLOCK_SIZE
                         + byte_in_blk;
            (r, m) = read_data_loop s ino offset buf (unat len) 0 cur_datablk byte_in_blk cur_addr (mem s)
        in (r, s\<lparr>mem := m\<rparr>))"

definition file_open :: "addr \<Rightarrow> int" where "file_open file_name = 0"
definition file_write :: "nat \<Rightarrow> addr \<Rightarrow> int \<Rightarrow> int" where "file_write fd buf nbytes = -1"
definition file_close :: "nat \<Rightarrow> int" where "file_close fd = 0"

definition file_read :: "nat \<Rightarrow> addr \<Rightarrow> int \<Rightarrow> 'a fs_state_scheme \<Rightarrow> int \<times> 'a fs_state_scheme" where
  "file_read fd buf nbytes s =
     (let curr_pcb = get_cur_pcb s;
          ino = inode (fds (pcbs s curr_pcb) fd);
          offset = file_position (fds (pcbs s curr_pcb) fd)
      in if fd \<noteq> 0 \<and> buf \<noteq> 0 then
           let (fileposition_increment, s) = read_data ino offset buf (word_of_int nbytes) s;
               s = update_pcb curr_pcb (update_fd fd (\<lambda>f. f\<lparr>file_position :=
                     file_position f + word_of_int fileposition_increment\<rparr>)) s
           in (fileposition_increment, s)
         else (-1, s))"

definition dir_open :: "addr \<Rightarrow> int" where "dir_open file_name = 0"
definition dir_write :: "nat \<Rightarrow> addr \<Rightarrow> int \<Rightarrow> int" where "dir_write fd buf nbytes = -1"
definition dir_close :: "nat \<Rightarrow> int" where "dir_close fd = 0"

definition dir_read :: "nat \<Rightarrow> addr \<Rightarrow> int \<Rightarrow> 'a fs_state_scheme \<Rightarrow> (int \<times> 'a fs_state_scheme) option"
  where
  "dir_read fd buf nbytes s =
     (if buf = 0 then Some (-1, s)
      else if num_file_read s < num_dentries (bootblk s) then do {
        let m = strncpy (mem s) buf (dentry_addr s (num_file_read s)) MAX_FILENAME_LENGTH;
            s = s\<lparr>mem := m, num_file_read := num_file_read s + 1\<rparr>;
            s = s\<lparr>mem := (mem s)(buf + MAX_FILENAME_LENGTH := 0)\<rparr>
        in do { n \<leftarrow> strlen (mem s) buf; Some (sint n, s) }
      }
      else Some (0, s\<lparr>num_file_read := 0\<rparr>))"

text \<open>Looking a name up changes nothing but memory.\<close>

lemma read_dentry_from_frame:
  "read_dentry_from fname dentry f1 index s = Some (r, s') \<Longrightarrow> \<exists>m. s' = s\<lparr>mem := m\<rparr>"
proof (induction fname dentry f1 index s rule: read_dentry_from.induct)
  case (1 fname dentry f1 index s)
  show ?case
    by (use 1(2) in \<open>subst (asm) read_dentry_from.simps\<close>)
      (auto simp: bind_eq_Some_conv Let_def intro: 1(1) exI [of _ "mem s"] split: if_splits)
qed

lemma read_dentry_by_name_frame:
  "read_dentry_by_name fname dentry s = Some (r, s') \<Longrightarrow> \<exists>m. s' = s\<lparr>mem := m\<rparr>"
  by (auto simp: read_dentry_by_name_def bind_eq_Some_conv intro: exI [of _ "mem s"]
      dest: read_dentry_from_frame split: if_splits)

section \<open>What the image holds\<close>

text \<open>
  Byte \<open>j\<close> of a file lies in its block \<open>j div 4096\<close>. \<open>inode_ok\<close>: the size leaves the last entry
  of the block table unused, and the entries up to the one holding the byte after the last name data
  blocks. \<open>file_area\<close> is the memory the file occupies.
\<close>

definition block_addr :: "'a fs_state_scheme \<Rightarrow> mem \<Rightarrow> u32 \<Rightarrow> nat \<Rightarrow> addr" where
  "block_addr s m ino k = first_datablk s + inode_block s m ino (of_nat k) * FS_BLOCK_SIZE"

definition file_size :: "'a fs_state_scheme \<Rightarrow> mem \<Rightarrow> u32 \<Rightarrow> nat" where
  "file_size s m ino = unat (inode_size s m ino)"

definition file_content :: "'a fs_state_scheme \<Rightarrow> mem \<Rightarrow> u32 \<Rightarrow> byte list" where
  "file_content s m ino =
     map (\<lambda>j. m (block_addr s m ino (j div 4096) + of_nat (j mod 4096))) [0..<file_size s m ino]"

definition inode_ok :: "'a fs_state_scheme \<Rightarrow> mem \<Rightarrow> u32 \<Rightarrow> bool" where
  "inode_ok s m ino \<longleftrightarrow> file_size s m ino < 1023 * 4096
     \<and> (\<forall>k \<le> file_size s m ino div 4096. inode_block s m ino (of_nat k) < num_datablocks (bootblk s))"

definition file_area :: "'a fs_state_scheme \<Rightarrow> mem \<Rightarrow> u32 \<Rightarrow> addr set" where
  "file_area s m ino = run (inodeblk s + ino * 4096) 4096
     \<union> (\<Union>k \<le> file_size s m ino div 4096. run (block_addr s m ino k) 4096)"

lemma length_file_content [simp]: "length (file_content s m ino) = file_size s m ino"
  by (simp add: file_content_def)

lemma nth_file_content: "j < file_size s m ino \<Longrightarrow> file_content s m ino ! j
    = m (block_addr s m ino (j div 4096) + of_nat (j mod 4096))"
  by (simp add: file_content_def)

text \<open>What a write outside the file's area leaves alone.\<close>

lemma inode_size_cong:
  assumes "\<And>x. x \<in> file_area s m0 ino \<Longrightarrow> m x = m0 x"
  shows "inode_size s m ino = inode_size s m0 ino"
  unfolding inode_size_def
proof (rule load32_cong)
  fix x assume "x \<in> run (inodeblk s + ino * 4096) 4"
  then have "x \<in> run (inodeblk s + ino * 4096) 4096" by auto
  then show "m x = m0 x" by (intro assms) (simp add: file_area_def)
qed

lemma inode_block_cong:
  assumes "\<And>x. x \<in> file_area s m0 ino \<Longrightarrow> m x = m0 x" and "k < 1023"
  shows "inode_block s m ino (of_nat k) = inode_block s m0 ino (of_nat k)"
  unfolding inode_block_def
proof (rule load32_cong)
  fix x assume "x \<in> run (inodeblk s + ino * 4096 + 4 + of_nat k * 4) 4"
  moreover have "inodeblk s + ino * 4096 + 4 + of_nat k * 4 = inodeblk s + ino * 4096 + of_nat (4 + k * 4)"
    by simp
  ultimately have "x \<in> run (inodeblk s + ino * 4096) 4096"
    using run_subset [of "4 + k * 4" 4 4096 "inodeblk s + ino * 4096"] assms(2) by auto
  then show "m x = m0 x" by (intro assms(1)) (simp add: file_area_def)
qed

text \<open>One turn of the loop, at byte \<open>p\<close> of the file, once the block index has been advanced.\<close>

lemma read_data_loop_step:
  fixes s :: "'a fs_state_scheme" and c b :: nat and ca :: addr and ino :: u32 and m :: mem
  assumes "copied < len" and "b \<le> 4096"
  defines "wrap \<equiv> b = 4096"
  defines "c' \<equiv> (if wrap then Suc c else c)" and "b' \<equiv> (if wrap then 0 else b)"
  defines "ca' \<equiv> (if wrap then block_addr s m ino c' else ca)"
  assumes "wrap \<longrightarrow> inode_block s m ino (of_nat c') < num_datablocks (bootblk s)"
  shows "read_data_loop s ino off buf len copied (of_nat c) (of_nat b) ca m
    = (if of_nat copied + off \<ge> inode_size s m ino then (sint (of_nat copied :: u32), m)
       else read_data_loop s ino off buf len (Suc copied) (of_nat c') (of_nat (Suc b')) (ca' + 1)
              (m(buf + of_nat copied := m ca')))"
proof -
  have wrap_iff: "(of_nat b :: u32) \<ge> FS_BLOCK_SIZE \<longleftrightarrow> wrap"
    using assms(2) by (auto simp: wrap_def word_le_nat_alt)
  have n: "of_nat c + 1 = (of_nat (Suc c) :: u32)" "of_nat b' + 1 = (of_nat (Suc b') :: u32)" by simp_all
  show ?thesis
  proof (cases wrap)
    case True
    then have "of_nat b \<ge> FS_BLOCK_SIZE" using wrap_iff by simp
    moreover have "\<not> num_datablocks (bootblk s) \<le> inode_block s m ino (of_nat c')"
      using True assms(7) by (simp add: not_le)
    ultimately show ?thesis
      using True assms(1) unfolding c'_def b'_def ca'_def
      by (subst read_data_loop.simps) (simp add: Let_def block_addr_def add.commute del: fs_sizes)
  next
    case False
    then have "\<not> of_nat b \<ge> FS_BLOCK_SIZE" using wrap_iff by simp
    with False assms(1) show ?thesis
      unfolding c'_def b'_def ca'_def
      by (subst read_data_loop.simps) (simp add: Let_def add.commute del: fs_sizes)
  qed
qed

text \<open>The loop, \<open>copied\<close> bytes into the data from \<open>off\<close> on.\<close>

lemma read_data_keep:
  assumes "run buf len \<inter> file_area s m0 ino = {}" and "length xs \<le> len" and "x \<in> file_area s m0 ino"
  shows "store m0 buf xs x = m0 x"
proof (rule store_outside_run)
  have "run buf (length xs) \<subseteq> run buf len" by (rule image_mono) (use assms(2) in auto)
  then show "x \<notin> run buf (length xs)" using assms by blast
qed

lemma block_in_file:
  "4096 * c \<le> file_size s m ino \<Longrightarrow> c \<le> file_size s m ino div 4096"
  by (simp add: less_eq_div_iff_mult_less_eq mult.commute)

lemma file_byte_in_area:
  assumes "4096 * c \<le> file_size s m ino" and "b < 4096"
  shows "block_addr s m ino c + of_nat b \<in> file_area s m ino"
proof -
  have "block_addr s m ino c + of_nat b \<in> run (block_addr s m ino c) 4096" using assms(2) by simp
  then show ?thesis using block_in_file [OF assms(1)] unfolding file_area_def by blast
qed

lemma inode_ok_block:
  assumes "inode_ok s m0 ino" and "4096 * c \<le> file_size s m0 ino"
    and "\<And>x. x \<in> file_area s m0 ino \<Longrightarrow> m x = m0 x"
  shows "inode_block s m ino (of_nat c) = inode_block s m0 ino (of_nat c)"
    and "inode_block s m0 ino (of_nat c) < num_datablocks (bootblk s)"
    and "block_addr s m ino c = block_addr s m0 ino c"
proof -
  have c: "c \<le> file_size s m0 ino div 4096" by (rule block_in_file [OF assms(2)])
  then have "c < 1023" using assms(1,2) by (simp add: inode_ok_def)
  then show e: "inode_block s m ino (of_nat c) = inode_block s m0 ino (of_nat c)"
    using assms(3) by (intro inode_block_cong)
  then show "block_addr s m ino c = block_addr s m0 ino c" by (simp add: block_addr_def)
  show "inode_block s m0 ino (of_nat c) < num_datablocks (bootblk s)"
    using c assms(1) by (simp add: inode_ok_def)
qed

lemma read_data_loop_store:
  fixes s :: "'a fs_state_scheme"
  assumes ok: "inode_ok s m0 ino" and disj: "run buf len \<inter> file_area s m0 ino = {}"
    and bound: "unat off + len < 4294967296"
  defines "data \<equiv> drop (unat off) (file_content s m0 ino)"
  shows "copied \<le> len \<Longrightarrow> copied \<le> length data \<Longrightarrow> unat off + copied = 4096 * c + b \<Longrightarrow> b \<le> 4096
    \<Longrightarrow> (b = 4096 \<longrightarrow> 0 < copied)
    \<Longrightarrow> (b < 4096 \<longrightarrow> ca = block_addr s m0 ino c + of_nat b)
    \<Longrightarrow> read_data_loop s ino off buf len copied (of_nat c) (of_nat b) ca (store m0 buf (take copied data))
      = (sint (of_nat (min len (length data)) :: u32), store m0 buf (take len data))"
proof (induction "len - copied" arbitrary: copied c b ca)
  case 0
  then have "copied = len" by simp
  with 0 show ?case by (subst read_data_loop.simps) simp
next
  case (Suc n)
  let ?m = "store m0 buf (take copied data)" and ?p = "unat off + copied"
  have lt: "copied < len" using Suc.hyps(2) by simp
  have keep: "?m x = m0 x" if "x \<in> file_area s m0 ino" for x
    by (rule read_data_keep [OF disj _ that]) (use lt in simp)
  have size: "inode_size s ?m ino = inode_size s m0 ino" by (rule inode_size_cong) (rule keep)
  have len_data: "length data = file_size s m0 ino - unat off" by (simp add: data_def)
  define c' where "c' = (if b = 4096 then Suc c else c)"
  define b' where "b' = (if b = 4096 then 0 else b)"
  define ca' where "ca' = (if b = 4096 then block_addr s ?m ino c' else ca)"
  have p': "?p = 4096 * c' + b'" and b'lt: "b' < 4096"
    using Suc.prems(3,4) by (auto simp: c'_def b'_def)
  have in_file: "4096 * c' \<le> file_size s m0 ino" if "b = 4096 \<or> ?p < file_size s m0 ino"
    using that Suc.prems(2,5) len_data p' by linarith
  note blk = inode_ok_block [OF ok in_file keep]
  have "of_nat copied + off = of_nat ?p" by simp
  moreover have "unat (of_nat ?p :: u32) = ?p"
    by (rule unat_of_nat_u32) (use bound lt in simp)
  ultimately have "unat (of_nat copied + off) = ?p" by (simp only:)
  then have eof: "of_nat copied + off \<ge> inode_size s ?m ino \<longleftrightarrow> file_size s m0 ino \<le> ?p"
    unfolding size by (simp add: word_le_nat_alt file_size_def)
  have "b = 4096 \<longrightarrow> inode_block s ?m ino (of_nat c') < num_datablocks (bootblk s)"
    using blk(1,2) by simp
  then have step: "read_data_loop s ino off buf len copied (of_nat c) (of_nat b) ca ?m
    = (if of_nat copied + off \<ge> inode_size s ?m ino then (sint (of_nat copied :: u32), ?m)
       else read_data_loop s ino off buf len (Suc copied) (of_nat c') (of_nat (Suc b')) (ca' + 1)
              (?m(buf + of_nat copied := ?m ca')))"
    unfolding c'_def b'_def ca'_def by (intro read_data_loop_step lt Suc.prems(4))
  show ?case
  proof (cases "file_size s m0 ino \<le> ?p")
    case True
    then have "copied = length data" using Suc.prems(2) len_data by linarith
    then show ?thesis using True lt unfolding step eof by (simp add: min_def)
  next
    case False
    have cl: "copied < length data" using False len_data by linarith
    have ca': "ca' = block_addr s m0 ino c' + of_nat b'"
      using Suc.prems(6) Suc.prems(4) blk(3) by (auto simp: ca'_def b'_def c'_def)
    have pd: "?p div 4096 = c'" "?p mod 4096 = b'" unfolding p' using b'lt by simp_all
    have "?m ca' = m0 ca'"
      unfolding ca' by (intro keep file_byte_in_area in_file b'lt) (use False in simp)
    also have "m0 ca' = data ! copied"
      using cl False pd by (simp add: data_def nth_file_content ca')
    finally have byte: "?m ca' = data ! copied" .
    have nxt: "?m(buf + of_nat copied := ?m ca') = store m0 buf (take (Suc copied) data)"
      using store_append [of "take copied data" "[data ! copied]" m0 buf] cl bound lt byte
      by (simp add: take_Suc_conv_app_nth)
    have "read_data_loop s ino off buf len (Suc copied) (of_nat c') (of_nat (Suc b')) (ca' + 1)
        (store m0 buf (take (Suc copied) data))
      = (sint (of_nat (min len (length data)) :: u32), store m0 buf (take len data))"
    proof (rule Suc.hyps(1))
      show "n = len - Suc copied" using Suc.hyps(2) by simp
      show "unat off + Suc copied = 4096 * c' + Suc b'" using p' by simp
      show "Suc b' < 4096 \<longrightarrow> ca' + 1 = block_addr s m0 ino c' + of_nat (Suc b')"
        unfolding ca' by (simp add: add.assoc add.commute)
    qed (use lt cl b'lt in simp_all)
    then show ?thesis using False unfolding step eof nxt by simp
  qed
qed

lemma read_data_eq:
  assumes "inode_ok s (mem s) ino" and "run buf (unat len) \<inter> file_area s (mem s) ino = {}"
    and "unat off + unat len < 4294967296" and "unat len < 2147483648" and "buf \<noteq> 0"
  shows "read_data ino off buf len s =
    (let out = take (unat len) (drop (unat off) (file_content s (mem s) ino))
     in (int (length out), s\<lparr>mem := store (mem s) buf out\<rparr>))"
proof -
  have d: "off div 4096 = of_nat (unat off div 4096)" "off mod 4096 = of_nat (unat off mod 4096)"
  proof -
    have e: "unat (off div 4096) = unat off div 4096" "unat (off mod 4096) = unat off mod 4096"
      by (simp_all add: unat_div unat_mod)
    show "off div 4096 = of_nat (unat off div 4096)" "off mod 4096 = of_nat (unat off mod 4096)"
      unfolding e [symmetric] by simp_all
  qed
  have "read_data_loop s ino off buf (unat len) 0 (off div 4096) (off mod 4096)
      (block_addr s (mem s) ino (unat off div 4096) + off mod 4096) (mem s)
    = (sint (of_nat (min (unat len) (file_size s (mem s) ino - unat off)) :: u32),
       store (mem s) buf (take (unat len) (drop (unat off) (file_content s (mem s) ino))))"
    using read_data_loop_store [OF assms(1,2,3), of 0 "unat off div 4096" "unat off mod 4096"
        "block_addr s (mem s) ino (unat off div 4096) + of_nat (unat off mod 4096)"]
    unfolding d by simp
  moreover have "sint (of_nat (min (unat len) k) :: u32) = int (min (unat len) k)" for k
    using assms(4) sint_of_int_u32 [of "int (min (unat len) k)"] by (simp add: min_def)
  ultimately show ?thesis
    using assms(5) by (simp add: read_data_def Let_def block_addr_def d(1) add.assoc)
qed

section \<open>The directory\<close>

lemma load32_dword_bytes: "load32 (store m a (dword_bytes v)) a = v"
proof -
  let ?m = "store m a (dword_bytes v)"
  have "?m (a + of_nat i) = dword_bytes v ! i" if "i < 4" for i
    using that by (intro store_at) (simp_all add: dword_bytes_def)
  from this [of 0] this [of 1] this [of 2] this [of 3]
  have b: "?m a = ucast v" "?m (a + 1) = ucast (drop_bit 8 v)" "?m (a + 2) = ucast (drop_bit 16 v)"
      "?m (a + 3) = ucast (drop_bit 24 v)"
    by (simp_all add: dword_bytes_def numeral_eq_Suc)
  show ?thesis
  proof (rule bit_word_eqI)
    fix n assume n: "n < LENGTH(32)"
    consider "n < 8" | "8 \<le> n" "n < 16" | "16 \<le> n" "n < 24" | "24 \<le> n" by linarith
    then show "bit (load32 ?m a) n = bit v n"
      unfolding load32_def b by cases (use n in \<open>auto simp: bit_simps\<close>)
  qed
qed

text \<open>The name of a directory entry: up to 32 bytes, NUL-terminated only when it is shorter.\<close>

definition dentry_name :: "'a fs_state_scheme \<Rightarrow> mem \<Rightarrow> nat \<Rightarrow> byte list" where
  "dentry_name s m i = str_prefix m (dentry_addr s (of_nat i)) 32"

text \<open>The file types in use are small numbers, so the byte at 35 of an entry is zero.\<close>

definition dir_ok :: "'a fs_state_scheme \<Rightarrow> mem \<Rightarrow> bool" where
  "dir_ok s m \<longleftrightarrow> (\<forall>i < 63. dentry_filetype m (dentry_addr s (of_nat i)) < 0x1000000)"

lemma small_filetype:
  assumes "dentry_filetype m a < 0x1000000"
  shows "m (a + 35) = 0"
proof (rule bit_word_eqI)
  fix n assume n: "n < LENGTH(8)"
  have "drop_bit 24 (dentry_filetype m a) = 0"
    using assms by (simp add: drop_bit_eq_div word_less_nat_alt word_unat_eq_iff unat_div)
  then have "\<not> bit (drop_bit 24 (dentry_filetype m a)) n" by simp
  then have "\<not> bit (dentry_filetype m a) (24 + n)" by (simp add: bit_simps)
  moreover have "bit (dentry_filetype m a) (24 + n) \<longleftrightarrow> bit (m (a + 35)) n"
    using n bit_imp_le_length [of "m (a + 32)" "24 + n"]
      bit_imp_le_length [of "m (a + 33)" "16 + n"] bit_imp_le_length [of "m (a + 34)" "8 + n"]
    by (auto simp: dentry_filetype_def load32_def bit_simps add.assoc)
  ultimately show "bit (m (a + 35)) n = bit (0 :: byte) n" by simp
qed

lemma cstr_bounded:
  assumes "m (a + of_nat k) = 0" and "k < 4294967296"
  shows "\<exists>xs. cstr m a xs \<and> length xs \<le> k"
proof -
  obtain xs where xs: "cstr m a xs" using cstr_exists [of m "a + of_nat k" a] assms(1) by blast
  have "length xs \<le> k"
  proof (rule ccontr)
    assume "\<not> length xs \<le> k"
    then have "m (a + of_nat k) \<noteq> 0" by (intro cstr_nonzero [OF xs]) simp
    then show False using assms(1) by simp
  qed
  with xs show ?thesis by blast
qed

lemma dir_ok_name:
  assumes "dir_ok s m" and "i < 63"
  obtains xs where "cstr m (dentry_addr s (of_nat i)) xs" "length xs \<le> 35"
    "dentry_name s m i = take 32 xs"
proof -
  have "m (dentry_addr s (of_nat i) + of_nat 35) = 0"
    using small_filetype assms by (simp add: dir_ok_def)
  from cstr_bounded [of m "dentry_addr s (of_nat i)" 35, OF this] show thesis
    using that by (auto simp: dentry_name_def str_prefix_cstr)
qed

text \<open>The two comparisons and the test on the first byte are equality with the entry's name.\<close>

lemma name_test:
  assumes "ns \<noteq> []" and "length ns \<le> 32"
  shows "take (length ns) xs = ns \<and> take (min (length xs) 32) xs = take (min (length xs) 32) ns
    \<longleftrightarrow> take 32 xs = ns"
proof (cases "length xs \<le> 32")
  case True
  have "take (length ns) xs = ns \<and> xs = take (length xs) ns \<longleftrightarrow> xs = ns"
    by (metis length_take min.absorb_iff2 min.cobounded1 nle_le take_all)
  then show ?thesis using True by (simp add: min_def)
next
  case False
  have "take (length ns) xs = take (length ns) (take 32 xs)" using assms(2) by (simp add: min_def)
  then show ?thesis using False assms(2) by (auto simp: min_def)
qed

lemma read_dentry_from_find:
  assumes dir: "dir_ok s (mem s)" and fname: "cstr (mem s) fname ns" "ns \<noteq> []" "length ns \<le> 32"
  shows "k \<le> 63 \<Longrightarrow> read_dentry_from fname dentry (of_nat (length ns)) k s =
    (case find (\<lambda>i. dentry_name s (mem s) i = ns) [k..<63] of
       None \<Rightarrow> Some (-1, s)
     | Some i \<Rightarrow> do { m \<leftarrow> copy_dentry dentry (dentry_addr s (of_nat i)) (mem s); Some (0, s\<lparr>mem := m\<rparr>) })"
proof (induction "63 - k" arbitrary: k)
  case 0
  then show ?case by (subst read_dentry_from.simps) simp
next
  case (Suc n)
  then have k: "k < 63" by simp
  let ?a = "dentry_addr s (of_nat k)"
  obtain xs where xs: "cstr (mem s) ?a xs" "length xs \<le> 35" "dentry_name s (mem s) k = take 32 xs"
    by (rule dir_ok_name [OF dir k])
  have first: "mem s fname \<noteq> 0" using cstr_nonzero [OF fname(1), of 0] fname(2) by simp
  have f2: "(if sint (of_nat (length xs) :: u32) \<ge> sint MAX_FILENAME_LENGTH then MAX_FILENAME_LENGTH
      else of_nat (length xs)) = of_nat (min (length xs) 32)"
    using sint_of_int_u32 [of "int (length xs)"] xs(2) by (auto simp: min_def)
  have "strncmp (mem s) ?a fname (of_nat (length ns)) = 0 \<and>
      strncmp (mem s) ?a fname (of_nat (min (length xs) 32)) = 0 \<longleftrightarrow> dentry_name s (mem s) k = ns"
    using name_test [OF fname(2,3), of xs] fname(3) xs(2,3)
    by (simp add: strncmp_cstr [OF xs(1) fname(1)])
  then show ?case
    using Suc k first f2
    by (subst read_dentry_from.simps)
      (simp add: strlen_cstr [OF xs(1)] upt_conv_Cons Let_def del: fs_sizes(2))
qed

lemma read_dentry_by_name_find:
  assumes "dir_ok s (mem s)" and "cstr (mem s) fname ns" and "ns \<noteq> []" and "length ns \<le> 32"
    and "fname \<noteq> 0" and "dentry \<noteq> 0"
  shows "read_dentry_by_name fname dentry s =
    (case find (\<lambda>i. dentry_name s (mem s) i = ns) [0..<63] of
       None \<Rightarrow> Some (-1, s)
     | Some i \<Rightarrow> do { m \<leftarrow> copy_dentry dentry (dentry_addr s (of_nat i)) (mem s); Some (0, s\<lparr>mem := m\<rparr>) })"
  using read_dentry_from_find [OF assms(1-4), of 0 dentry] assms(2,5,6)
  by (simp add: read_dentry_by_name_def strlen_cstr)

text \<open>Copying an entry, also one whose name has no terminator of its own.\<close>

lemma run_parts:
  assumes "i + k \<le> j" and "j + l \<le> 4294967296"
  shows "run (a + of_nat i) k \<inter> run (a + of_nat j) l = {}"
proof (rule equals0I)
  fix x assume x: "x \<in> run (a + of_nat i) k \<inter> run (a + of_nat j) l"
  from x obtain p where p: "p < k" "x = a + of_nat (i + p)" by (auto simp: add.assoc)
  from x obtain q where q: "q < l" "x = a + of_nat (j + q)" by (auto simp: add.assoc)
  from p q have "of_nat (i + p) = (of_nat (j + q) :: u32)" by (metis add_left_cancel)
  then have "i + p = j + q" using p q assms by (subst (asm) of_nat_u32_inj) auto
  then show False using p(1) assms(1) by linarith
qed

lemma str_prefix_cong: "(\<And>x. x \<in> run a n \<Longrightarrow> m x = m' x) \<Longrightarrow> str_prefix m a n = str_prefix m' a n"
  using load_cong [of a n m m'] by (simp add: str_prefix_def)

lemma store32_outside: "x \<notin> run a 4 \<Longrightarrow> store32 m a v x = m x"
proof -
  assume "x \<notin> run a 4"
  moreover have "length (dword_bytes v) = 4" by (simp add: dword_bytes_def)
  ultimately show ?thesis unfolding store32_def by (intro store_outside_run) (simp only:, simp)
qed

lemma disjoint_runs:
  assumes "run a n \<inter> run b k = {}" and "n' \<le> n" and "k' \<le> k"
  shows "disjoint a n' b k'"
  unfolding disjoint_def
proof (intro allI impI notI)
  fix i j assume "i < n'" "j < k'" and eq: "a + of_nat i = b + of_nat j"
  have "a + of_nat i \<in> run a n" by (rule imageI) (use \<open>i < n'\<close> assms(2) in simp)
  moreover have "b + of_nat j \<in> run b k" by (rule imageI) (use \<open>j < k'\<close> assms(3) in simp)
  ultimately show False using assms(1) unfolding eq by blast
qed

lemma copy_dentry_eq:
  assumes src: "cstr m src xs" "length xs \<le> 35" and apart: "run dentry 40 \<inter> run src 40 = {}"
  obtains m' where "copy_dentry dentry src m = Some m'"
    "dentry_filetype m' dentry = dentry_filetype m src" "dentry_inode m' dentry = dentry_inode m src"
    "str_prefix m' dentry 32 = take 32 xs" "\<And>a. a \<notin> run dentry 40 \<Longrightarrow> m' a = m a"
proof -
  define m1 where "m1 = store m dentry (xs @ [0])"
  define m2 where "m2 = store32 m1 (dentry + 32) (dentry_filetype m1 src)"
  define m3 where "m3 = store32 m2 (dentry + 36) (dentry_inode m2 src)"
  have in32: "run (dentry + 32) 4 \<subseteq> run dentry 40" and in36: "run (dentry + 36) 4 \<subseteq> run dentry 40"
    using run_subset [of 32 4 40 dentry] run_subset [of 36 4 40 dentry] by simp_all
  have in1: "run dentry (length (xs @ [0])) \<subseteq> run dentry 40" by (rule image_mono) (use src(2) in auto)
  have o1: "m1 a = m a" if "a \<notin> run dentry 40" for a
    unfolding m1_def by (rule store_outside_run) (use that in1 in blast)
  have o2: "m2 a = m1 a" if "a \<notin> run (dentry + 32) 4" for a
    unfolding m2_def using that by (rule store32_outside)
  have o3: "m3 a = m2 a" if "a \<notin> run (dentry + 36) 4" for a
    unfolding m3_def using that by (rule store32_outside)
  have o: "m3 a = m a" if "a \<notin> run dentry 40" for a
  proof -
    have "a \<notin> run (dentry + 32) 4" "a \<notin> run (dentry + 36) 4" using that in32 in36 by blast+
    then show ?thesis using that by (simp only: o1 o2 o3 not_False_eq_True)
  qed
  have srcs: "run (src + 32) 4 \<subseteq> run src 40" "run (src + 36) 4 \<subseteq> run src 40"
    using run_subset [of 32 4 40 src] run_subset [of 36 4 40 src] by simp_all
  have "disjoint dentry (Suc (length xs)) src (Suc (length xs))"
    by (rule disjoint_runs [OF apart]) (use src(2) in simp_all)
  then have s: "strcpy m dentry src = Some m1" unfolding m1_def by (rule strcpy_store [OF src(1)])
  have ft: "dentry_filetype m1 src = dentry_filetype m src"
    unfolding dentry_filetype_def using srcs apart by (intro load32_cong o1) blast
  have ino: "dentry_inode m2 src = dentry_inode m src"
    unfolding dentry_inode_def
  proof (rule load32_cong)
    fix x assume "x \<in> run (src + 36) 4"
    then have "x \<notin> run dentry 40" using srcs apart by blast
    moreover from this have "x \<notin> run (dentry + 32) 4" using in32 by blast
    ultimately show "m2 x = m x" by (simp only: o1 o2 not_False_eq_True)
  qed
  have p36: "run (dentry + 32) 4 \<inter> run (dentry + 36) 4 = {}"
    and p32: "run dentry 32 \<inter> run (dentry + 32) 4 = {}" "run dentry 32 \<inter> run (dentry + 36) 4 = {}"
    using run_parts [of 32 4 36 4 dentry] run_parts [of 0 32 32 4 dentry] run_parts [of 0 32 36 4 dentry]
    by simp_all
  have f3: "dentry_filetype m3 dentry = dentry_filetype m src"
  proof -
    have "dentry_filetype m3 dentry = load32 m2 (dentry + 32)"
      unfolding dentry_filetype_def using p36 by (intro load32_cong o3) blast
    then show ?thesis by (simp add: m2_def store32_def load32_dword_bytes ft)
  qed
  have i3: "dentry_inode m3 dentry = dentry_inode m src"
    unfolding dentry_inode_def m3_def store32_def load32_dword_bytes ino [unfolded dentry_inode_def] ..
  have "cstr m1 dentry xs" unfolding m1_def using src by (intro cstr_store) (auto simp: cstr_def)
  then have "str_prefix m1 dentry 32 = take 32 xs" by (rule str_prefix_cstr)
  moreover have "str_prefix m3 dentry 32 = str_prefix m1 dentry 32"
  proof (rule str_prefix_cong)
    fix x assume "x \<in> run dentry 32"
    then have "x \<notin> run (dentry + 32) 4" "x \<notin> run (dentry + 36) 4" using p32 by blast+
    then show "m3 x = m1 x" by (simp add: o2 o3)
  qed
  moreover have "copy_dentry dentry src m = Some m3"
    by (simp add: copy_dentry_def s m3_def m2_def Let_def)
  ultimately show thesis using that o f3 i3 by simp
qed

text \<open>Reading the directory: the next name, padded and terminated.\<close>

lemma dir_read_eq:
  assumes "buf \<noteq> 0" and "num_file_read s < num_dentries (bootblk s)"
    and "run buf 33 \<inter> run (dentry_addr s (num_file_read s)) 32 = {}"
  defines "name \<equiv> str_prefix (mem s) (dentry_addr s (num_file_read s)) 32"
  shows "dir_read fd buf nbytes s = Some (int (length name),
    s\<lparr>mem := store (mem s) buf (name @ replicate (33 - length name) 0), num_file_read := num_file_read s + 1\<rparr>)"
proof -
  let ?a = "dentry_addr s (num_file_read s)"
  have l: "length name \<le> 32" unfolding name_def str_prefix_def
    using length_takeWhile_le [of "\<lambda>b. b \<noteq> 0" "load (mem s) ?a 32"] by simp
  have nz: "0 \<notin> set name" unfolding name_def str_prefix_def by (auto dest: set_takeWhileD)
  have "disjoint buf (unat (32 :: u32)) ?a (unat (32 :: u32))"
    by (rule disjoint_runs [OF assms(3)]) simp_all
  from strncpy_store [OF this, of "mem s"]
  have c: "strncpy (mem s) buf ?a 32 = store (mem s) buf (name @ replicate (32 - length name) 0)"
    by (simp add: name_def pad_to_def)
  have "(store (mem s) buf (name @ replicate (32 - length name) 0))(buf + 32 := 0)
      = store (mem s) buf (name @ replicate (32 - length name) 0 @ [0])"
    using store_append [of "name @ replicate (32 - length name) 0" "[0]" "mem s" buf] l by simp
  also have "replicate (32 - length name) 0 @ [0] = replicate (33 - length name) (0 :: byte)"
    using l by (simp add: replicate_append_same Suc_diff_le flip: replicate_Suc)
  finally have m: "(strncpy (mem s) buf ?a 32)(buf + 32 := 0)
      = store (mem s) buf (name @ replicate (33 - length name) 0)" unfolding c .
  have cs: "cstr (store (mem s) buf (name @ replicate (33 - length name) 0)) buf name"
    unfolding cstr_def
  proof (intro conjI)
    show "load (store (mem s) buf (name @ replicate (33 - length name) 0)) buf (length name) = name"
      using l by (intro nth_equalityI) (auto simp: store_at nth_append)
    show "store (mem s) buf (name @ replicate (33 - length name) 0) (buf + of_nat (length name)) = 0"
      using l by (subst store_at) (auto simp: nth_append)
  qed (use l nz in auto)
  have "sint (of_nat (length name) :: u32) = int (length name)"
    using l sint_of_int_u32 [of "int (length name)"] by simp
  then show ?thesis
    using assms(1,2) strlen_cstr [OF cs] m by (simp add: dir_read_def Let_def)
qed

section \<open>Properties\<close>

text \<open>
  A small image at 1 MB: one entry, named "abc", a file whose inode is 0 and whose content is
  the three bytes 1, 2, 3 in data block 0, at \<open>0x102000\<close>.
\<close>

definition fs_example_mem :: mem where
  "fs_example_mem = (\<lambda>_. 0)(0x100040 := 0x61, 0x100041 := 0x62, 0x100042 := 0x63, 0x100060 := 2,
     0x101000 := 3, 0x102000 := 1, 0x102001 := 2, 0x102002 := 3, 0x300000 := 0x61, 0x300001 := 0x62,
     0x300002 := 0x63)"

definition fs_boot :: "mem \<Rightarrow> fs_state" where
  "fs_boot m = proc_state.extend (proc_boot m)
     (fs_state.fields 1 1 1 \<lparr>num_dentries = 1, num_inodes = 1, num_datablocks = 1, reserved = replicate 52 0\<rparr>
        0x100040 0x101000 0x102000 0 1)"

lemma fs_boot_simps [simp]:
  "mem (fs_boot m) = m" "esp (fs_boot m) = 0" "cur_term_id (fs_boot m) = 0" "now_term_id (fs_boot m) = 1"
  "terms (fs_boot m) i = no_term\<lparr>term_video_mem := 0xB9000 + of_nat i * 0x1000\<rparr>"
  "pcbs (fs_boot m) a = no_pcb" "PCB_mask (fs_boot m) t i = 0"
  "fs_dentry (fs_boot m) = 0x100040" "inodeblk (fs_boot m) = 0x101000" "first_datablk (fs_boot m) = 0x102000"
  "num_file_read (fs_boot m) = 0"
  "bootblk (fs_boot m) = \<lparr>num_dentries = 1, num_inodes = 1, num_datablocks = 1, reserved = replicate 52 0\<rparr>"
  by (simp_all add: fs_boot_def proc_boot_def kbd_boot_def console_boot_def paging_boot_def pic_boot_def
      pic_state.defs paging_state.defs console_state.defs kbd_state.defs proc_state.defs fs_state.defs)

lemma fs_example_size: "file_size (fs_boot fs_example_mem) fs_example_mem 0 = 3"
  by (simp add: file_size_def inode_size_def load32_def fs_example_mem_def)

lemma fs_example_block: "block_addr (fs_boot fs_example_mem) fs_example_mem 0 0 = 0x102000"
  by (simp add: block_addr_def inode_block_def load32_def fs_example_mem_def)

lemma fs_example_content: "file_content (fs_boot fs_example_mem) fs_example_mem 0 = [1, 2, 3]"
  by (simp add: file_content_def fs_example_size fs_example_block upt_rec)
    (simp add: fs_example_mem_def)

lemma fs_example_ok: "inode_ok (fs_boot fs_example_mem) fs_example_mem 0"
  by (simp add: inode_ok_def fs_example_size inode_block_def load32_def)
    (simp add: fs_example_mem_def)

lemma fs_example_area: "file_area (fs_boot fs_example_mem) fs_example_mem 0 = run 0x101000 4096 \<union> run 0x102000 4096"
  by (simp add: file_area_def fs_example_size fs_example_block)

lemma fs_example_dentry_addr: "dentry_addr (fs_boot m) (of_nat i) = 0x100040 + of_nat (64 * i)"
  by (simp add: dentry_addr_def mult.commute)

lemma fs_example_dir_ok: "dir_ok (fs_boot fs_example_mem) (mem (fs_boot fs_example_mem))"
proof -
  have zero: "fs_example_mem a = 0" if "0x100061 \<le> a" "a \<le> 0x100FFF" for a
    using that by (auto simp: fs_example_mem_def word_le_nat_alt)
  have "dentry_filetype fs_example_mem (dentry_addr (fs_boot fs_example_mem) (of_nat i)) < 0x1000000" if "i < 63" for i
  proof (cases "i = 0")
    case True
    then show ?thesis by (simp add: dentry_addr_def dentry_filetype_def load32_def fs_example_mem_def)
  next
    case False
    have "fs_example_mem (0x100040 + of_nat (64 * i + k)) = 0" if "k \<in> {32, 33, 34, 35}" for k
      using that False \<open>i < 63\<close> unat_of_nat_u32 [of "0x100040 + 64 * i + k"]
      by (intro zero) (auto simp: word_le_nat_alt)
    from this [of 32] this [of 33] this [of 34] this [of 35] show ?thesis
      by (simp add: fs_example_dentry_addr dentry_filetype_def load32_def add.assoc)
  qed
  then show ?thesis by (simp add: dir_ok_def)
qed

lemma fs_example_name: "cstr (mem (fs_boot fs_example_mem)) 0x300000 [0x61, 0x62, 0x63]"
  by (simp add: cstr_def load_def upt_rec fs_example_mem_def)

lemma fs_example_apart:
  assumes "i < 63"
  shows "run 0x200000 40 \<inter> run (dentry_addr (fs_boot m) (of_nat i)) 40 = {}"
proof -
  have "unat (0x100040 + of_nat (64 * i) :: u32) = 0x100040 + 64 * i"
    using assms unat_of_nat_u32 [of "0x100040 + 64 * i"] by simp
  then show ?thesis unfolding fs_example_dentry_addr by (intro runs_apart) (use assms in simp_all)
qed

lemma fs_example_find:
  "find (\<lambda>i. dentry_name (fs_boot fs_example_mem) (mem (fs_boot fs_example_mem)) i = [0x61, 0x62, 0x63]) [0..<63]
    = Some 0"
proof -
  have "dentry_name (fs_boot fs_example_mem) (mem (fs_boot fs_example_mem)) 0 = [0x61, 0x62, 0x63]"
    by (simp add: dentry_name_def dentry_addr_def str_prefix_def load_def upt_rec)
      (simp add: fs_example_mem_def)
  then show ?thesis by (subst upt_rec) simp
qed

text \<open>C17: \<open>read_data\<close> copies the file's bytes from \<open>offset\<close> on, at most \<open>length\<close> and at most to
  the end of the file, across block boundaries, and returns their number; nothing else is written.\<close>

theorem read_data_correct:
  assumes "inode_ok s (mem s) ino" and "run buf (unat len) \<inter> file_area s (mem s) ino = {}"
    and "unat off + unat len < 4294967296" and "unat len < 2147483648" and "buf \<noteq> 0"
  defines "out \<equiv> take (unat len) (drop (unat off) (file_content s (mem s) ino))"
  shows "read_data ino off buf len s = (int (length out), s\<lparr>mem := store (mem s) buf out\<rparr>)"
  using read_data_eq [OF assms(1-5)] by (simp add: out_def Let_def)

theorem read_data_correct_witness:
  "fst (read_data 0 1 0x200000 100 (fs_boot fs_example_mem)) = 2"
proof -
  have "run 0x200000 100 \<inter> (run 0x101000 4096 \<union> run 0x102000 4096) = {}"
    using runs_apart [of "0x200000" 100 "0x101000" 4096] runs_apart [of "0x200000" 100 "0x102000" 4096]
    by (simp add: Int_Un_distrib)
  then show ?thesis
    using read_data_correct [of "fs_boot fs_example_mem" 0 "0x200000" 100 1] fs_example_ok
    by (simp add: fs_example_area fs_example_content)
qed

text \<open>C18: \<open>read_dentry_by_name\<close> finds the first of the 63 entries whose name (of at most 32
  bytes) equals the given string, also when the name fills its field and has no terminator, and
  copies its name, type and inode; it fails exactly when there is none, leaving the memory alone.\<close>

theorem read_dentry_by_name_correct:
  assumes "dir_ok s (mem s)" and "cstr (mem s) fname ns" and "ns \<noteq> []" and "length ns \<le> 32"
    and "fname \<noteq> 0" and "dentry \<noteq> 0"
    and apart: "\<And>i. i < 63 \<Longrightarrow> run dentry 40 \<inter> run (dentry_addr s (of_nat i)) 40 = {}"
  shows "case find (\<lambda>i. dentry_name s (mem s) i = ns) [0..<63] of
      None \<Rightarrow> read_dentry_by_name fname dentry s = Some (-1, s)
    | Some i \<Rightarrow> \<exists>m. read_dentry_by_name fname dentry s = Some (0, s\<lparr>mem := m\<rparr>)
        \<and> str_prefix m dentry 32 = ns
        \<and> dentry_filetype m dentry = dentry_filetype (mem s) (dentry_addr s (of_nat i))
        \<and> dentry_inode m dentry = dentry_inode (mem s) (dentry_addr s (of_nat i))
        \<and> (\<forall>a. a \<notin> run dentry 40 \<longrightarrow> m a = mem s a)"
proof (cases "find (\<lambda>i. dentry_name s (mem s) i = ns) [0..<63]")
  case None
  then show ?thesis using read_dentry_by_name_find [OF assms(1-6)] by simp
next
  case (Some i)
  then have i: "i < 63" "dentry_name s (mem s) i = ns" by (auto simp: find_Some_iff)
  obtain xs where xs: "cstr (mem s) (dentry_addr s (of_nat i)) xs" "length xs \<le> 35"
      "dentry_name s (mem s) i = take 32 xs"
    by (rule dir_ok_name [OF assms(1) i(1)])
  obtain m' where "copy_dentry dentry (dentry_addr s (of_nat i)) (mem s) = Some m'"
      "dentry_filetype m' dentry = dentry_filetype (mem s) (dentry_addr s (of_nat i))"
      "dentry_inode m' dentry = dentry_inode (mem s) (dentry_addr s (of_nat i))"
      "str_prefix m' dentry 32 = take 32 xs" "\<And>a. a \<notin> run dentry 40 \<Longrightarrow> m' a = mem s a"
    using copy_dentry_eq [OF xs(1,2) apart [OF i(1)]] by blast
  then show ?thesis
    using Some read_dentry_by_name_find [OF assms(1-6)] xs(3) i(2) by auto
qed

theorem read_dentry_by_name_correct_witness:
  "\<exists>m. read_dentry_by_name 0x300000 0x200000 (fs_boot fs_example_mem)
       = Some (0, fs_boot fs_example_mem\<lparr>mem := m\<rparr>) \<and> dentry_inode m 0x200000 = 0"
proof -
  have "dentry_inode fs_example_mem 0x100040 = 0"
    by (simp add: dentry_inode_def load32_def fs_example_mem_def)
  then show ?thesis
    using read_dentry_by_name_correct [OF fs_example_dir_ok fs_example_name _ _ _ _ fs_example_apart] fs_example_find
    by (auto simp: dentry_addr_def)
qed

text \<open>C28: \<open>dir_read\<close> returns the names in directory order, one per call: the buffer holds the
  name padded to 33 bytes with NULs, whatever the length asked for, and the index moves on; after
  the last entry it returns 0 and starts again.\<close>

theorem dir_read_correct:
  assumes "buf \<noteq> 0" and "run buf 33 \<inter> run (dentry_addr s (num_file_read s)) 32 = {}"
  defines "name \<equiv> str_prefix (mem s) (dentry_addr s (num_file_read s)) 32"
  shows "dir_read fd buf nbytes s =
    (if num_file_read s < num_dentries (bootblk s)
     then Some (int (length name), s\<lparr>mem := store (mem s) buf (name @ replicate (33 - length name) 0),
                                      num_file_read := num_file_read s + 1\<rparr>)
     else Some (0, s\<lparr>num_file_read := 0\<rparr>))"
  using dir_read_eq [OF assms(1) _ assms(2), of fd nbytes] assms(1) by (simp add: name_def dir_read_def)

theorem dir_read_correct_witness:
  "map_option fst (dir_read 2 0x200000 1 (fs_boot fs_example_mem)) = Some 3"
proof -
  have "run 0x200000 33 \<inter> run 0x100040 32 = {}" by (rule runs_apart) simp_all
  then show ?thesis
    using dir_read_correct [of "0x200000" "fs_boot fs_example_mem" 2 1]
    by (simp add: dentry_addr_def str_prefix_def load_def upt_rec) (simp add: fs_example_mem_def)
qed

subsection \<open>Reading a file through its descriptor\<close>

lemma file_content_cong:
  assumes "\<And>x. x \<in> file_area s m0 ino \<Longrightarrow> m x = m0 x" and "inode_ok s m0 ino"
  shows "file_content s m ino = file_content s m0 ino" "inode_ok s m ino"
    "file_area s m ino = file_area s m0 ino"
proof -
  have size: "file_size s m ino = file_size s m0 ino"
    using inode_size_cong [of s m0 ino m] assms(1) by (simp add: file_size_def)
  have fits: "4096 * k \<le> file_size s m0 ino" if "k \<le> file_size s m0 ino div 4096" for k
    using that by (simp add: less_eq_div_iff_mult_less_eq mult.commute)
  note blk = inode_ok_block [OF assms(2) fits assms(1)]
  show "file_content s m ino = file_content s m0 ino"
  proof (rule nth_equalityI)
    fix j assume "j < length (file_content s m ino)"
    then have j: "j < file_size s m0 ino" by (simp add: size)
    have le: "4096 * (j div 4096) \<le> file_size s m0 ino" using j by linarith
    have "block_addr s m0 ino (j div 4096) + of_nat (j mod 4096) \<in> file_area s m0 ino"
      by (rule file_byte_in_area [OF le]) simp
    moreover have "block_addr s m ino (j div 4096) = block_addr s m0 ino (j div 4096)"
      by (rule inode_ok_block(3) [OF assms(2) le assms(1)])
    ultimately show "file_content s m ino ! j = file_content s m0 ino ! j"
      using j assms(1) by (simp add: nth_file_content size)
  qed (simp add: size)
  show "inode_ok s m ino"
    using assms(2) blk(1) unfolding inode_ok_def size by simp
  show "file_area s m ino = file_area s m0 ino"
    unfolding file_area_def size using blk(3) by simp
qed

lemma file_read_eq:
  fixes s :: "'a fs_state_scheme" and fd :: nat and nbytes :: int
  defines "f \<equiv> fds (pcbs s (get_cur_pcb s)) fd"
  defines "out \<equiv> take (nat nbytes) (drop (unat (file_position f)) (file_content s (mem s) (inode f)))"
  assumes "inode_ok s (mem s) (inode f)" and "run buf (nat nbytes) \<inter> file_area s (mem s) (inode f) = {}"
    and "unat (file_position f) + nat nbytes < 4294967296" and "0 \<le> nbytes" and "nbytes < 2147483648"
    and "fd \<noteq> 0" and "buf \<noteq> 0"
  shows "file_read fd buf nbytes s = (int (length out),
    update_pcb (get_cur_pcb s) (update_fd fd (\<lambda>f. f\<lparr>file_position := file_position f + of_nat (length out)\<rparr>))
      (s\<lparr>mem := store (mem s) buf out\<rparr>))"
proof -
  have n: "unat (word_of_int nbytes :: u32) = nat nbytes"
    using assms(6,7) unat_of_nat_u32 [of "nat nbytes"] by simp
  have "read_data (inode f) (file_position f) buf (word_of_int nbytes) s
      = (int (length out), s\<lparr>mem := store (mem s) buf out\<rparr>)"
    using read_data_eq [of s "inode f" buf "word_of_int nbytes" "file_position f"] assms(3-9)
    by (simp add: n out_def Let_def)
  then show ?thesis
    using assms(8,9) unfolding f_def by (simp add: file_read_def Let_def)
qed

lemma take_take_drop: "take n xs @ take k (drop (length (take n xs)) xs) = take (n + k) xs"
  by (metis length_take min.absorb2 min.absorb_iff2 nle_le append_Nil2 drop_all take_add take_all take_Nil
      order.refl le_add1 order_trans)

text \<open>C19: two reads through a descriptor, each with a buffer of its own clear of the file,
  give together the bytes one read of both lengths would, and leave the position after them.\<close>

theorem file_read_sequential:
  fixes s :: "'a fs_state_scheme" and fd :: nat
  defines "f \<equiv> fds (pcbs s (get_cur_pcb s)) fd"
  assumes "inode_ok s (mem s) (inode f)" and "fd \<noteq> 0" and "buf1 \<noteq> 0" and "buf2 \<noteq> 0"
    and "run buf1 n1 \<inter> file_area s (mem s) (inode f) = {}"
    and "run buf2 n2 \<inter> file_area s (mem s) (inode f) = {}" and "run buf1 n1 \<inter> run buf2 n2 = {}"
    and "unat (file_position f) + n1 + n2 < 2147483648"
  shows "\<exists>k1 s1 k2 s2. file_read fd buf1 (int n1) s = (int k1, s1) \<and> file_read fd buf2 (int n2) s1 = (int k2, s2)
    \<and> load (mem s2) buf1 k1 @ load (mem s2) buf2 k2
      = take (n1 + n2) (drop (unat (file_position f)) (file_content s (mem s) (inode f)))
    \<and> unat (file_position (fds (pcbs s2 (get_cur_pcb s)) fd)) = unat (file_position f) + k1 + k2"
proof -
  let ?c = "drop (unat (file_position f)) (file_content s (mem s) (inode f))"
  define out1 where "out1 = take n1 ?c"
  define s1 where "s1 = update_pcb (get_cur_pcb s)
    (update_fd fd (\<lambda>f. f\<lparr>file_position := file_position f + of_nat (length out1)\<rparr>))
    (s\<lparr>mem := store (mem s) buf1 out1\<rparr>)"
  have r1: "file_read fd buf1 (int n1) s = (int (length out1), s1)"
    using file_read_eq [where s = s and fd = fd and nbytes = "int n1" and buf = buf1] assms by (simp add: out1_def s1_def)
  have l1: "length out1 \<le> n1" by (simp add: out1_def)
  have s1: "get_cur_pcb s1 = get_cur_pcb s" "mem s1 = store (mem s) buf1 out1"
      "fds (pcbs s1 (get_cur_pcb s)) fd = f\<lparr>file_position := file_position f + of_nat (length out1)\<rparr>"
    by (simp_all add: s1_def update_pcb_def update_fd_def get_cur_pcb_def f_def)
  have same: "file_size s1 = file_size s" "inode_ok s1 = inode_ok s" "file_content s1 = file_content s"
      "file_area s1 = file_area s"
    by (simp_all add: fun_eq_iff s1_def update_pcb_def file_size_def inode_size_def inode_ok_def
        inode_block_def file_content_def block_addr_def file_area_def)
  have keep: "mem s1 x = mem s x" if "x \<in> file_area s (mem s) (inode f)" for x
    unfolding s1(2) by (rule read_data_keep [OF assms(6) l1 that])
  note content = file_content_cong [OF keep assms(2)]
  have pos1: "unat (file_position f + of_nat (length out1)) = unat (file_position f) + length out1"
  proof -
    have "file_position f + of_nat (length out1) = of_nat (unat (file_position f) + length out1)" by simp
    then show ?thesis using assms(9) l1 unat_of_nat_u32 [of "unat (file_position f) + length out1"]
      by (simp only:)
  qed
  define out2 where "out2 = take n2 (drop (length out1) ?c)"
  define s2 where "s2 = update_pcb (get_cur_pcb s)
    (update_fd fd (\<lambda>f. f\<lparr>file_position := file_position f + of_nat (length out2)\<rparr>))
    (s1\<lparr>mem := store (mem s1) buf2 out2\<rparr>)"
  have l2: "length out2 \<le> n2" by (simp add: out2_def)
  have r2: "file_read fd buf2 (int n2) s1 = (int (length out2), s2)"
    using file_read_eq [where s = s1 and fd = fd and nbytes = "int n2" and buf = buf2] assms(3,5,7,9) l1 content pos1
    by (simp add: s1(1,3) same out2_def s2_def drop_drop add.commute)
  have "load (mem s2) buf1 (length out1) = out1"
  proof -
    have "disjoint buf1 (length out1) buf2 (length out2)" by (rule disjoint_runs [OF assms(8) l1 l2])
    then show ?thesis
      using l1 assms(9) by (simp add: s2_def update_pcb_def load_store_disjoint s1(2) load_store)
  qed
  moreover have "load (mem s2) buf2 (length out2) = out2"
    using l2 assms(9) by (simp add: s2_def update_pcb_def load_store)
  moreover have "out1 @ out2 = take (n1 + n2) ?c"
    unfolding out1_def out2_def by (rule take_take_drop)
  moreover have "unat (file_position (fds (pcbs s2 (get_cur_pcb s)) fd))
      = unat (file_position f) + length out1 + length out2"
  proof -
    have "file_position (fds (pcbs s2 (get_cur_pcb s)) fd)
        = of_nat (unat (file_position f) + length out1 + length out2)"
      by (simp add: s2_def update_pcb_def update_fd_def s1(3))
    then show ?thesis
      using assms(9) l1 l2 unat_of_nat_u32 [of "unat (file_position f) + length out1 + length out2"]
      by (simp only:)
  qed
  ultimately show ?thesis using r1 r2 by metis
qed

theorem file_read_sequential_witness:
  "\<exists>k1 s1 k2 s2. file_read 2 0x200000 2 (fs_boot fs_example_mem) = (int k1, s1)
    \<and> file_read 2 0x200010 2 s1 = (int k2, s2) \<and> load (mem s2) 0x200000 k1 @ load (mem s2) 0x200010 k2 = [1, 2, 3]"
proof -
  have "run 0x200000 2 \<inter> (run 0x101000 4096 \<union> run 0x102000 4096) = {}"
    "run 0x200010 2 \<inter> (run 0x101000 4096 \<union> run 0x102000 4096) = {}" "run 0x200000 2 \<inter> run 0x200010 2 = {}"
    using runs_apart [of "0x200000" 2 "0x101000" 4096] runs_apart [of "0x200000" 2 "0x102000" 4096]
      runs_apart [of "0x200010" 2 "0x101000" 4096] runs_apart [of "0x200010" 2 "0x102000" 4096]
      runs_apart [of "0x200000" 2 "0x200010" 2]
    by (simp_all add: Int_Un_distrib)
  then show ?thesis
    using file_read_sequential [of "fs_boot fs_example_mem" 2 "0x200000" "0x200010" 2 2] fs_example_ok
    by (auto simp: no_pcb_def fs_example_area fs_example_content)
qed

end
