(* ===== verification/Rtc.thy ===== *)
theory Rtc
  imports Pcb
begin

text \<open>
  The real-time clock (\<open>rtc.c\<close>). The chip is left at 1024 Hz; each process has a frequency of
  its own, kept as a counter in its control block that the interrupt handler decrements for
  the running process of every terminal. What the code reads from the chip is an argument.
\<close>

definition RTC_IRQ :: u32 where "RTC_IRQ = 8"
definition RTC_INDEX :: u16 where "RTC_INDEX = 0x70"
definition RTC_DATA :: u16 where "RTC_DATA = 0x71"
definition RTC_REG_A :: byte where "RTC_REG_A = 0x8A"
definition RTC_REG_B :: byte where "RTC_REG_B = 0x8B"
definition RTC_REG_C :: byte where "RTC_REG_C = 0x8C"

text \<open>The loop doubles \<open>freq\<close>, an \<open>int\<close>, up to \<open>2 ^ 15\<close>; it does not end for 0.\<close>

partial_function (option) rtc_rate :: "u32 \<Rightarrow> byte \<Rightarrow> byte option" where
  "rtc_rate freq rate = (if sint freq < 32768 then rtc_rate (freq * 2) (rate + 1) else Some rate)"

definition rtc_set_freq :: "byte \<Rightarrow> u32 \<Rightarrow> 'a machine_scheme \<Rightarrow> 'a machine_scheme option" where
  "rtc_set_freq prev freq s =
     (if freq = 32768 then Some s
      else do {
        rate \<leftarrow> rtc_rate freq 1;
        let s = outb RTC_REG_A RTC_INDEX s;
            s = outb RTC_REG_A RTC_INDEX s
        in Some (outb (prev AND 0xF0 OR rate) RTC_DATA s)
      })"

definition rtc_init :: "byte \<Rightarrow> byte \<Rightarrow> 'a pic_state_scheme \<Rightarrow> 'a pic_state_scheme option" where
  "rtc_init prev prev_a s =
     (let s = outb RTC_REG_B RTC_INDEX s;
          s = outb RTC_REG_B RTC_INDEX s;
          s = outb (prev OR 0x40) RTC_DATA s;
          s = enable_irq RTC_IRQ s
      in rtc_set_freq prev_a 1024 s)"

definition rtc_interrupt_handler :: "'a proc_state_scheme \<Rightarrow> 'a proc_state_scheme" where
  "rtc_interrupt_handler s =
     (let s = send_eoi RTC_IRQ s;
          s = for_range 0 TERM_MAX
                (\<lambda>i s. let cur_pcb = pcb_of_term i s
                       in if rtc_counter (pcbs s cur_pcb) > 0
                          then update_pcb cur_pcb (\<lambda>p. p\<lparr>rtc_counter := rtc_counter p - 1\<rparr>) s
                          else s) s
      in outb RTC_REG_C RTC_INDEX s)"

definition rtc_open :: "addr \<Rightarrow> 'a proc_state_scheme \<Rightarrow> int \<times> 'a proc_state_scheme" where
  "rtc_open filename s =
     (let cur_pcb = pcb_of_term (now_term_id s) s;
          s = update_pcb cur_pcb (\<lambda>p. p\<lparr>rtc_freq := 2\<rparr>) s;
          s = update_pcb cur_pcb (\<lambda>p. p\<lparr>rtc_counter := 1024 div rtc_freq p\<rparr>) s
      in (0, s))"

definition rtc_close :: "nat \<Rightarrow> int" where "rtc_close fd = 0"

text \<open>The division by a frequency of 0 is a divide error: \<open>None\<close>.\<close>

definition rtc_read ::
  "('a proc_state_scheme \<Rightarrow> 'a proc_state_scheme option) list \<Rightarrow> nat \<Rightarrow> addr \<Rightarrow> int
    \<Rightarrow> 'a proc_state_scheme \<Rightarrow> (int \<times> 'a proc_state_scheme) option" where
  "rtc_read irqs fd buf nbytes s =
     (let s = sti s;
          cur_pcb = pcb_of_term (now_term_id s) s
      in if rtc_freq (pcbs s cur_pcb) = 0 then None
         else do {
           s \<leftarrow> wait_while (\<lambda>s. rtc_counter (pcbs s cur_pcb) > 0) irqs
                 (update_pcb cur_pcb (\<lambda>p. p\<lparr>rtc_counter := 1024 div rtc_freq p\<rparr>) s);
           Some (0, s)
         })"

definition rtc_write :: "nat \<Rightarrow> addr \<Rightarrow> int \<Rightarrow> 'a proc_state_scheme \<Rightarrow> int \<times> 'a proc_state_scheme"
  where
  "rtc_write fd buf nbytes s =
     (if buf = 0 then (-1, s)
      else
        let freq = load32 (mem s) buf;
            cur_pcb = pcb_of_term (now_term_id s) s
        in if (freq \<noteq> 0 \<and> freq AND (freq - 1) = 0) \<and> sint freq \<le> 1024 \<and> nbytes = 4 \<and> sint freq > 1
           then (0, update_pcb cur_pcb (\<lambda>p. p\<lparr>rtc_freq := freq\<rparr>) s)
           else (-1, s))"

section \<open>The frequency test and the rate\<close>

text \<open>\<open>n & (n - 1)\<close> is zero exactly for 0 and the powers of two.\<close>

lemma and_pred_zero: "n \<noteq> 0 \<Longrightarrow> (n :: nat) AND (n - 1) = 0 \<longleftrightarrow> (\<exists>k. n = 2 ^ k)"
proof (induction n rule: less_induct)
  case (less n)
  show ?case
  proof (cases "even n")
    case True
    then obtain m where m: "n = 2 * m" "m \<noteq> 0" "m < n" using less.prems by (auto elim!: evenE)
    then have "n - 1 = 2 * (m - 1) + 1" by simp
    then have "n AND (n - 1) = 2 * (m AND (m - 1))" using m(1) by (simp add: and_rec [of "2 * m"])
    then have "n AND (n - 1) = 0 \<longleftrightarrow> (\<exists>k. m = 2 ^ k)" using less.IH [OF m(3,2)] by simp
    also have "\<dots> \<longleftrightarrow> (\<exists>k. n = 2 ^ k)"
    proof
      assume "\<exists>k. n = 2 ^ k"
      then obtain k where "n = 2 ^ k" by blast
      with m True show "\<exists>k. m = 2 ^ k" by (cases k) auto
    qed (use m in \<open>auto intro: exI [of _ "Suc _"]\<close>)
    finally show ?thesis .
  next
    case False
    then obtain m where m: "n = Suc (2 * m)" by (auto elim!: oddE)
    have "n AND (n - 1) = 2 * m" using m by (simp add: and_rec [of "Suc (2 * m)"])
    moreover have "(\<exists>k. n = 2 ^ k) \<longleftrightarrow> m = 0"
    proof
      assume "\<exists>k. n = 2 ^ k"
      then obtain k where "n = 2 ^ k" by blast
      with False m show "m = 0" by (cases k) (simp_all, presburger)
    qed (use m in \<open>auto intro: exI [of _ 0]\<close>)
    ultimately show ?thesis by simp
  qed
qed

definition valid_freq :: "u32 \<Rightarrow> bool" where
  "valid_freq f \<longleftrightarrow> f \<in> {2, 4, 8, 16, 32, 64, 128, 256, 512, 1024}"

lemma pow2_2_1024:
  assumes "(2 :: nat) ^ k \<le> 1024" and "1 < (2 :: nat) ^ k"
  shows "2 ^ k \<in> {2, 4, 8, 16, 32, 64, 128, 256, 512, 1024 :: nat}"
proof -
  have "k \<noteq> 0" using assms(2) by (cases k) auto
  moreover have "k < 11"
  proof (rule ccontr)
    assume "\<not> k < 11"
    then have "(2 :: nat) ^ 11 \<le> 2 ^ k" by (intro power_increasing) auto
    with assms(1) show False by simp
  qed
  ultimately have "k \<in> {1, 2, 3, 4, 5, 6, 7, 8, 9, 10}" by simp presburger
  then show ?thesis by auto
qed

lemma freq_test: "(f \<noteq> 0 \<and> f AND (f - 1) = 0) \<and> sint f \<le> 1024 \<and> sint f > 1 \<longleftrightarrow> valid_freq f"
proof
  assume a: "(f \<noteq> 0 \<and> f AND (f - 1) = 0) \<and> sint f \<le> 1024 \<and> sint f > 1"
  have "uint f = sint f mod 2 ^ 32" using uint_word_of_int [of "sint f", where 'a = 32] by simp
  then have u: "sint f = int (unat f)" using a by simp
  have "unat (f - 1) = unat f - 1" using a unat_minus_one by blast
  then have "unat f AND (unat f - 1) = unat (f AND (f - 1))" by (simp only: unsigned_and_eq)
  then have "unat f AND (unat f - 1) = 0" using a by simp
  then obtain k where k: "unat f = 2 ^ k" using a and_pred_zero [of "unat f"] by (auto simp: unat_eq_0)
  have "unat f \<le> 1024" "1 < unat f" using a unfolding u by linarith+
  then have "unat f \<in> {2, 4, 8, 16, 32, 64, 128, 256, 512, 1024}"
    using pow2_2_1024 [of k] unfolding k by blast
  then show "valid_freq f" by (simp add: valid_freq_def word_unat_eq_iff)
qed (auto simp: valid_freq_def)

section \<open>The virtual clock\<close>

lemma outb_proc [simp]:
  "pcbs (outb d p s) = pcbs s" "terms (outb d p s) = terms s" "now_term_id (outb d p s) = now_term_id s"
  by (simp_all add: outb_def)

lemma sti_pcbs [simp]: "pcbs (sti s) = pcbs s" "terms (sti s) = terms s" "now_term_id (sti s) = now_term_id s"
  by (simp_all add: sti_def)

lemma send_eoi_proc [simp]:
  "pcbs (send_eoi i s) = pcbs s" "terms (send_eoi i s) = terms s" "now_term_id (send_eoi i s) = now_term_id s"
  by (simp_all add: send_eoi_def send_eoi_master_def)

lemma pcb_of_term_cong: "terms s' = terms s \<Longrightarrow> pcb_of_term i s' = pcb_of_term i s"
  by (simp add: pcb_of_term_def)

text \<open>No other terminal's process has the control block of terminal \<open>t\<close>'s.\<close>

definition own_pcb :: "nat \<Rightarrow> 'a console_state_scheme \<Rightarrow> bool" where
  "own_pcb t s \<longleftrightarrow> t < 3 \<and> (\<forall>i < 3. i \<noteq> t \<longrightarrow> pcb_of_term i s \<noteq> pcb_of_term t s)"

lemma for_range_3: "for_range 0 3 body s = body 2 (body 1 (body 0 s))"
  by (simp add: for_range_def upt_rec numeral_2_eq_2)

lemma rtc_tick:
  assumes "own_pcb t s"
  shows "rtc_counter (pcbs (rtc_interrupt_handler s) (pcb_of_term t s)) = rtc_counter (pcbs s (pcb_of_term t s))
      - (if rtc_counter (pcbs s (pcb_of_term t s)) > 0 then 1 else 0)"
    and "terms (rtc_interrupt_handler s) = terms s" "now_term_id (rtc_interrupt_handler s) = now_term_id s"
proof -
  have t: "t = 0 \<or> t = 1 \<or> t = 2" using assms by (auto simp: own_pcb_def)
  have l: "0 < (3 :: nat)" "1 < (3 :: nat)" "2 < (3 :: nat)" by simp_all
  have d: "pcb_of_term 0 s \<noteq> pcb_of_term t s \<or> t = 0" "pcb_of_term 1 s \<noteq> pcb_of_term t s \<or> t = 1"
    "pcb_of_term 2 s \<noteq> pcb_of_term t s \<or> t = 2"
    using assms unfolding own_pcb_def by (metis l)+
  have p: "pcb_of_term i (send_eoi j s) = pcb_of_term i s" for i j by (rule pcb_of_term_cong) simp
  show "rtc_counter (pcbs (rtc_interrupt_handler s) (pcb_of_term t s)) = rtc_counter (pcbs s (pcb_of_term t s))
      - (if rtc_counter (pcbs s (pcb_of_term t s)) > 0 then 1 else 0)"
    using t d by (elim disjE) (simp_all add: rtc_interrupt_handler_def Let_def TERM_MAX_def for_range_3 p)
  show "terms (rtc_interrupt_handler s) = terms s" "now_term_id (rtc_interrupt_handler s) = now_term_id s"
    by (simp_all add: rtc_interrupt_handler_def Let_def TERM_MAX_def for_range_3)
qed

text \<open>Waiting for the counter to run down takes as many interrupts as it counts.\<close>

lemma rtc_wait:
  assumes "own_pcb t s" and "a = pcb_of_term t s"
  shows "(\<exists>s'. wait_while (\<lambda>s. rtc_counter (pcbs s a) > 0) (replicate n (Some \<circ> rtc_interrupt_handler)) s = Some s')
    \<longleftrightarrow> unat (rtc_counter (pcbs s a)) \<le> n"
  using assms
proof (induction n arbitrary: s)
  case 0
  then show ?case by (simp add: word_gt_0 unat_eq_0)
next
  case (Suc n)
  let ?s1 = "rtc_interrupt_handler s"
  have o: "own_pcb t ?s1" "a = pcb_of_term t ?s1"
    using Suc.prems rtc_tick(2) [OF Suc.prems(1)] pcb_of_term_cong [of ?s1 s] by (simp_all add: own_pcb_def)
  show ?case
  proof (cases "rtc_counter (pcbs s a) = 0")
    case False
    then have "unat (rtc_counter (pcbs ?s1 a)) = unat (rtc_counter (pcbs s a)) - 1"
      using rtc_tick(1) [OF Suc.prems(1)] Suc.prems(2) by (simp add: word_gt_0 unat_minus_one)
    then show ?thesis using False Suc.IH [OF o] by (auto simp: word_gt_0 unat_eq_0)
  qed (auto simp: word_gt_0)
qed

section \<open>The rate\<close>

lemma rtc_rate_pow: "k \<le> 15 \<Longrightarrow> rtc_rate (2 ^ k) r = Some (r + of_nat (15 - k))"
proof (induction "15 - k" arbitrary: k r)
  case 0
  then show ?case by (subst rtc_rate.simps) simp
next
  case (Suc n)
  then have k: "k < 15" "15 - k = Suc (15 - Suc k)" by simp_all
  have "(2 :: int) ^ k < 2 ^ 15" using k(1) by (intro power_strict_increasing) auto
  then have "sint (2 ^ k :: u32) = 2 ^ k" using sint_of_int_u32 [of "2 ^ k"] zero_le_power [of "2 :: int" k] by (simp del: zero_le_power)
  moreover have "(2 :: int) ^ k < 32768" using \<open>(2 :: int) ^ k < 2 ^ 15\<close> by simp
  moreover have "rtc_rate (2 ^ Suc k) (r + 1) = Some (r + 1 + of_nat (15 - Suc k))"
    by (rule Suc.hyps(1)) (use Suc.hyps(2) k in simp_all)
  ultimately show ?case by (subst rtc_rate.simps) (simp add: k(2) mult.commute)
qed

text \<open>Doubling 0 never gets anywhere.\<close>

lemma rtc_rate_Some:
  assumes "rtc_rate f r = Some y"
  shows "f \<noteq> 0"
proof (induction f r y rule: rtc_rate.raw_induct)
  case (1 rec f r y)
  then show ?case using rtc_rate.simps [of 0 r] by (cases "f = 0") (auto split: if_splits)
qed (rule assms)

lemma rtc_rate_zero: "rtc_rate 0 r = None"
  using rtc_rate_Some [of 0 r] by (cases "rtc_rate 0 r") auto

section \<open>Properties\<close>

text \<open>A process may set its frequency to exactly the powers of two from 2 to 1024, with four
  bytes from a buffer; every other value, length or a null buffer is refused and changes
  nothing.\<close>

lemma rtc_write_accepts:
  "rtc_write fd buf nbytes s =
     (if buf \<noteq> 0 \<and> nbytes = 4 \<and> load32 (mem s) buf \<in> {2, 4, 8, 16, 32, 64, 128, 256, 512, 1024}
      then (0, update_pcb (pcb_of_term (now_term_id s) s) (\<lambda>p. p\<lparr>rtc_freq := load32 (mem s) buf\<rparr>) s)
      else (-1, s))"
  using freq_test [of "load32 (mem s) buf"] by (auto simp: rtc_write_def Let_def valid_freq_def)

text \<open>C27: A read from the clock returns after 1024 / f interrupts of the clock, where f is the
  frequency the process has set, and not before: fewer leave it waiting. It returns 0. The other
  terminals' processes must have control blocks of their own.\<close>

theorem rtc_read_waits:
  assumes "own_pcb (now_term_id s) s" and "rtc_freq (now_pcb s) \<noteq> 0"
  shows "(\<exists>s'. rtc_read (replicate n (Some \<circ> rtc_interrupt_handler)) fd buf nbytes s = Some (0, s'))
      \<longleftrightarrow> 1024 div unat (rtc_freq (now_pcb s)) \<le> n"
proof -
  let ?a = "pcb_of_term (now_term_id s) s"
  let ?s1 = "update_pcb ?a (\<lambda>p. p\<lparr>rtc_counter := 1024 div rtc_freq p\<rparr>) (sti s)"
  have "own_pcb (now_term_id s) ?s1" "?a = pcb_of_term (now_term_id s) ?s1"
    using assms(1) by (simp_all add: own_pcb_def)
  from rtc_wait [OF this, of n] show ?thesis
    using assms(2) by (auto simp: rtc_read_def Let_def unat_div bind_eq_Some_conv)
qed

theorem rtc_read_waits_witness:
  "\<exists>s'. rtc_read (replicate 512 (Some \<circ> rtc_interrupt_handler)) 2 0 0 (snd (rtc_open 0 (proc_boot (\<lambda>_. 0)))) = Some (0, s')"
proof -
  let ?s = "snd (rtc_open 0 (proc_boot (\<lambda>_. 0)))"
  have "(ucast (- 1 :: byte) :: u32) = 255" by code_simp
  then have a: "pcb_of_term 0 ?s = 0x600000" "pcb_of_term 1 ?s = 0x7F8000" "pcb_of_term 2 ?s = 0x7F0000"
    by (simp_all add: rtc_open_def Let_def pcb_of_term_def get_pcb_from_id_def MAX_PCB_MASK_LEN_def no_term_def)
  have "i = 0 \<or> i = 1 \<or> i = 2" if "i < 3" for i :: nat using that by auto
  then have "own_pcb (now_term_id ?s) ?s" using a by (fastforce simp: own_pcb_def rtc_open_def Let_def)
  moreover have "rtc_freq (now_pcb ?s) = 2" by (simp add: rtc_open_def Let_def)
  ultimately show ?thesis using rtc_read_waits [of ?s 512] by simp
qed

text \<open>For the frequency 2 ^ k, up to 2 ^ 14, the chip is programmed with the rate 16 - k in the
  low half of register A, its high half kept; for the frequency 0 the loop that computes the
  rate never ends.\<close>

lemma rtc_set_freq_rate:
  assumes "k \<le> 14"
  shows "rtc_set_freq prev (2 ^ k) s = Some (outb (prev AND 0xF0 OR of_nat (16 - k)) RTC_DATA
      (outb RTC_REG_A RTC_INDEX (outb RTC_REG_A RTC_INDEX s)))
    \<and> rtc_set_freq prev 0 s = None"
proof -
  have lt: "(2 :: nat) ^ k < 2 ^ 15" using assms by (intro power_strict_increasing) auto
  then have "unat (2 ^ k :: u32) = 2 ^ k" using unat_of_nat_u32 [of "2 ^ k"] by simp
  moreover have "(2 :: nat) ^ k \<noteq> 32768" using lt by simp
  ultimately have "(2 ^ k :: u32) \<noteq> 32768" by (auto dest: arg_cong [of _ _ unat])
  moreover have "rtc_rate (2 ^ k) 1 = Some (of_nat (16 - k))"
    using rtc_rate_pow [of k 1] assms by (simp add: Suc_diff_le of_nat_Suc [symmetric] del: of_nat_Suc)
  ultimately show ?thesis by (simp add: rtc_set_freq_def rtc_rate_zero)
qed

theorem rtc_set_freq_rate_witness:
  "rtc_set_freq 0x26 1024 pic_boot = Some (outb 0x26 RTC_DATA (outb RTC_REG_A RTC_INDEX (outb RTC_REG_A RTC_INDEX pic_boot)))"
  using rtc_set_freq_rate [of 10 "0x26" pic_boot] by simp

end
