(* ===== verification/Syscalls.thy ===== *)
theory Syscalls
  imports File_System Rtc
begin

text \<open>
  The system calls on files and memory (\<open>system_call.c\<close>): the calls through a file descriptor
  dispatch on the table of operations it was opened with (\<open>sys_read\<close> is the code's \<open>read\<close>,
  and so on). \<open>irqs\<close> are the interrupts that
  arrive while a call busy-waits; a frame holds the addresses of the called driver's local
  variables on the kernel stack.
\<close>

record frame =
  temp_buf_at :: addr \<comment> \<open>\<open>temp_buf\<close> of \<open>term_write\<close>\<close>
  conv_at :: addr \<comment> \<open>\<open>conv_buf\<close> of \<open>printf\<close>\<close>
  args_at :: addr \<comment> \<open>the stack above the format argument\<close>
  dentry_at :: addr \<comment> \<open>\<open>local_dentry\<close> of \<open>open\<close>\<close>

type_synonym 'a irqs = "('a fs_state_scheme \<Rightarrow> 'a fs_state_scheme option) list"

fun call_read ::
  "read_fun \<Rightarrow> 'a irqs \<Rightarrow> nat \<Rightarrow> addr \<Rightarrow> int \<Rightarrow> 'a fs_state_scheme \<Rightarrow> (int \<times> 'a fs_state_scheme) option"
  where
  "call_read Term_Read irqs fd buf nbytes s = term_read irqs buf nbytes s"
| "call_read Rtc_Read irqs fd buf nbytes s = rtc_read irqs fd buf nbytes s"
| "call_read Dir_Read irqs fd buf nbytes s = dir_read fd buf nbytes s"
| "call_read File_Read irqs fd buf nbytes s = Some (file_read fd buf nbytes s)"
| "call_read No_Read irqs fd buf nbytes s = Some (operation_error, s)"

fun call_write ::
  "write_fun \<Rightarrow> frame \<Rightarrow> nat \<Rightarrow> addr \<Rightarrow> int \<Rightarrow> 'a fs_state_scheme \<Rightarrow> (int \<times> 'a fs_state_scheme) option"
  where
  "call_write Term_Write fr fd buf nbytes s = term_write (temp_buf_at fr) (conv_at fr) (args_at fr) buf nbytes s"
| "call_write Rtc_Write fr fd buf nbytes s = Some (rtc_write fd buf nbytes s)"
| "call_write Dir_Write fr fd buf nbytes s = Some (dir_write fd buf nbytes, s)"
| "call_write File_Write fr fd buf nbytes s = Some (file_write fd buf nbytes, s)"
| "call_write No_Write fr fd buf nbytes s = Some (operation_error, s)"

fun call_close :: "close_fun \<Rightarrow> nat \<Rightarrow> int" where
  "call_close Term_Close fd = term_close fd"
| "call_close Rtc_Close fd = rtc_close fd"
| "call_close Dir_Close fd = dir_close fd"
| "call_close File_Close fd = file_close fd"
| "call_close No_Close fd = operation_error"

definition sys_read ::
  "'a irqs \<Rightarrow> int \<Rightarrow> addr \<Rightarrow> int \<Rightarrow> 'a fs_state_scheme \<Rightarrow> (int \<times> 'a fs_state_scheme) option" where
  "sys_read irqs fd buf nbytes s =
     (if fd \<ge> int MAX_FILE_NUM \<or> fd < 0 then Some (-1, s)
      else if buf = 0 then Some (-1, s)
      else if flags (fds (now_pcb s) (nat fd)) = 0 then Some (-1, s)
      else call_read (read_fn (optable (fds (now_pcb s) (nat fd)))) irqs (nat fd) buf nbytes s)"

definition sys_write ::
  "frame \<Rightarrow> int \<Rightarrow> addr \<Rightarrow> int \<Rightarrow> 'a fs_state_scheme \<Rightarrow> (int \<times> 'a fs_state_scheme) option" where
  "sys_write fr fd buf nbytes s =
     (if fd \<ge> int MAX_FILE_NUM \<or> fd < 0 then Some (-1, s)
      else if buf = 0 then Some (-1, s)
      else if flags (fds (now_pcb s) (nat fd)) = 0 then Some (-1, s)
      else call_write (write_fn (optable (fds (now_pcb s) (nat fd)))) fr (nat fd) buf nbytes s)"

text \<open>The search for a free descriptor; the state is marked where it stops.\<close>

function find_free_fd :: "addr \<Rightarrow> nat \<Rightarrow> 'a proc_state_scheme \<Rightarrow> nat \<times> 'a proc_state_scheme" where
  "find_free_fd cur_pcb fd s =
     (if fd < MAX_FILE_NUM
      then if flags (fds (pcbs s cur_pcb) fd) = 0
           then (fd, update_pcb cur_pcb (update_fd fd (\<lambda>f. f\<lparr>flags := 1, file_position := 0\<rparr>)) s)
           else find_free_fd cur_pcb (Suc fd) s
      else (fd, s))"
  by pat_completeness auto
termination
  by (relation "measure (\<lambda>(a, fd, s). MAX_FILE_NUM - fd)") auto

declare find_free_fd.simps [simp del]

definition open_as ::
  "u32 \<Rightarrow> u32 \<Rightarrow> addr \<Rightarrow> nat \<Rightarrow> addr \<Rightarrow> 'a proc_state_scheme \<Rightarrow> int \<times> 'a proc_state_scheme" where
  "open_as filetype ino cur_pcb fd filename s =
     (if filetype = 0 then
        let (r, s) = rtc_open filename s
        in if r \<noteq> 0 then (-1, s)
           else (int fd, update_pcb cur_pcb (update_fd fd (\<lambda>f. f\<lparr>inode := 0, optable := rtc_fop\<rparr>)) s)
      else if filetype = 1 then
        if dir_open filename \<noteq> 0 then (-1, s)
        else (int fd, update_pcb cur_pcb (update_fd fd (\<lambda>f. f\<lparr>inode := 0, optable := dir_fop\<rparr>)) s)
      else if filetype = 2 then
        if file_open filename \<noteq> 0 then (-1, s)
        else (int fd, update_pcb cur_pcb (update_fd fd (\<lambda>f. f\<lparr>inode := ino, optable := file_fop\<rparr>)) s)
      else (int fd, s))"

definition sys_open :: "frame \<Rightarrow> addr \<Rightarrow> 'a fs_state_scheme \<Rightarrow> (int \<times> 'a fs_state_scheme) option" where
  "sys_open fr filename s =
     (let cur_pcb = pcb_of_term (now_term_id s) s
      in do {
        (r, s) \<leftarrow> read_dentry_by_name filename (dentry_at fr) s;
        if r = -1 then Some (-1, s)
        else
          let (fd, s) = find_free_fd cur_pcb 0 s
          in if fd \<ge> MAX_FILE_NUM then Some (-1, s)
             else Some (open_as (dentry_filetype (mem s) (dentry_at fr)) (dentry_inode (mem s) (dentry_at fr))
                          cur_pcb fd filename s)
      })"

definition sys_close :: "int \<Rightarrow> 'a proc_state_scheme \<Rightarrow> int \<times> 'a proc_state_scheme" where
  "sys_close fd s =
     (let cur_pcb = pcb_of_term (now_term_id s) s
      in if fd \<ge> int MAX_FILE_NUM \<or> fd < 2 then (-1, s)
         else if flags (fds (pcbs s cur_pcb) (nat fd)) = 0 then (-1, s)
         else
           let s = update_pcb cur_pcb (update_fd (nat fd) (\<lambda>f. f\<lparr>flags := 0\<rparr>)) s
           in (call_close (close_fn (optable (fds (pcbs s cur_pcb) (nat fd)))) (nat fd), s))"

text \<open>
  \<open>getargs\<close>: \<open>strlen\<close> of \<open>argbuf\<close> may run into the byte after the array, which
  \<open>execute\<close> leaves zero; past that it is not modelled (\<open>None\<close>).
\<close>

definition getargs :: "addr \<Rightarrow> int \<Rightarrow> 'a proc_state_scheme \<Rightarrow> (int \<times> 'a proc_state_scheme) option" where
  "getargs buf nbytes s =
     (let bytes = argbuf (now_pcb s) @ [cur_tss_byte0 (now_pcb s)];
          arg_length = length (takeWhile (\<lambda>b. b \<noteq> 0) bytes)
      in if arg_length = length bytes then None
         else if int arg_length \<le> 0 \<or> int arg_length \<ge> nbytes then Some (-1, s)
         else
           let s = for_range 0 arg_length (\<lambda>i. poke (buf + of_nat i) (bytes ! i)) s
           in Some (0, poke (buf + of_nat arg_length) 0 s))"

definition vidmap :: "addr \<Rightarrow> 'a paging_state_scheme \<Rightarrow> int \<times> 'a paging_state_scheme" where
  "vidmap screen_start s =
     (if screen_start = 0 then (-1, s)
      else if screen_start < 0x8000000 \<or> screen_start \<ge> 0x8400000 then (-1, s)
      else
        let s = syscall_video_mapping 0xB8000 s
        in (0, s\<lparr>mem := store (mem s) screen_start (dword_bytes 0x8400000)\<rparr>))"

definition set_handler :: "int \<Rightarrow> addr \<Rightarrow> int" where "set_handler signum handler_address = -1"
definition sigreturn :: int where "sigreturn = -1"

section \<open>The descriptor table\<close>

definition fd_used :: "addr \<Rightarrow> 'a proc_state_scheme \<Rightarrow> nat \<Rightarrow> bool" where
  "fd_used a s fd \<longleftrightarrow> flags (fds (pcbs s a) fd) \<noteq> 0"

definition fd_release :: "addr \<Rightarrow> nat \<Rightarrow> 'a proc_state_scheme \<Rightarrow> 'a proc_state_scheme" where
  "fd_release a fd s = update_pcb a (update_fd fd (\<lambda>f. f\<lparr>flags := 0\<rparr>)) s"

definition fd_take :: "addr \<Rightarrow> nat \<Rightarrow> 'a proc_state_scheme \<Rightarrow> 'a proc_state_scheme" where
  "fd_take a fd s = update_pcb a (update_fd fd (\<lambda>f. f\<lparr>flags := 1, file_position := 0\<rparr>)) s"

lemma find_free_fd_from:
  "\<forall>j. i \<le> j \<longrightarrow> j < k \<longrightarrow> fd_used a s j \<Longrightarrow> i \<le> k \<Longrightarrow> k \<le> 8 \<Longrightarrow> find_free_fd a i s = find_free_fd a k s"
proof (induction "k - i" arbitrary: i)
  case (Suc n)
  then have "i < k" "fd_used a s i" by simp_all
  then have "find_free_fd a i s = find_free_fd a (Suc i) s"
    using Suc.prems(3) by (subst find_free_fd.simps) (simp add: MAX_FILE_NUM_def fd_used_def)
  also have "\<dots> = find_free_fd a k s" using Suc by (intro Suc.hyps(1)) auto
  finally show ?case .
qed simp

lemma find_free_fd_first:
  "k < 8 \<Longrightarrow> \<not> fd_used a s k \<Longrightarrow> \<forall>j < k. fd_used a s j \<Longrightarrow> find_free_fd a 0 s = (k, fd_take a k s)"
  using find_free_fd_from [of 0 k a s]
  by (simp add: find_free_fd.simps [of a k] MAX_FILE_NUM_def fd_used_def fd_take_def)

lemma find_free_fd_full: "\<forall>k < 8. fd_used a s k \<Longrightarrow> find_free_fd a 0 s = (8, s)"
  using find_free_fd_from [of 0 8 a s] by (simp add: find_free_fd.simps [of a 8] MAX_FILE_NUM_def)

lemma fd_used_take: "fd_used a (fd_take a k s) = (fd_used a s)(k := True)"
  by (auto simp: fd_used_def fd_take_def fun_eq_iff)

lemma fd_used_release: "fd_used a (fd_release a k s) = (fd_used a s)(k := False)"
  by (auto simp: fd_used_def fd_release_def fun_eq_iff)

interpretation fd_table: first_fit 8 "fd_used a" "find_free_fd a 0" "fd_release a" for a
  by unfold_locales (simp_all add: find_free_fd_full find_free_fd_first fd_used_take fd_used_release)

section \<open>What the descriptor calls do\<close>

lemma open_as_simps:
  "open_as 0 ino a fd f s = (int fd, update_pcb a (update_fd fd (\<lambda>f. f\<lparr>inode := 0, optable := rtc_fop\<rparr>)) (snd (rtc_open f s)))"
  "open_as 1 ino a fd f s = (int fd, update_pcb a (update_fd fd (\<lambda>f. f\<lparr>inode := 0, optable := dir_fop\<rparr>)) s)"
  "open_as 2 ino a fd f s = (int fd, update_pcb a (update_fd fd (\<lambda>f. f\<lparr>inode := ino, optable := file_fop\<rparr>)) s)"
  by (simp_all add: open_as_def rtc_open_def dir_open_def file_open_def Let_def)

lemma open_as_frame:
  assumes "open_as t ino a fd f s = (r, s')" and "a = pcb_of_term (now_term_id s) s"
  shows "r = int fd" "terms s' = terms s" "now_term_id s' = now_term_id s"
    "flags (fds (pcbs s' b) k) = flags (fds (pcbs s b) k)"
    "b \<noteq> a \<or> k \<noteq> fd \<Longrightarrow> optable (fds (pcbs s' b) k) = optable (fds (pcbs s b) k)"
  using assms by (auto simp: open_as_def rtc_open_def dir_open_def file_open_def Let_def split: if_splits)

text \<open>The first two descriptors are the terminal's, and every flag is 0 or 1.\<close>

definition fd_inv :: "pcb \<Rightarrow> bool" where
  "fd_inv p \<longleftrightarrow> flags (fds p 0) = 1 \<and> optable (fds p 0) = stdin_fop
     \<and> flags (fds p 1) = 1 \<and> optable (fds p 1) = stdout_fop \<and> (\<forall>fd < 8. flags (fds p fd) \<in> {0, 1})"

lemma sys_open_cases:
  assumes "sys_open fr f s = Some (r, s')"
  defines "a \<equiv> pcb_of_term (now_term_id s) s"
  obtains (missing) m where "r = -1" "s' = s\<lparr>mem := m\<rparr>"
  | (opened) m fd t ino where "fd < 8" "\<not> fd_used a s fd" "\<forall>j < fd. fd_used a s j" "r = int fd"
      "open_as t ino a fd f (fd_take a fd (s\<lparr>mem := m\<rparr>)) = (int fd, s')"
proof -
  obtain r1 s1 where r1: "read_dentry_by_name f (dentry_at fr) s = Some (r1, s1)"
    using assms(1) by (auto simp: sys_open_def Let_def bind_eq_Some_conv)
  then obtain m where s1: "s1 = s\<lparr>mem := m\<rparr>" using read_dentry_by_name_frame by blast
  have u: "fd_used a s1 = fd_used a s" by (simp add: s1 fd_used_def fun_eq_iff)
  have at: "pcb_of_term (now_term_id s) s = a" by (simp add: a_def)
  show thesis
  proof (cases "r1 = -1")
    case True
    then show thesis using assms(1) r1 s1 missing by (auto simp: sys_open_def)
  next
    case False
    show thesis
    proof (cases a s1 rule: fd_table.alloc_cases)
      case full
      then show thesis using assms(1) r1 s1 False missing
        by (auto simp: sys_open_def at MAX_FILE_NUM_def)
    next
      case (slot k s2)
      then have s2: "s2 = fd_take a k s1" using find_free_fd_first [of k a s1] by simp
      have "open_as (dentry_filetype (mem s2) (dentry_at fr)) (dentry_inode (mem s2) (dentry_at fr)) a k f s2 = (r, s')"
        using assms(1) r1 False slot by (simp add: sys_open_def at MAX_FILE_NUM_def)
      moreover have "pcb_of_term (now_term_id s2) s2 = a" by (simp add: a_def s2 s1 fd_take_def pcb_of_term_def)
      ultimately show thesis using open_as_frame(1) opened [of k _ _ m] slot u unfolding s2 s1 by metis
    qed
  qed
qed

lemma sys_open_frame:
  assumes "sys_open fr f s = Some (r, s')"
  defines "a \<equiv> pcb_of_term (now_term_id s) s"
  shows "terms s' = terms s" "now_term_id s' = now_term_id s"
    "r = -1 \<or> (\<exists>fd < 8. r = int fd \<and> \<not> fd_used a s fd \<and> (\<forall>j < fd. fd_used a s j)
       \<and> (\<forall>b. fd_used b s' = (if b = a then (fd_used b s)(fd := True) else fd_used b s))
       \<and> (\<forall>b k. b \<noteq> a \<or> k \<noteq> fd \<longrightarrow> optable (fds (pcbs s' b) k) = optable (fds (pcbs s b) k)
            \<and> flags (fds (pcbs s' b) k) = flags (fds (pcbs s b) k)) \<and> flags (fds (pcbs s' a) fd) = 1)"
    "r = -1 \<Longrightarrow> pcbs s' = pcbs s"
proof -
  have "terms s' = terms s \<and> now_term_id s' = now_term_id s \<and>
    ((r = -1 \<and> pcbs s' = pcbs s) \<or> (\<exists>fd < 8. r = int fd \<and> \<not> fd_used a s fd \<and> (\<forall>j < fd. fd_used a s j)
       \<and> (\<forall>b. fd_used b s' = (if b = a then (fd_used b s)(fd := True) else fd_used b s))
       \<and> (\<forall>b k. b \<noteq> a \<or> k \<noteq> fd \<longrightarrow> optable (fds (pcbs s' b) k) = optable (fds (pcbs s b) k)
            \<and> flags (fds (pcbs s' b) k) = flags (fds (pcbs s b) k)) \<and> flags (fds (pcbs s' a) fd) = 1))"
    using assms(1)
  proof (cases rule: sys_open_cases)
    case (opened m fd t ino)
    let ?s1 = "fd_take a fd (s\<lparr>mem := m\<rparr>)"
    have "a = pcb_of_term (now_term_id ?s1) ?s1" by (simp add: a_def fd_take_def pcb_of_term_def)
    note o = open_as_frame [OF opened(5) [folded a_def] this]
    have fl: "flags (fds (pcbs s' b) k) = flags (fds (pcbs ?s1 b) k)" for b k by (rule o(4))
    have "fd_used b s' = (if b = a then (fd_used b s)(fd := True) else fd_used b s)" for b
      unfolding fd_used_def fl by (auto simp: fd_take_def fd_used_def fun_eq_iff)
    moreover have "terms s' = terms s" "now_term_id s' = now_term_id s" using o(2,3) by (simp_all add: fd_take_def)
    moreover have "b \<noteq> a \<or> k \<noteq> fd \<Longrightarrow> optable (fds (pcbs s' b) k) = optable (fds (pcbs s b) k)" for b k
      using o(5) [of b k] by (auto simp: fd_take_def)
    ultimately show ?thesis
      using opened(1-4) by (intro conjI disjI2 exI [of _ fd]) (auto simp: fl fd_take_def a_def)
  qed simp
  then show "terms s' = terms s" "now_term_id s' = now_term_id s"
    "r = -1 \<or> (\<exists>fd < 8. r = int fd \<and> \<not> fd_used a s fd \<and> (\<forall>j < fd. fd_used a s j)
       \<and> (\<forall>b. fd_used b s' = (if b = a then (fd_used b s)(fd := True) else fd_used b s))
       \<and> (\<forall>b k. b \<noteq> a \<or> k \<noteq> fd \<longrightarrow> optable (fds (pcbs s' b) k) = optable (fds (pcbs s b) k)
            \<and> flags (fds (pcbs s' b) k) = flags (fds (pcbs s b) k)) \<and> flags (fds (pcbs s' a) fd) = 1)"
    "r = -1 \<Longrightarrow> pcbs s' = pcbs s"
    by auto
qed

lemma sys_close_eq:
  fixes s :: "'a proc_state_scheme"
  defines "a \<equiv> pcb_of_term (now_term_id s) s"
  shows "snd (sys_close fd s) = (if 2 \<le> fd \<and> fd < 8 \<and> fd_used a s (nat fd) then fd_release a (nat fd) s else s)"
    and "fst (sys_close fd s) \<noteq> -1 \<Longrightarrow> 2 \<le> fd \<and> fd < 8 \<and> fd_used a s (nat fd)"
  by (auto simp: sys_close_def a_def Let_def MAX_FILE_NUM_def fd_used_def fd_release_def split: if_splits)

section \<open>Properties\<close>

text \<open>C22: Every call on a descriptor that is out of range, or not open, or with a null buffer, is
  refused with -1 and changes nothing; so is closing one of the first two descriptors.\<close>

theorem bad_descriptor_refused:
  fixes s :: "'a fs_state_scheme" and fd :: int
  defines "bad \<equiv> fd < 0 \<or> fd \<ge> 8 \<or> flags (fds (now_pcb s) (nat fd)) = 0"
  shows "(bad \<or> buf = 0 \<longrightarrow> sys_read irqs fd buf n s = Some (-1, s) \<and> sys_write fr fd buf n s = Some (-1, s))
    \<and> (bad \<or> fd < 2 \<longrightarrow> sys_close fd s = (-1, s))"
  by (auto simp: bad_def sys_read_def sys_write_def sys_close_def Let_def MAX_FILE_NUM_def)

theorem bad_descriptor_refused_witness:
  "sys_read [] 8 0x200000 4 (fs_boot (\<lambda>_. 0)) = Some (-1, fs_boot (\<lambda>_. 0)) \<and> sys_close 1 (fs_boot (\<lambda>_. 0)) = (-1, fs_boot (\<lambda>_. 0))"
  using bad_descriptor_refused [where s = "fs_boot (\<lambda>_. 0)" and fd = 8 and buf = "0x200000" and n = 4 and irqs = "[]"]
    bad_descriptor_refused [where s = "fs_boot (\<lambda>_. 0)" and fd = 1] by simp

lemma fs_frame:
  assumes "inodeblk s' = inodeblk s" and "first_datablk s' = first_datablk s" and "bootblk s' = bootblk s"
  shows "file_content s' = file_content s" "inode_ok s' = inode_ok s" "file_area s' = file_area s"
proof -
  have f: "inode_size s' = inode_size s" "inode_block s' = inode_block s"
    using assms by (simp_all add: inode_size_def inode_block_def fun_eq_iff)
  then have "file_size s' = file_size s" "block_addr s' = block_addr s"
    using assms by (simp_all add: file_size_def block_addr_def fun_eq_iff)
  with f assms show "file_content s' = file_content s" "inode_ok s' = inode_ok s" "file_area s' = file_area s"
    by (simp_all add: file_content_def inode_ok_def file_area_def fun_eq_iff)
qed

text \<open>A running process with its two standard descriptors, on its own kernel stack.\<close>

definition std_pcb :: pcb where
  "std_pcb = no_pcb\<lparr>fds := (fds no_pcb)(0 := \<lparr>optable = stdin_fop, inode = 0, file_position = 0, flags = 1\<rparr>,
     1 := \<lparr>optable = stdout_fop, inode = 0, file_position = 0, flags = 1\<rparr>)\<rparr>"

definition shell_boot :: "mem \<Rightarrow> fs_state" where
  "shell_boot m = (fs_boot m)\<lparr>pcbs := (\<lambda>_. std_pcb), esp := 0x7F9F00\<rparr>"

lemma shell_boot_simps [simp]:
  "mem (shell_boot m) = m" "esp (shell_boot m) = 0x7F9F00" "pcbs (shell_boot m) a = std_pcb"
  "now_term_id (shell_boot m) = 1" "cur_term_id (shell_boot m) = 0"
  "terms (shell_boot m) i = no_term\<lparr>term_video_mem := 0xB9000 + of_nat i * 0x1000\<rparr>"
  by (simp_all add: shell_boot_def)

lemma std_pcb_ok: "fd_inv std_pcb"
  by (simp add: fd_inv_def std_pcb_def no_pcb_def)

text \<open>C20: A file opened by its name is read from its start: \<open>open\<close> on the name of a regular file
  returns the first free descriptor, and \<open>read\<close> on that descriptor delivers the first bytes of
  the file's content in the image, as many as were asked for or as there are. The buffers are
  clear of the image, and the process runs on its own kernel stack.\<close>

theorem open_read_file:
  fixes s :: "'a fs_state_scheme"
  defines "a \<equiv> pcb_of_term (now_term_id s) s"
  assumes dir: "dir_ok s (mem s)" "cstr (mem s) fname ns" "ns \<noteq> []" "length ns \<le> 32" "fname \<noteq> 0" "dentry_at fr \<noteq> 0"
      "\<And>i. i < 63 \<Longrightarrow> run (dentry_at fr) 40 \<inter> run (dentry_addr s (of_nat i)) 40 = {}"
    and entry: "find (\<lambda>i. dentry_name s (mem s) i = ns) [0..<63] = Some i"
      "dentry_filetype (mem s) (dentry_addr s (of_nat i)) = 2" "dentry_inode (mem s) (dentry_addr s (of_nat i)) = ino"
    and slot: "k < 8" "k \<noteq> 0" "flags (fds (pcbs s a) k) = 0" "\<forall>j < k. flags (fds (pcbs s a) j) \<noteq> 0"
    and img: "inode_ok s (mem s) ino" "run (dentry_at fr) 40 \<inter> file_area s (mem s) ino = {}"
    and buf: "run buf n \<inter> file_area s (mem s) ino = {}" "buf \<noteq> 0" "n < 2147483648"
    and stack: "get_cur_pcb s = a"
  shows "\<exists>s1 s2. sys_open fr fname s = Some (int k, s1)
    \<and> sys_read irqs (int k) buf (int n) s1 = Some (int (min n (file_size s (mem s) ino)), s2)
    \<and> load (mem s2) buf (min n (file_size s (mem s) ino)) = take n (file_content s (mem s) ino)"
proof -
  obtain m where m: "read_dentry_by_name fname (dentry_at fr) s = Some (0, s\<lparr>mem := m\<rparr>)"
      "dentry_filetype m (dentry_at fr) = 2" "dentry_inode m (dentry_at fr) = ino"
      "\<forall>a. a \<notin> run (dentry_at fr) 40 \<longrightarrow> m a = mem s a"
    using read_dentry_by_name_correct [OF dir] entry by auto
  have same: "m x = mem s x" if "x \<in> file_area s (mem s) ino" for x using m(4) img(2) that by blast
  define s0 where "s0 = s\<lparr>mem := m\<rparr>"
  define s1 where "s1 = update_pcb a (update_fd k (\<lambda>f. f\<lparr>inode := ino, optable := file_fop\<rparr>)) (fd_take a k s0)"
  have "find_free_fd a 0 s0 = (k, fd_take a k s0)"
    by (rule find_free_fd_first) (use slot in \<open>simp_all add: fd_used_def s0_def\<close>)
  then have o: "sys_open fr fname s = Some (int k, s1)"
    using m(1-3) slot(1) by (simp add: sys_open_def a_def [symmetric] s0_def [symmetric] MAX_FILE_NUM_def
        s1_def Let_def) (simp add: s0_def fd_take_def open_as_simps)
  have a1: "pcb_of_term (now_term_id s1) s1 = a" "get_cur_pcb s1 = a"
    using stack by (simp_all add: s1_def s0_def fd_take_def a_def get_cur_pcb_def pcb_of_term_def)
  have f: "fds (pcbs s1 a) k = \<lparr>optable = file_fop, inode = ino, file_position = 0, flags = 1, \<dots> = file_desc.more (fds (pcbs s a) k)\<rparr>"
    by (simp add: s1_def s0_def fd_take_def)
  have "file_content s1 = file_content s" "inode_ok s1 = inode_ok s" "file_area s1 = file_area s" "mem s1 = m"
    using fs_frame [of s1 s] by (simp_all add: s1_def s0_def fd_take_def update_pcb_def)
  with file_content_cong [OF same img(1)]
  have i1: "file_content s1 (mem s1) ino = file_content s (mem s) ino" "inode_ok s1 (mem s1) ino"
      "file_area s1 (mem s1) ino = file_area s (mem s) ino" by simp_all
  let ?out = "take n (file_content s (mem s) ino)"
  have r: "file_read k buf (int n) s1 = (int (length ?out),
      update_pcb a (update_fd k (\<lambda>f. f\<lparr>file_position := file_position f + of_nat (length ?out)\<rparr>))
        (s1\<lparr>mem := store (mem s1) buf ?out\<rparr>))"
    using file_read_eq [where s = s1 and fd = k and nbytes = "int n" and buf = buf, unfolded a1 f] i1 slot(2) buf
    by simp
  have "sys_read irqs (int k) buf (int n) s1 = Some (file_read k buf (int n) s1)"
    using slot(1) buf(2) a1(1) by (simp add: sys_read_def f MAX_FILE_NUM_def file_fop_def)
  moreover have "length ?out = min n (file_size s (mem s) ino)" by (simp add: min.commute)
  moreover have "load (mem (snd (file_read k buf (int n) s1))) buf (length ?out) = ?out"
    using buf(3) by (simp add: r load_store)
  moreover obtain s2 where s2: "file_read k buf (int n) s1 = (int (length ?out), s2)" using r by blast
  ultimately have "sys_read irqs (int k) buf (int n) s1 = Some (int (min n (file_size s (mem s) ino)), s2)
    \<and> load (mem s2) buf (min n (file_size s (mem s) ino)) = ?out" by (simp only: snd_conv)
  with o show ?thesis by blast
qed

theorem open_read_file_witness:
  "\<exists>s1 s2. sys_open \<lparr>temp_buf_at = 0, conv_at = 0, args_at = 0, dentry_at = 0x200000\<rparr> 0x300000
        (shell_boot fs_example_mem) = Some (2, s1)
    \<and> sys_read [] 2 0x400000 2 s1 = Some (2, s2) \<and> load (mem s2) 0x400000 2 = [1, 2]"
proof -
  let ?s = "shell_boot fs_example_mem" and ?f = "fs_boot fs_example_mem"
  have b: "inodeblk ?s = inodeblk ?f" "first_datablk ?s = first_datablk ?f" "bootblk ?s = bootblk ?f"
      "fs_dentry ?s = fs_dentry ?f" by (simp_all add: shell_boot_def)
  have d: "dentry_addr ?s = dentry_addr ?f" using b by (simp add: dentry_addr_def fun_eq_iff)
  have e: "dir_ok ?s = dir_ok ?f" "dentry_name ?s = dentry_name ?f"
    using d by (simp_all add: dir_ok_def dentry_name_def fun_eq_iff)
  note fr = fs_frame [OF b(1-3)]
  have size: "file_size ?s fs_example_mem 0 = 3"
    using fs_example_size length_file_content [of ?s fs_example_mem 0] by (simp add: fr fs_example_content)
  have apart: "run b n \<inter> file_area ?f fs_example_mem 0 = {}" if "0x110000 \<le> unat b" "unat b + n \<le> 4294967296" for b n
    using runs_apart [of b n "0x101000" 4096] runs_apart [of b n "0x102000" 4096] that
    by (simp add: fs_example_area Int_Un_distrib)
  have pcb: "pcb_of_term (Suc 0) ?s = 0x7F8000"
    by (simp add: pcb_of_term_def get_pcb_from_id_def MAX_PCB_MASK_LEN_def no_term_def)
  have t: "dentry_filetype fs_example_mem (dentry_addr ?f 0) = 2" "dentry_inode fs_example_mem (dentry_addr ?f 0) = 0"
    by (simp_all add: dentry_filetype_def dentry_inode_def dentry_addr_def load32_def fs_example_mem_def)
  have two: "\<forall>j < 2. flags (fds std_pcb j) \<noteq> 0" by (auto simp: std_pcb_def less_2_cases_iff)
  show ?thesis
    using open_read_file [where s = ?s and fname = "0x300000" and ns = "[0x61, 0x62, 0x63]" and i = 0 and ino = 0
        and k = 2 and buf = "0x400000" and n = 2 and irqs = "[]"
        and fr = "\<lparr>temp_buf_at = 0, conv_at = 0, args_at = 0, dentry_at = 0x200000\<rparr>"]
      fs_example_dir_ok fs_example_name fs_example_apart fs_example_find fs_example_ok two t
      apart [of "0x200000" 40] apart [of "0x400000" 2]
    by (simp add: e d fr size pcb fs_example_content std_pcb_def no_pcb_def get_cur_pcb_def)
qed

text \<open>Closing what was just opened leaves the same descriptors in use as before, in every
  process, so the next \<open>open\<close> can return the same number again; a process that opens without closing
  is refused once its eight descriptors are in use.\<close>

lemma open_close_roundtrip:
  fixes s :: "'a fs_state_scheme"
  defines "a \<equiv> pcb_of_term (now_term_id s) s"
  assumes "fd_inv (pcbs s a)" and "sys_open fr f s = Some (r, s1)"
  shows "(if r = -1 then fd_used b s1 = fd_used b s
      else fd_used b (snd (sys_close r s1)) = fd_used b s \<and> fst (find_free_fd a 0 (snd (sys_close r s1))) = nat r)
    \<and> ((\<forall>k < 8. fd_used a s k) \<longrightarrow> r = -1)"
proof -
  have std: "fd_used a s 0" "fd_used a s 1" using assms(2) by (simp_all add: fd_inv_def fd_used_def)
  note fr = sys_open_frame [OF assms(3), folded a_def]
  show ?thesis
  proof (cases "r = -1")
    case True
    then show ?thesis using fr(4) by (simp add: fd_used_def fun_eq_iff)
  next
    case False
    then obtain k where k: "k < 8" "r = int k" "\<not> fd_used a s k" "\<forall>j < k. fd_used a s j"
        "\<And>b. fd_used b s1 = (if b = a then (fd_used b s)(k := True) else fd_used b s)"
      using fr(3) by blast
    have "k \<noteq> 0" "k \<noteq> 1" using k(3) std by metis+
    then have "snd (sys_close r s1) = fd_release a k s1"
      using k fr(1,2) by (auto simp: sys_close_eq a_def pcb_of_term_def)
    moreover have "fd_used b (fd_release a k s1) = fd_used b s" for b
    proof (cases "b = a")
      case True
      have "(fd_used a s)(k := False) = fd_used a s" using k(3) by (simp add: fun_upd_idem)
      then show ?thesis using True k(5) [of a] by (simp add: fd_used_release)
    next
      case False
      then show ?thesis using k(5) [of b] by (simp add: fd_used_def fd_release_def fun_eq_iff)
    qed
    moreover have "fst (find_free_fd a 0 (fd_release a k s1)) = k"
      by (rule fd_table.release_alloc) (use k in auto)
    ultimately show ?thesis using k False by auto
  qed
qed

theorem open_close_roundtrip_witness:
  "\<exists>s1. sys_open \<lparr>temp_buf_at = 0, conv_at = 0, args_at = 0, dentry_at = 0x200000\<rparr> 0x300000
        (shell_boot fs_example_mem) = Some (2, s1) \<and> \<not> fd_used 0x7F8000 (snd (sys_close 2 s1)) 2"
proof -
  let ?s = "shell_boot fs_example_mem" and ?fr = "\<lparr>temp_buf_at = 0, conv_at = 0, args_at = 0, dentry_at = 0x200000\<rparr>"
  have "dentry_addr ?s = dentry_addr (fs_boot fs_example_mem)"
    by (simp add: dentry_addr_def fun_eq_iff shell_boot_def)
  then have e: "dir_ok ?s = dir_ok (fs_boot fs_example_mem)" "dentry_name ?s = dentry_name (fs_boot fs_example_mem)"
    "dentry_addr ?s = dentry_addr (fs_boot fs_example_mem)"
    by (simp_all add: dir_ok_def dentry_name_def fun_eq_iff)
  obtain m where "read_dentry_by_name 0x300000 0x200000 ?s = Some (0, ?s\<lparr>mem := m\<rparr>)"
    using read_dentry_by_name_correct [of ?s "0x300000" "[0x61, 0x62, 0x63]" "0x200000"] fs_example_dir_ok
      fs_example_name fs_example_apart fs_example_find by (auto simp: e)
  moreover have "find_free_fd (pcb_of_term 1 ?s) 0 (?s\<lparr>mem := m\<rparr>) = (2, fd_take (pcb_of_term 1 ?s) 2 (?s\<lparr>mem := m\<rparr>))"
    by (rule find_free_fd_first) (auto simp: fd_used_def std_pcb_def no_pcb_def less_2_cases_iff)
  ultimately obtain r s1 where o: "sys_open ?fr 0x300000 ?s = Some (r, s1)" "r = 2"
    using open_as_frame(1) by (fastforce simp: sys_open_def MAX_FILE_NUM_def fd_take_def pcb_of_term_def
        open_as_def rtc_open_def dir_open_def file_open_def Let_def)
  have "pcb_of_term (now_term_id ?s) ?s = 0x7F8000"
    by (simp add: pcb_of_term_def get_pcb_from_id_def MAX_PCB_MASK_LEN_def no_term_def)
  moreover have "\<not> fd_used 0x7F8000 ?s 2" by (simp add: fd_used_def std_pcb_def no_pcb_def)
  ultimately show ?thesis
    using open_close_roundtrip [of ?s ?fr "0x300000" r s1 "0x7F8000"] o std_pcb_ok by auto
qed

end
