(* ===== verification/Process.thy ===== *)
theory Process
  imports Syscalls
begin

text \<open>
  Starting and ending processes: \<open>execute\<close> and \<open>halt\<close> of \<open>system_call.c\<close> and \<open>term_launch\<close>
  of \<open>terminal.c\<close>. Their assembly ends leave the C code, so they have an outcome: a return
  value, the \<open>iret\<close> to a user program's entry point, or the jump into the frame where the
  parent process called \<open>execute\<close>. The code's local arrays lie at the addresses of an
  \<open>exec_frame\<close>, and \<open>lits\<close> gives the address of a string literal.
\<close>

datatype 's outcome =
  Returns int 's
| To_User u32 's \<comment> \<open>\<open>iret\<close> to this address with interrupts on\<close>
| To_Parent int u32 u32 's \<comment> \<open>\<open>leave; ret\<close> on \<open>EBP\<close>, \<open>ESP\<close> with this value in \<open>EAX\<close>\<close>

record exec_frame =
  filename_at :: addr
  fileargs_at :: addr
  headerbuf_at :: addr
  magicnumber_at :: addr
  loader_at :: addr
  magic_dentry_at :: addr
  exec_conv_at :: addr
  exec_args_at :: addr

section \<open>Parsing the command\<close>

text \<open>
  The loop over the command, with the length check as the code has it, against the position
  in the command and not the one in \<open>filename\<close>. \<open>None\<close> inside is the return of \<open>-1\<close>.
\<close>

partial_function (option) parse_command ::
  "exec_frame \<Rightarrow> addr \<Rightarrow> u32 \<Rightarrow> int \<Rightarrow> u32 \<Rightarrow> mem \<Rightarrow> mem option option" where
  "parse_command fr command i filename_flag offset m =
     (let c = m (command + i)
      in if c = 0 then Some (Some m)
         else if i > MAX_FILENAME_LENGTH \<and> filename_flag = 0 then Some None
         else if c = 0x20 \<and> filename_flag = -1
         then parse_command fr command (i + 1) filename_flag offset m
         else if c \<noteq> 0x20 \<and> (filename_flag = -1 \<or> filename_flag = 0)
         then parse_command fr command (i + 1) 0 (offset + 1) (m(filename_at fr + offset := c))
         else if c = 0x20 \<and> (filename_flag = 0 \<or> filename_flag = 1)
         then parse_command fr command (i + 1) 1 0 m
         else if filename_flag = 1 \<or> filename_flag = 2
         then parse_command fr command (i + 1) 2 (offset + 1) (m(fileargs_at fr + offset := c))
         else parse_command fr command (i + 1) filename_flag offset m)"

text \<open>The two arrays cleared, then the loop.\<close>

definition parse_args :: "exec_frame \<Rightarrow> addr \<Rightarrow> mem \<Rightarrow> mem option option" where
  "parse_args fr command m =
     (let m = for_range 0 (unat MAX_FILENAME_LENGTH) (\<lambda>i m. m(filename_at fr + of_nat i := 0)) m;
          m = for_range 0 MAX_ARG_LENGTH (\<lambda>i m. m(fileargs_at fr + of_nat i := 0)) m
      in parse_command fr command 0 (-1) 0 m)"

section \<open>\<open>execute\<close>\<close>

definition no_file :: file_desc where
  "no_file = \<lparr>optable = error_fop, inode = 0, file_position = 0, flags = 0\<rparr>"

definition create_pcb :: "int \<Rightarrow> addr \<Rightarrow> 'a fs_state_scheme \<Rightarrow> 'a fs_state_scheme" where
  "create_pcb PCB_number fileargs s =
     (let pcb = 0x800000 - (word_of_int PCB_number + 1) * 0x2000;
          s = update_pcb pcb (\<lambda>p. p\<lparr>parent_kbp := ebp s, parent_ksp := esp s\<rparr>) s;
          s = update_pcb pcb (\<lambda>p. p\<lparr>process_number := PCB_number, pcb_term_id := cur_term_id s\<rparr>) s;
          s = update_term (cur_term_id s) (\<lambda>t. t\<lparr>cur_pcb_id := PCB_number mod 4\<rparr>) s;
          s = update_pcb pcb (\<lambda>p. p\<lparr>parent_process_number :=
                if PCB_number mod 4 = 0 then -1 else process_number p - 1\<rparr>) s;
          s = for_range 0 MAX_FILE_NUM (\<lambda>i. update_pcb pcb (update_fd i (\<lambda>_. no_file))) s;
          s = update_pcb pcb (update_fd 0 (\<lambda>f. f\<lparr>optable := stdin_fop, flags := 1\<rparr>)) s;
          s = update_pcb pcb (update_fd 1 (\<lambda>f. f\<lparr>optable := stdout_fop, flags := 1\<rparr>)) s;
          s = for_range 0 MAX_ARG_LENGTH
                (\<lambda>i. update_pcb pcb (\<lambda>p. p\<lparr>argbuf := (argbuf p)[i := 0]\<rparr>)) s;
          s = for_range 0 MAX_ARG_LENGTH
                (\<lambda>i s. update_pcb pcb (\<lambda>p. p\<lparr>argbuf := (argbuf p)[i := mem s (fileargs + of_nat i)]\<rparr>) s) s
      in update_pcb pcb (\<lambda>p. p\<lparr>cur_tss_byte0 := 0\<rparr>) s)"

definition entry_point :: "mem \<Rightarrow> addr \<Rightarrow> u32" where
  "entry_point m headerbuf = push_bit 24 (ucast (m (headerbuf + 27))) OR push_bit 16 (ucast (m (headerbuf + 26)))
     OR push_bit 8 (ucast (m (headerbuf + 25))) OR ucast (m (headerbuf + 24))"

text \<open>From the free process number on: map, load, create the control block, enter the program.\<close>

definition load_program ::
  "exec_frame \<Rightarrow> int \<Rightarrow> 'a fs_state_scheme \<Rightarrow> 'a fs_state_scheme outcome option" where
  "load_program fr PCB_number s =
     (let s = pcb_mapping 0x8000000 (0x800000 + word_of_int PCB_number * 0x400000) s
      in do {
        (r, s) \<leftarrow> read_dentry_by_name (filename_at fr) (loader_at fr) s;
        if r = -1 then Some (Returns (-1) s)
        else
          let ino = dentry_inode (mem s) (loader_at fr);
              (r, s) = read_data ino 0 0x08048000 (inode_size s (mem s) ino) s
          in if r = -1 then Some (Returns (-1) s)
             else
               let s = create_pcb PCB_number (fileargs_at fr) s;
                   s = s\<lparr>tss_esp0 := 0x800000 - word_of_int PCB_number * 0x2000 - 4\<rparr>;
                   s = s\<lparr>tss_ss0 := 0x18\<rparr>;
                   s = flush s;
                   s = s\<lparr>interrupt_halt_flag := 0\<rparr>
               in Some (To_User (entry_point (mem s) (headerbuf_at fr)) (s\<lparr>iflag := True\<rparr>))
      })"

definition execute ::
  "(string \<Rightarrow> addr) \<Rightarrow> exec_frame \<Rightarrow> addr \<Rightarrow> 'a fs_state_scheme \<Rightarrow> 'a fs_state_scheme outcome option"
  where
  "execute lits fr command s =
     (let s = s\<lparr>mem := store (mem s) (magicnumber_at fr) [0x7F, 0x45, 0x4C, 0x46]\<rparr>
      in if command = 0 then Some (Returns (-1) s)
         else do {
           parsed \<leftarrow> parse_args fr command (mem s);
           case parsed of None \<Rightarrow> Some (Returns (-1) s)
           | Some m \<Rightarrow> do {
             (r, s) \<leftarrow> read_dentry_by_name (filename_at fr) (magic_dentry_at fr) (s\<lparr>mem := m\<rparr>);
             if r = -1 then Some (Returns (-1) s)
             else
               let (r, s) = read_data (dentry_inode (mem s) (magic_dentry_at fr)) 0 (headerbuf_at fr) 40 s
               in if strncmp (mem s) (headerbuf_at fr) (magicnumber_at fr) 4 \<noteq> 0 then Some (Returns (-1) s)
                  else do {
                    (PCB_number, s) \<leftarrow> PCB_process_number s;
                    if PCB_number = -1 then do {
                      (s, n) \<leftarrow> printf (exec_conv_at fr) (lits ''There are no available space in the PCB\<newline>'')
                                   (exec_args_at fr) s;
                      Some (Returns 0 s)
                    }
                    else load_program fr PCB_number s
                  }
           }
         })"

section \<open>\<open>halt\<close> and \<open>term_launch\<close>\<close>

text \<open>
  The descriptors of the ending process: the flag is cleared first, then \<open>close\<close> is called,
  which looks the descriptor up in the control block of the terminal's current process, by
  now the parent.
\<close>

definition halt_close_fd :: "addr \<Rightarrow> nat \<Rightarrow> 'a fs_state_scheme \<Rightarrow> 'a fs_state_scheme" where
  "halt_close_fd cur_pcb i s =
     (let s = (if flags (fds (pcbs s cur_pcb) i) = 1
               then snd (sys_close (int i) (update_pcb cur_pcb (update_fd i (\<lambda>f. f\<lparr>flags := 0\<rparr>)) s))
               else s)
      in update_pcb cur_pcb (update_fd i (\<lambda>f. f\<lparr>optable := error_fop\<rparr>)) s)"

definition halt_to_parent :: "byte \<Rightarrow> addr \<Rightarrow> 'a fs_state_scheme \<Rightarrow> 'a fs_state_scheme outcome" where
  "halt_to_parent status cur_pcb s =
     (let parent_pcb = 0x800000 - (word_of_int (parent_process_number (pcbs s cur_pcb)) + 1) * 0x2000;
          s = pcb_mapping 0x8000000
                (0x800000 + word_of_int (process_number (pcbs s parent_pcb)) * 0x400000) s;
          s = s\<lparr>tss_esp0 := 0x800000 - word_of_int (process_number (pcbs s parent_pcb)) * 0x2000 - 4\<rparr>;
          cur_status = (if interrupt_halt_flag s \<noteq> 0 then uint status OR 0x100 else uint status);
          s = s\<lparr>interrupt_halt_flag := 0\<rparr>
      in To_Parent cur_status (parent_kbp (pcbs s cur_pcb)) (parent_ksp (pcbs s cur_pcb)) s)"

definition halt ::
  "(string \<Rightarrow> addr) \<Rightarrow> exec_frame \<Rightarrow> byte \<Rightarrow> 'a fs_state_scheme \<Rightarrow> 'a fs_state_scheme outcome option" where
  "halt lits fr status s =
     (let s = buf_clear s;
          cur_pcb = pcb_of_term (now_term_id s) s;
          s = update_term (now_term_id s) (\<lambda>t. t\<lparr>cur_pcb_id :=
                c_rem (parent_process_number (pcbs s cur_pcb)) (int MAX_PCB_MASK_LEN)\<rparr>) s;
          pn = unat (word_of_int (process_number (pcbs s cur_pcb)) :: byte);
          s = set_mask (pn div MAX_PCB_MASK_LEN) (pn mod MAX_PCB_MASK_LEN) 0 s;
          s = for_range 0 MAX_FILE_NUM (halt_close_fd cur_pcb) s
      in if parent_process_number (pcbs s cur_pcb) = -1 then do {
           (s, n) \<leftarrow> printf (exec_conv_at fr) (lits ''Halting the last shell is not allowed!\<newline>'')
                        (exec_args_at fr) s;
           r \<leftarrow> execute lits fr (lits ''shell'') s;
           case r of Returns _ s \<Rightarrow> Some (halt_to_parent status cur_pcb s) | _ \<Rightarrow> Some r
         }
         else Some (halt_to_parent status cur_pcb s))"

definition term_launch ::
  "(string \<Rightarrow> addr) \<Rightarrow> exec_frame \<Rightarrow> nat \<Rightarrow> 'a fs_state_scheme \<Rightarrow> 'a fs_state_scheme outcome option" where
  "term_launch lits fr i s =
     (let s = cli s
      in if i \<ge> TERM_MAX then Some (Returns (-1) s)
         else if i = cur_term_id s then Some (Returns 0 s)
         else if running (terms s i) \<noteq> 0 then
           do { s \<leftarrow> term_switch (cur_term_id s) i s; Some (Returns 0 s) }
         else do {
           s \<leftarrow> (if cur_term_id s < TERM_MAX then term_save (cur_term_id s) s else Some s);
           s \<leftarrow> term_restore i s;
           r \<leftarrow> execute lits fr (lits ''shell'') (update_term i (\<lambda>t. t\<lparr>running := 1\<rparr>) s);
           case r of Returns _ s \<Rightarrow> Some (Returns 0 s) | _ \<Rightarrow> Some r
         })"

section \<open>The parser's effect\<close>

text \<open>A loop that stores one byte per turn stores them all, as long as it leaves what it reads alone.\<close>

lemma loop_store:
  assumes step: "\<And>k m. k < length w \<Longrightarrow> (\<forall>x \<in> R. m x = m0 x) \<Longrightarrow> F k m = F (Suc k) (m(a + of_nat k := w ! k))"
    and apart: "run a (length w) \<inter> R = {}" and len: "length w \<le> 4294967296"
  shows "F 0 m0 = F (length w) (store m0 a w)"
proof -
  have "k \<le> length w \<Longrightarrow> F 0 m0 = F k (store m0 a (take k w))" for k
  proof (induction k)
    case (Suc k)
    have k: "k < length w" using Suc.prems by simp
    have "x \<notin> run a (length (take k w))" if "x \<in> R" for x
    proof
      assume "x \<in> run a (length (take k w))"
      moreover have "run a (length (take k w)) \<subseteq> run a (length w)" by (rule image_mono) auto
      ultimately show False using apart that by blast
    qed
    then have "\<forall>x \<in> R. store m0 a (take k w) x = m0 x" by (simp add: store_outside_run)
    from step [OF k this] have "F 0 m0 = F (Suc k) ((store m0 a (take k w))(a + of_nat k := w ! k))"
      using Suc by simp
    also have "(store m0 a (take k w))(a + of_nat k := w ! k) = store m0 a (take (Suc k) w)"
      using store_append [of "take k w" "[w ! k]" m0 a] k len by (simp add: take_Suc_conv_app_nth)
    finally show ?case .
  qed simp
  from this [of "length w"] show ?thesis by simp
qed

lemma for_range_clear: "n \<le> 4294967296 \<Longrightarrow>
    for_range 0 n (\<lambda>i m. m(a + of_nat i := b)) m = store m a (replicate n b)"
proof (induction n)
  case (Suc n)
  then show ?case
    using store_append [of "replicate n b" "[b]" m a] by (simp add: for_range_Suc replicate_append_same fun_upd_def)
qed simp

text \<open>The bytes the loop reads are the command and its terminator.\<close>

lemma cstr_at: "cstr m s xs \<Longrightarrow> i \<le> length xs \<Longrightarrow> m (s + of_nat i) = (xs @ [0]) ! i"
  using cstr_nth [of m s xs i] by (cases "i = length xs") (auto simp: cstr_def nth_append)

lemma cstr_agree: "cstr m s xs \<Longrightarrow> \<forall>x \<in> run s (Suc (length xs)). m' x = m x \<Longrightarrow> cstr m' s xs"
  using cstr_cong [of s xs m m'] by simp

lemma cstr_char: "cstr m s xs \<Longrightarrow> i < length xs \<Longrightarrow> xs ! i \<noteq> 0"
  by (metis cstr_def nth_mem)

text \<open>One turn of the loop, by the flag.\<close>

lemma parse_turn:
  assumes c: "cstr m command cs" and i: "i < length cs" and fit: "fl = 0 \<longrightarrow> i \<le> 32"
  shows "cs ! i = 0x20 \<Longrightarrow> fl = -1 \<Longrightarrow> parse_command fr command (of_nat i) fl off m
      = parse_command fr command (of_nat (Suc i)) (-1) off m"
    and "cs ! i \<noteq> 0x20 \<Longrightarrow> fl = -1 \<or> fl = 0 \<Longrightarrow> parse_command fr command (of_nat i) fl off m
      = parse_command fr command (of_nat (Suc i)) 0 (off + 1) (m(filename_at fr + off := cs ! i))"
    and "cs ! i = 0x20 \<Longrightarrow> fl = 0 \<or> fl = 1 \<Longrightarrow> parse_command fr command (of_nat i) fl off m
      = parse_command fr command (of_nat (Suc i)) 1 0 m"
    and "cs ! i \<noteq> 0x20 \<and> fl = 1 \<or> fl = 2 \<Longrightarrow> parse_command fr command (of_nat i) fl off m
      = parse_command fr command (of_nat (Suc i)) 2 (off + 1) (m(fileargs_at fr + off := cs ! i))"
proof -
  have ch: "m (command + of_nat i) = cs ! i" "cs ! i \<noteq> 0"
    using cstr_nth [OF c i] cstr_char [OF c i] by simp_all
  have "i < 4294967296" using c i by (simp add: cstr_def)
  then have "\<not> (of_nat i > MAX_FILENAME_LENGTH \<and> fl = 0)"
    using fit by (auto simp: MAX_FILENAME_LENGTH_def word_less_nat_alt)
  note simps = parse_command.simps [of fr command "of_nat i"] ch this Let_def add.commute [of _ 1]
  show "cs ! i = 0x20 \<Longrightarrow> fl = -1 \<Longrightarrow> parse_command fr command (of_nat i) fl off m
      = parse_command fr command (of_nat (Suc i)) (-1) off m"
    "cs ! i \<noteq> 0x20 \<Longrightarrow> fl = -1 \<or> fl = 0 \<Longrightarrow> parse_command fr command (of_nat i) fl off m
      = parse_command fr command (of_nat (Suc i)) 0 (off + 1) (m(filename_at fr + off := cs ! i))"
    "cs ! i = 0x20 \<Longrightarrow> fl = 0 \<or> fl = 1 \<Longrightarrow> parse_command fr command (of_nat i) fl off m
      = parse_command fr command (of_nat (Suc i)) 1 0 m"
    "cs ! i \<noteq> 0x20 \<and> fl = 1 \<or> fl = 2 \<Longrightarrow> parse_command fr command (of_nat i) fl off m
      = parse_command fr command (of_nat (Suc i)) 2 (off + 1) (m(fileargs_at fr + off := cs ! i))"
    using simps by (auto simp: add.commute)
qed

lemma parse_spaces:
  assumes c: "cstr m command cs" and fl: "fl = -1 \<or> fl = 1 \<and> off = 0"
  shows "i \<le> j \<Longrightarrow> j \<le> length cs \<Longrightarrow> (\<forall>k. i \<le> k \<longrightarrow> k < j \<longrightarrow> cs ! k = 0x20) \<Longrightarrow>
    parse_command fr command (of_nat i) fl off m = parse_command fr command (of_nat j) fl off m"
proof (induction "j - i" arbitrary: i)
  case (Suc n)
  then have i: "i < length cs" "cs ! i = 0x20" by simp_all
  have "parse_command fr command (of_nat i) fl off m = parse_command fr command (of_nat (Suc i)) fl off m"
    using fl parse_turn(1,3) [OF c i(1), of fl] i(2) by auto
  also have "\<dots> = parse_command fr command (of_nat j) fl off m" using Suc by (intro Suc.hyps(1)) auto
  finally show ?case .
qed simp

lemma parse_word:
  assumes c: "cstr m command cs" and w: "\<forall>k < length w. cs ! (i + k) = w ! k" "i + length w \<le> length cs"
    and kind: "base = filename_at fr \<and> fl = -1 \<and> fl' = 0 \<and> i + length w \<le> 32 \<and> 0x20 \<notin> set w
      \<or> base = fileargs_at fr \<and> fl = 1 \<and> fl' = 2 \<and> hd w \<noteq> 0x20"
    and "w \<noteq> []" and apart: "run base (length w) \<inter> run command (Suc (length cs)) = {}"
  shows "parse_command fr command (of_nat i) fl 0 m
    = parse_command fr command (of_nat (i + length w)) fl' (of_nat (length w)) (store m base w)"
proof -
  let ?F = "\<lambda>k m. parse_command fr command (of_nat (i + k)) (if k = 0 then fl else fl') (of_nat k) m"
  have "?F 0 m = ?F (length w) (store m base w)"
  proof (rule loop_store [where R = "run command (Suc (length cs))"])
    fix k m' assume k: "k < length w" and a: "\<forall>x \<in> run command (Suc (length cs)). m' x = m x"
    have c': "cstr m' command cs" using cstr_agree [OF c a] .
    have i: "i + k < length cs" "cs ! (i + k) = w ! k" using k w by auto
    show "?F k m' = ?F (Suc k) (m'(base + of_nat k := w ! k))"
      using kind
    proof (elim disjE conjE)
      assume n: "base = filename_at fr" "fl = -1" "fl' = 0" "i + length w \<le> 32" "0x20 \<notin> set w"
      have "w ! k \<noteq> 0x20" using n(5) k by (metis nth_mem)
      then show ?thesis
        using parse_turn(2) [OF c' i(1), of "if k = 0 then fl else fl'" fr "of_nat k"] n i(2) k
        by (auto simp: add.commute)
    next
      assume n: "base = fileargs_at fr" "fl = 1" "fl' = 2" "hd w \<noteq> 0x20"
      have "k = 0 \<longrightarrow> w ! k \<noteq> 0x20" using n(4) k by (auto simp: hd_conv_nth)
      then show ?thesis
        using parse_turn(4) [OF c' i(1), of "if k = 0 then fl else fl'" fr "of_nat k"] n i(2)
        by (auto simp: add.commute)
    qed
  next
    show "length w \<le> 4294967296" using c w(2) by (simp add: cstr_def)
  qed (rule apart)
  then show ?thesis using assms(5) by simp
qed

lemma parse_end: "cstr m command cs \<Longrightarrow> parse_command fr command (of_nat (length cs)) fl off m = Some (Some m)"
  by (subst parse_command.simps) (simp add: cstr_def)

text \<open>The whole loop on a command in its parts.\<close>

lemma parse_command_eq:
  assumes c: "cstr m command cs" and cs: "cs = replicate p 0x20 @ name @ replicate q 0x20 @ args"
    and name: "name \<noteq> []" "0x20 \<notin> set name" "p + length name \<le> 32"
    and args: "args = [] \<or> hd args \<noteq> 0x20 \<and> q \<noteq> 0"
    and apart: "run (filename_at fr) (length name) \<inter> run command (Suc (length cs)) = {}"
      "run (fileargs_at fr) (length args) \<inter> run command (Suc (length cs)) = {}"
  shows "parse_command fr command 0 (-1) 0 m
    = Some (Some (store (store m (filename_at fr) name) (fileargs_at fr) args))"
proof -
  let ?m1 = "store m (filename_at fr) name" and ?n = "p + length name"
  have c1: "cstr ?m1 command cs"
    by (rule cstr_agree [OF c]) (use apart(1) in \<open>blast intro: store_outside_run\<close>)
  have "parse_command fr command 0 (-1) 0 m = parse_command fr command (of_nat p) (-1) 0 m"
    using parse_spaces [OF c, of "-1" 0 0 p fr] by (auto simp: cs nth_append)
  also have "\<dots> = parse_command fr command (of_nat ?n) 0 (of_nat (length name)) ?m1"
    by (rule parse_word [OF c]) (use name apart in \<open>auto simp: cs nth_append\<close>)
  also have "\<dots> = Some (Some (store ?m1 (fileargs_at fr) args))"
  proof (cases "q = 0")
    case True
    then have "?n = length cs" "args = []" using args by (auto simp: cs)
    then show ?thesis using parse_end [OF c1] by simp
  next
    case False
    have "parse_command fr command (of_nat ?n) 0 (of_nat (length name)) ?m1
        = parse_command fr command (of_nat (Suc ?n)) 1 0 ?m1"
      by (rule parse_turn(3) [OF c1]) (use False name(3) in \<open>auto simp: cs nth_append\<close>)
    also have "\<dots> = parse_command fr command (of_nat (?n + q)) 1 0 ?m1"
      by (rule parse_spaces [OF c1]) (use False in \<open>auto simp: cs nth_append\<close>)
    also have "\<dots> = Some (Some (store ?m1 (fileargs_at fr) args))"
    proof (cases "args = []")
      case True
      then have "?n + q = length cs" by (simp add: cs)
      then show ?thesis using parse_end [OF c1] True by (simp only: store_Nil)
    next
      case ne: False
      have "parse_command fr command (of_nat (?n + q)) 1 0 ?m1
          = parse_command fr command (of_nat (?n + q + length args)) 2 (of_nat (length args)) (store ?m1 (fileargs_at fr) args)"
        by (rule parse_word [OF c1]) (use ne args apart in \<open>auto simp: cs nth_append\<close>)
      moreover have "cstr (store ?m1 (fileargs_at fr) args) command cs"
        by (rule cstr_agree [OF c1]) (use apart(2) in \<open>blast intro: store_outside_run\<close>)
      moreover have "?n + q + length args = length cs" by (simp add: cs)
      ultimately show ?thesis using parse_end by simp
    qed
    finally show ?thesis .
  qed
  finally show ?thesis .
qed

lemma subset_apart: "A \<subseteq> B \<Longrightarrow> B \<inter> C = {} \<Longrightarrow> A \<inter> C = {}"
  by blast

lemma load_store_prefix:
  assumes "length xs \<le> n" and "n \<le> 4294967296"
  shows "load (store m a xs) a n = xs @ drop (length xs) (load m a n)"
  by (rule nth_equalityI) (use assms in \<open>auto simp: store_def nth_append\<close>)

section \<open>The new process\<close>

text \<open>A loop over one control block is the loop on the block.\<close>

lemma for_range_pcb:
  "for_range lo hi (\<lambda>i. update_pcb a (f i)) s = update_pcb a (\<lambda>_. for_range lo hi f (pcbs s a)) s"
proof -
  have "for_range lo hi (\<lambda>i. update_pcb a (f i)) (update_pcb a (\<lambda>_. p) s)
      = update_pcb a (\<lambda>_. for_range lo hi f p) s" for p
    by (rule for_range_map) (simp add: update_pcb_def)
  from this [of "pcbs s a"] show ?thesis by (simp add: update_pcb_def)
qed

lemma fds_cleared:
  "for_range 0 n (\<lambda>i. update_fd i (\<lambda>_. d)) p = p\<lparr>fds := \<lambda>i. if i < n then d else fds p i\<rparr>"
proof (induction n)
  case (Suc n)
  have "(\<lambda>i. if i < n then d else fds p i)(n := d) = (\<lambda>i. if i < Suc n then d else fds p i)"
    by (auto simp: fun_eq_iff less_Suc_eq)
  with Suc show ?case by (simp add: for_range_Suc update_fd_def)
qed simp

lemma argbuf_filled:
  "length (argbuf p) = n \<Longrightarrow> for_range 0 n (\<lambda>i p. p\<lparr>argbuf := (argbuf p)[i := g i]\<rparr>) p = p\<lparr>argbuf := map g [0..<n]\<rparr>"
proof -
  assume l: "length (argbuf p) = n"
  have "for_range 0 n (\<lambda>i p. p\<lparr>argbuf := (argbuf p)[i := g i]\<rparr>) (p\<lparr>argbuf := argbuf p\<rparr>)
      = p\<lparr>argbuf := for_range 0 n (\<lambda>i xs. xs[i := g i]) (argbuf p)\<rparr>"
    by (rule for_range_map) simp
  then show ?thesis using l by (simp add: for_range_fill_all)
qed

text \<open>The copy of the arguments reads memory, which the loop leaves alone.\<close>

lemma argbuf_copied:
  "length (argbuf (pcbs s a)) = n \<Longrightarrow>
    for_range 0 n (\<lambda>i s. update_pcb a (\<lambda>p. p\<lparr>argbuf := (argbuf p)[i := mem s (src + of_nat i)]\<rparr>) s) s
      = update_pcb a (\<lambda>p. p\<lparr>argbuf := load (mem s) src n\<rparr>) s"
proof -
  assume l: "length (argbuf (pcbs s a)) = n"
  let ?f = "\<lambda>xs. update_pcb a (\<lambda>p. p\<lparr>argbuf := xs\<rparr>) s"
  have "for_range 0 n (\<lambda>i s. update_pcb a (\<lambda>p. p\<lparr>argbuf := (argbuf p)[i := mem s (src + of_nat i)]\<rparr>) s)
        (?f (argbuf (pcbs s a)))
      = ?f (for_range 0 n (\<lambda>i xs. xs[i := mem s (src + of_nat i)]) (argbuf (pcbs s a)))"
    by (rule for_range_map) (simp add: update_pcb_def)
  moreover have "?f (argbuf (pcbs s a)) = s" by (simp add: update_pcb_def)
  ultimately show ?thesis using l by (simp add: for_range_fill_all load_def)
qed

definition new_pcb :: "int \<Rightarrow> addr \<Rightarrow> 'a fs_state_scheme \<Rightarrow> pcb \<Rightarrow> pcb" where
  "new_pcb n fileargs s p = p\<lparr>parent_kbp := ebp s, parent_ksp := esp s, process_number := n,
     pcb_term_id := cur_term_id s, parent_process_number := if n mod 4 = 0 then -1 else n - 1,
     fds := (\<lambda>i. if i < 8 then no_file else fds p i)
       (0 := no_file\<lparr>optable := stdin_fop, flags := 1\<rparr>, 1 := no_file\<lparr>optable := stdout_fop, flags := 1\<rparr>),
     argbuf := load (mem s) fileargs 100, cur_tss_byte0 := 0\<rparr>"

lemma update_pcb_const:
  "update_pcb a f (update_pcb a (\<lambda>_. p) s) = update_pcb a (\<lambda>_. f p) s"
  "update_term i g (update_pcb a f s) = update_pcb a f (update_term i g s)"
  by (simp_all add: update_pcb_def update_term_def)

lemma create_pcb_eq:
  assumes "length (argbuf (pcbs s (0x800000 - (word_of_int n + 1) * 0x2000))) = 100"
  shows "create_pcb n fileargs s =
    update_pcb (0x800000 - (word_of_int n + 1) * 0x2000) (new_pcb n fileargs s)
      (update_term (cur_term_id s) (\<lambda>t. t\<lparr>cur_pcb_id := n mod 4\<rparr>) s)"
proof -
  define a :: addr where "a = 0x800000 - (word_of_int n + 1) * 0x2000"
  define p where "p = pcbs s a"
  have p: "length (argbuf p) = 100" using assms by (simp add: p_def a_def)
  have s: "update_pcb a (\<lambda>_. p) s = s" by (simp add: update_pcb_def p_def)
  have "create_pcb n fileargs (update_pcb a (\<lambda>_. p) s) = update_pcb a (\<lambda>_. new_pcb n fileargs s p)
      (update_term (cur_term_id s) (\<lambda>t. t\<lparr>cur_pcb_id := n mod 4\<rparr>) s)"
    unfolding create_pcb_def Let_def a_def [symmetric]
    using p by (simp add: update_pcb_const for_range_pcb fds_cleared argbuf_filled argbuf_copied MAX_FILE_NUM_def
        MAX_ARG_LENGTH_def map_replicate_const new_pcb_def update_fd_def no_file_def cong: if_cong)
  then show ?thesis unfolding s a_def [symmetric] by (simp add: update_pcb_def update_term_def p_def)
qed

lemma update_term_proc [simp]:
  "pcbs (update_term i f s) = pcbs s" "esp (update_term i f s) = esp s" "ebp (update_term i f s) = ebp s"
  "PCB_mask (update_term i f s) = PCB_mask s"
  by (simp_all add: update_term_def)

lemma read_data_frame: "\<exists>m. snd (read_data ino off buf len s) = s\<lparr>mem := m\<rparr>"
  by (auto simp: read_data_def Let_def split: prod.splits intro: exI [of _ "mem s"])

lemma pcb_mapping_frame [simp]:
  "pcbs (pcb_mapping va p s) = pcbs s" "terms (pcb_mapping va p s) = terms s"
  "cur_term_id (pcb_mapping va p s) = cur_term_id s" "now_term_id (pcb_mapping va p s) = now_term_id s"
  "esp (pcb_mapping va p s) = esp s" "ebp (pcb_mapping va p s) = ebp s" "PCB_mask (pcb_mapping va p s) = PCB_mask s"
  "mem (pcb_mapping va p s) = mem s"
  by (simp_all add: pcb_mapping_def Let_def set_page_dir_def flush_def)

text \<open>A program entered is a program mapped, read and given its control block.\<close>

lemma entry_point_load32: "entry_point m a = load32 m (a + 24)"
  by (simp add: entry_point_def load32_def add.assoc ac_simps)

lemma load_program_entered:
  assumes "load_program fr n s = Some (To_User e s')"
    and args: "length (argbuf (pcbs s (0x800000 - (word_of_int n + 1) * 0x2000))) = 100"
  defines "S \<equiv> \<lambda>m. (pcb_mapping 0x8000000 (0x800000 + word_of_int n * 0x400000) s)\<lparr>mem := m\<rparr>"
  obtains m where "e = entry_point m (headerbuf_at fr)"
    "s' = (flush ((update_pcb (0x800000 - (word_of_int n + 1) * 0x2000) (new_pcb n (fileargs_at fr) (S m))
        (update_term (cur_term_id s) (\<lambda>t. t\<lparr>cur_pcb_id := n mod 4\<rparr>) (S m)))
          \<lparr>tss_esp0 := 0x800000 - word_of_int n * 0x2000 - 4, tss_ss0 := 0x18\<rparr>))
      \<lparr>interrupt_halt_flag := 0, iflag := True\<rparr>"
proof -
  let ?s1 = "pcb_mapping 0x8000000 (0x800000 + word_of_int n * 0x400000) s"
  obtain r s2 where d: "read_dentry_by_name (filename_at fr) (loader_at fr) ?s1 = Some (r, s2)" "r \<noteq> -1"
    using assms by (auto simp: load_program_def Let_def bind_eq_Some_conv split: if_splits)
  obtain m where m: "s2 = ?s1\<lparr>mem := m\<rparr>" using read_dentry_by_name_frame [OF d(1)] by blast
  let ?ino = "dentry_inode (mem s2) (loader_at fr)"
  obtain r' s3 where r: "read_data ?ino 0 0x08048000 (inode_size s2 (mem s2) ?ino) s2 = (r', s3)" by fastforce
  obtain m' where m': "s3 = ?s1\<lparr>mem := m'\<rparr>"
    using read_data_frame [of ?ino 0 "0x08048000" "inode_size s2 (mem s2) ?ino" s2] r m by auto
  have r': "r' \<noteq> -1" using assms d r by (auto simp: load_program_def Let_def)
  have "create_pcb n (fileargs_at fr) (S m') = update_pcb (0x800000 - (word_of_int n + 1) * 0x2000)
      (new_pcb n (fileargs_at fr) (S m')) (update_term (cur_term_id s) (\<lambda>t. t\<lparr>cur_pcb_id := n mod 4\<rparr>) (S m'))"
    using create_pcb_eq [of "S m'" n "fileargs_at fr"] args by (simp add: S_def)
  moreover have "load_program fr n s = Some (To_User (entry_point (mem (create_pcb n (fileargs_at fr) (S m'))) (headerbuf_at fr))
      ((flush ((create_pcb n (fileargs_at fr) (S m'))\<lparr>tss_esp0 := 0x800000 - word_of_int n * 0x2000 - 4, tss_ss0 := 0x18\<rparr>))
        \<lparr>interrupt_halt_flag := 0, iflag := True\<rparr>))"
    using d r r' by (simp add: load_program_def Let_def m' S_def flush_def)
  moreover have "mem (S m') = m'" by (simp add: S_def)
  ultimately show thesis using assms(1) that [of m'] by simp
qed

lemma execute_entered:
  assumes "execute lits fr command s = Some (To_User e s')"
  obtains m n s2 where "PCB_process_number (s\<lparr>mem := m\<rparr>) = Some (n, s2)" "n \<noteq> -1"
    "load_program fr n s2 = Some (To_User e s')"
proof -
  define s0 where "s0 = s\<lparr>mem := store (mem s) (magicnumber_at fr) [0x7F, 0x45, 0x4C, 0x46]\<rparr>"
  obtain m r s1 where 1: "parse_args fr command (mem s0) = Some (Some m)"
      "read_dentry_by_name (filename_at fr) (magic_dentry_at fr) (s0\<lparr>mem := m\<rparr>) = Some (r, s1)" "r \<noteq> -1"
    using assms by (auto simp: execute_def Let_def s0_def bind_eq_Some_conv split: if_splits option.splits)
  obtain m1 where m1: "s1 = s0\<lparr>mem := m1\<rparr>" using read_dentry_by_name_frame [OF 1(2)] by auto
  let ?ino = "dentry_inode (mem s1) (magic_dentry_at fr)"
  obtain r2 s2 where 2: "read_data ?ino 0 (headerbuf_at fr) 40 s1 = (r2, s2)" by fastforce
  obtain m2 where m2: "s2 = s\<lparr>mem := m2\<rparr>"
    using read_data_frame [of ?ino 0 "headerbuf_at fr" 40 s1] 2 m1 by (auto simp: s0_def)
  obtain n s3 where 3: "PCB_process_number s2 = Some (n, s3)" "n \<noteq> -1" "load_program fr n s3 = Some (To_User e s')"
    using assms 1 2 by (auto simp: execute_def Let_def s0_def [symmetric] bind_eq_Some_conv split: if_splits)
  then show thesis using that m2 by blast
qed

lemma get_pcb_from_id_eq:
  assumes "n < 256"
  shows "get_pcb_from_id (word_of_int (int n)) = 0x800000 - (word_of_int (int n) + 1) * 0x2000"
proof -
  have "(ucast (of_nat n :: byte) :: u32) = of_nat n"
    using assms by (simp add: word_unat_eq_iff unat_of_nat unsigned_ucast_eq take_bit_nat_eq_self)
  then show ?thesis by (simp add: get_pcb_from_id_def)
qed

text \<open>The control block of process number \<open>n\<close>.\<close>

definition pcb_at :: "int \<Rightarrow> addr" where
  "pcb_at n = 0x800000 - (word_of_int n + 1) * 0x2000"

lemma get_pcb_at: "0 \<le> n \<Longrightarrow> n < 256 \<Longrightarrow> get_pcb_from_id (word_of_int n) = pcb_at n"
  using get_pcb_from_id_eq [of "nat n"] by (simp add: pcb_at_def)

lemma pcb_at_inj:
  assumes "0 \<le> n" "n < 256" "0 \<le> k" "k < 256" and "pcb_at n = pcb_at k"
  shows "n = k"
proof -
  have hom: "(word_of_int k + 1) * 0x2000 = (word_of_int ((k + 1) * 0x2000) :: u32)" for k by simp
  have "0x800000 - word_of_int ((n + 1) * 0x2000) = 0x800000 - (word_of_int ((k + 1) * 0x2000) :: u32)"
    using assms(5) unfolding pcb_at_def hom .
  then have e: "word_of_int ((n + 1) * 0x2000) = (word_of_int ((k + 1) * 0x2000) :: u32)"
    by (rule diff_left_imp_eq)
  have bound: "sint (word_of_int ((k + 1) * 0x2000) :: u32) = (k + 1) * 0x2000" if "0 \<le> k" "k < 256" for k
    using that by (intro sint_of_int_u32) simp_all
  have "(n + 1) * 0x2000 = sint (word_of_int ((n + 1) * 0x2000) :: u32)" by (rule bound [OF assms(1,2), symmetric])
  also have "\<dots> = (k + 1) * 0x2000" unfolding e by (rule bound [OF assms(3,4)])
  finally show ?thesis by (simp only: mult_cancel_right add_right_cancel) simp
qed

text \<open>The user's page shows the frame of process \<open>n\<close>.\<close>

lemma user_page_index: "v div 0x400000 = (32 :: addr) \<Longrightarrow> pd_index v = 32"
  by (drule arg_cong [of _ _ unat]) (simp add: pd_index_div unat_div)

lemma user_frame_aligned: "take_bit 22 (0x800000 + word_of_int n * 0x400000 :: addr) = 0"
proof -
  have "0x800000 + word_of_int n * 0x400000 = push_bit 22 (2 + word_of_int n :: addr)"
    by (simp add: push_bit_eq_mult algebra_simps)
  then show ?thesis by (simp only: take_bit_push_bit) simp
qed

lemma user_page_translate:
  assumes "v div 0x400000 = 32"
  shows "translate (pcb_mapping 0x8000000 (0x800000 + word_of_int n * 0x400000) s) v
    = Some \<lparr>phys = 0x800000 + word_of_int n * 0x400000 + v mod 0x400000, user = True, writable = True\<rparr>"
proof -
  have "take_bit 22 v = v mod 0x400000" by (simp add: take_bit_eq_mod)
  then show ?thesis
    using pcb_mapping_translate [OF user_frame_aligned, of "0x8000000" n s v] user_page_index [OF assms] by simp
qed

lemma translate_cong:
  assumes "page_dir s' = page_dir s" "page_tab s' = page_tab s" "page_video_tab s' = page_video_tab s"
    "page_tab_at s' = page_tab_at s" "page_video_tab_at s' = page_video_tab_at s"
  shows "translate s' = translate s"
proof -
  have "table_at s' = table_at s" by (intro ext) (simp only: table_at_def assms)
  then show ?thesis by (intro ext) (simp only: translate_def assms)
qed

lemma parse_args_eq:
  assumes "cstr m command (replicate p 0x20 @ name @ replicate q 0x20 @ args)"
    and "name \<noteq> []" and "0x20 \<notin> set name" and "p + length name \<le> 32"
    and "args = [] \<or> hd args \<noteq> 0x20 \<and> q \<noteq> 0" and "length args \<le> 100"
    and "run (filename_at fr) 32 \<inter> run (fileargs_at fr) 100 = {}"
    and "run (filename_at fr) 32 \<inter> run command (Suc (p + length name + q + length args)) = {}"
    and "run (fileargs_at fr) 100 \<inter> run command (Suc (p + length name + q + length args)) = {}"
  shows "\<exists>m'. parse_args fr command m = Some (Some m')
    \<and> load m' (filename_at fr) 32 = name @ replicate (32 - length name) 0
    \<and> load m' (fileargs_at fr) 100 = args @ replicate (100 - length args) 0
    \<and> (\<forall>x. x \<notin> run (filename_at fr) 32 \<longrightarrow> x \<notin> run (fileargs_at fr) 100 \<longrightarrow> m' x = m x)"
proof -
  let ?cs = "replicate p 0x20 @ name @ replicate q 0x20 @ args"
  let ?fn = "filename_at fr" and ?fa = "fileargs_at fr"
  define m1 where "m1 = store (store m ?fn (replicate 32 0)) ?fa (replicate 100 0)"
  define m2 where "m2 = store (store m1 ?fn name) ?fa args"
  have R: "Suc (p + length name + q + length args) = Suc (length ?cs)" by simp
  have apart: "run ?fn 32 \<inter> run command (Suc (length ?cs)) = {}" "run ?fa 100 \<inter> run command (Suc (length ?cs)) = {}"
    using assms(8,9) unfolding R by blast+
  have sub: "run ?fn (length name) \<subseteq> run ?fn 32" "run ?fa (length args) \<subseteq> run ?fa 100"
    by (rule image_mono, use assms(4,6) in auto)+
  have o1: "m1 x = m x" if "x \<notin> run ?fn 32" "x \<notin> run ?fa 100" for x
  proof -
    have o: "x \<notin> run ?fn (length (replicate 32 (0 :: byte)))" "x \<notin> run ?fa (length (replicate 100 (0 :: byte)))"
      using that unfolding length_replicate by blast+
    show ?thesis unfolding m1_def store_outside_run [OF o(2)] store_outside_run [OF o(1)] ..
  qed
  have o2: "m2 x = m x" if "x \<notin> run ?fn 32" "x \<notin> run ?fa 100" for x
  proof -
    have o: "x \<notin> run ?fn (length name)" "x \<notin> run ?fa (length args)" using that sub by blast+
    show ?thesis unfolding m2_def store_outside_run [OF o(2)] store_outside_run [OF o(1)] o1 [OF that] ..
  qed
  have "m1 x = m x" if "x \<in> run command (Suc (length ?cs))" for x
    using that apart by (intro o1) blast+
  then have c: "cstr m1 command ?cs" using cstr_agree [OF assms(1)] by blast
  have ap: "run ?fn (length name) \<inter> run command (Suc (length ?cs)) = {}"
    "run ?fa (length args) \<inter> run command (Suc (length ?cs)) = {}"
    by (rule subset_apart [OF sub(1) apart(1)], rule subset_apart [OF sub(2) apart(2)])
  have n: "unat MAX_FILENAME_LENGTH = 32" "MAX_ARG_LENGTH = 100" by (simp_all add: MAX_ARG_LENGTH_def)
  have "for_range 0 (unat MAX_FILENAME_LENGTH) (\<lambda>i m. m(?fn + of_nat i := 0)) m = store m ?fn (replicate 32 0)"
    unfolding n by (rule for_range_clear) simp
  moreover have "for_range 0 MAX_ARG_LENGTH (\<lambda>i m. m(?fa + of_nat i := 0)) m' = store m' ?fa (replicate 100 0)" for m'
    unfolding n by (rule for_range_clear) simp
  ultimately have "parse_args fr command m = parse_command fr command 0 (-1) 0 m1"
    by (simp only: parse_args_def Let_def m1_def)
  then have 1: "parse_args fr command m = Some (Some m2)"
    using parse_command_eq [OF c refl assms(2-5) ap] by (simp only: m2_def)
  have d: "disjoint ?fn 32 ?fa k" if "k \<le> 100" for k
    by (rule disjoint_runs [OF assms(7)]) (use that in simp_all)
  have 2: "load m2 ?fn 32 = name @ replicate (32 - length name) 0"
    using assms(4) d [of "length args"] d [of 100] assms(6)
    by (simp add: m2_def m1_def load_store_disjoint load_store_prefix load_store)
  have "disjoint ?fn (length name) ?fa 100"
    by (rule disjoint_runs [OF assms(7)]) (use assms(4) in simp_all)
  from disjoint_sym [OF this] have 3: "load m2 ?fa 100 = args @ replicate (100 - length args) 0"
    using assms(6) by (simp add: m2_def m1_def load_store_disjoint load_store_prefix load_store)
  show ?thesis using 1 2 3 o2 by blast
qed

text \<open>The state in which \<open>execute\<close> enters a program.\<close>

lemma execute_process:
  assumes "execute lits fr command s = Some (To_User e s')" and "\<forall>a. length (argbuf (pcbs s a)) = 100"
  shows "\<exists>i n a. i < 4 \<and> n = int (i + 4 * cur_term_id s) \<and> a = pcb_of_term (cur_term_id s) s' \<and> a = pcb_at n
    \<and> (cur_term_id s, i) \<notin> used_slots s \<and> (\<forall>j < i. (cur_term_id s, j) \<in> used_slots s) \<and> e = load32 (mem s') (headerbuf_at fr + 24)
    \<and> used_slots s' = insert (cur_term_id s, i) (used_slots s)
    \<and> card (used_slots s') \<le> 6
    \<and> process_number (pcbs s' a) = n \<and> pcb_term_id (pcbs s' a) = cur_term_id s
    \<and> parent_process_number (pcbs s' a) = (if i = 0 then -1 else n - 1)
    \<and> parent_ksp (pcbs s' a) = esp s \<and> parent_kbp (pcbs s' a) = ebp s
    \<and> fd_inv (pcbs s' a) \<and> (\<forall>fd. 2 \<le> fd \<longrightarrow> fd < 8 \<longrightarrow> flags (fds (pcbs s' a) fd) = 0)
    \<and> argbuf (pcbs s' a) = load (mem s') (fileargs_at fr) 100
    \<and> (\<forall>b. b \<noteq> a \<longrightarrow> pcbs s' b = pcbs s b)
    \<and> tss_esp0 s' = a + 0x2000 - 4 \<and> tss_ss0 s' = 0x18 \<and> iflag s' \<and> interrupt_halt_flag s' = 0
    \<and> (\<forall>v. v div 0x400000 = 32 \<longrightarrow> translate s' v
        = Some \<lparr>phys = 0x800000 + word_of_int n * 0x400000 + v mod 0x400000, user = True, writable = True\<rparr>)"
proof -
  obtain m n s2 where p: "PCB_process_number (s\<lparr>mem := m\<rparr>) = Some (n, s2)" "n \<noteq> -1"
      "load_program fr n s2 = Some (To_User e s')"
    using assms(1) by (rule execute_entered)
  obtain i where i: "i < 4" "cur_term_id s < 3" "PCB_mask s (cur_term_id s) i = 0"
      "n = int i + int (cur_term_id s) * 4" "s2 = set_mask (cur_term_id s) i 1 (s\<lparr>mem := m\<rparr>)" "card (used_slots s) < 6"
      "\<forall>j < i. PCB_mask s (cur_term_id s) j \<noteq> 0"
    using PCB_process_number_given [OF p(1,2)] by (auto simp: used_slots_def)
  let ?c = "cur_term_id s"
  let ?a = "0x800000 - (word_of_int n + 1) * 0x2000 :: addr"
  have s2: "pcbs s2 = pcbs s" "cur_term_id s2 = ?c" "terms s2 = terms s" "esp s2 = esp s" "ebp s2 = ebp s"
    by (simp_all add: i(5) set_mask_def)
  define S where "S = (\<lambda>m. (pcb_mapping 0x8000000 (0x800000 + word_of_int n * 0x400000) s2)\<lparr>mem := m\<rparr>)"
  obtain m' where e: "e = entry_point m' (headerbuf_at fr)" and s': "s' = (flush ((update_pcb ?a (new_pcb n (fileargs_at fr) (S m'))
        (update_term ?c (\<lambda>t. t\<lparr>cur_pcb_id := n mod 4\<rparr>) (S m')))
          \<lparr>tss_esp0 := 0x800000 - word_of_int n * 0x2000 - 4, tss_ss0 := 0x18\<rparr>))
      \<lparr>interrupt_halt_flag := 0, iflag := True\<rparr>"
    using load_program_entered [OF p(3)] assms(2) unfolding S_def s2 by metis
  have S: "pcbs (S m') = pcbs s" "terms (S m') = terms s" "cur_term_id (S m') = ?c" "esp (S m') = esp s"
      "ebp (S m') = ebp s" "PCB_mask (S m') = (PCB_mask s)(?c := (PCB_mask s ?c)(i := 1))" "mem (S m') = m'"
    by (simp_all add: S_def s2) (simp add: i(5))
  have p': "pcbs s' = (pcbs s)(?a := new_pcb n (fileargs_at fr) (S m') (pcbs s ?a))"
      "terms s' = (terms s)(?c := (terms s ?c)\<lparr>cur_pcb_id := n mod 4\<rparr>)" "mem s' = m'"
      "PCB_mask s' = (PCB_mask s)(?c := (PCB_mask s ?c)(i := 1))"
    unfolding s' by (simp_all add: flush_def S fun_eq_iff)
  have entry: "e = load32 (mem s') (headerbuf_at fr + 24)" unfolding e p'(3) by (rule entry_point_load32)
  have first: "\<forall>j < i. (?c, j) \<in> used_slots s" using i(1,2,7) by (simp add: used_slots_def)
  have n4: "n mod 4 = int i" "0 \<le> n" "n < 12" using i(1,2,4) by auto
  have at: "pcb_of_term ?c s' = ?a"
    using get_pcb_from_id_eq [of "nat n"] n4 i(4) by (simp add: pcb_of_term_def p' MAX_PCB_MASK_LEN_def)
  have free: "(?c, i) \<notin> used_slots s" using i(3) by (simp add: used_slots_def)
  have used: "used_slots s' = insert (?c, i) (used_slots s)"
    using i(1,2) by (auto simp: used_slots_def p'(4) split: if_splits)
  have fdi: "fd_inv (pcbs s' ?a)" "\<forall>fd. 2 \<le> fd \<longrightarrow> fd < 8 \<longrightarrow> flags (fds (pcbs s' ?a) fd) = 0"
    by (simp_all add: p'(1) new_pcb_def fd_inv_def no_file_def)
  have tr: "translate s' = translate (pcb_mapping 0x8000000 (0x800000 + word_of_int n * 0x400000) s2)"
    unfolding s' by (rule translate_cong) (simp_all add: flush_def update_pcb_def update_term_def S_def)
  have map: "translate s' v = Some \<lparr>phys = 0x800000 + word_of_int n * 0x400000 + v mod 0x400000, user = True, writable = True\<rparr>"
    if "v div 0x400000 = 32" for v
    using user_page_translate [OF that] by (simp add: tr)
  have blk: "process_number (pcbs s' ?a) = n" "pcb_term_id (pcbs s' ?a) = ?c"
    "parent_process_number (pcbs s' ?a) = (if i = 0 then -1 else n - 1)"
    "parent_ksp (pcbs s' ?a) = esp s" "parent_kbp (pcbs s' ?a) = ebp s"
    "argbuf (pcbs s' ?a) = load (mem s') (fileargs_at fr) 100" "\<forall>b. b \<noteq> ?a \<longrightarrow> pcbs s' b = pcbs s b"
    using n4(1) by (simp_all add: p' new_pcb_def S)
  have reg: "tss_esp0 s' = ?a + 0x2000 - 4" "tss_ss0 s' = 0x18" "iflag s'" "interrupt_halt_flag s' = 0"
    unfolding s' by (simp_all add: flush_def algebra_simps)
  have "card (used_slots s') \<le> 6" using i(6) free by (simp add: used)
  moreover have "n = int (i + 4 * ?c)" using i(4) by simp
  moreover have "?a = pcb_at n" by (simp add: pcb_at_def)
  ultimately show ?thesis
    using i(1) free first entry used blk fdi reg map at [symmetric]
    by (intro exI [of _ i] exI [of _ n] exI [of _ ?a]) blast
qed

section \<open>Properties\<close>

text \<open>\<open>execute\<close> splits the command into the file name, after any leading spaces, and the
  arguments, which start at the next character that is not a space and are kept as they are
  to the end, spaces included. Both arrays are padded with NULs to their 32 and 100 bytes. The
  name must end within the first 32 bytes of the command.\<close>

lemma parse_args_splits:
  assumes "cstr m command (replicate p 0x20 @ name @ replicate q 0x20 @ args)"
    and "name \<noteq> []" and "0x20 \<notin> set name" and "p + length name \<le> 32"
    and "args = [] \<or> hd args \<noteq> 0x20 \<and> q \<noteq> 0" and "length args \<le> 100"
    and "run (filename_at fr) 32 \<inter> run (fileargs_at fr) 100 = {}"
    and "run (filename_at fr) 32 \<inter> run command (Suc (p + length name + q + length args)) = {}"
    and "run (fileargs_at fr) 100 \<inter> run command (Suc (p + length name + q + length args)) = {}"
  shows "\<exists>m'. parse_args fr command m = Some (Some m')
    \<and> load m' (filename_at fr) 32 = name @ replicate (32 - length name) 0
    \<and> load m' (fileargs_at fr) 100 = args @ replicate (100 - length args) 0"
  using parse_args_eq [OF assms] by blast

text \<open>A frame well above the kernel, and a command in user memory.\<close>

definition example_frame :: exec_frame where
  "example_frame = \<lparr>filename_at = 0x400000, fileargs_at = 0x400100, headerbuf_at = 0x400200, magicnumber_at = 0x400300,
     loader_at = 0x400400, magic_dentry_at = 0x400500, exec_conv_at = 0x400600, exec_args_at = 0x400700\<rparr>"

lemma cstr_stored:
  assumes "length xs < 4294967296" and "0 \<notin> set xs"
  shows "cstr (store (\<lambda>_. 0) a xs) a xs"
proof -
  have "store (\<lambda>_. 0) a xs (a + of_nat (length xs)) = 0"
    using assms(1) by (simp add: store_def unat_of_nat)
  then show ?thesis using assms by (simp add: cstr_def load_store)
qed

theorem parse_args_splits_witness:
  "\<exists>m'. parse_args example_frame 0x300000 (store (\<lambda>_. 0) 0x300000 (lit '' cat  a b'')) = Some (Some m')
    \<and> load m' 0x400000 32 = lit ''cat'' @ replicate 29 0 \<and> load m' 0x400100 100 = lit ''a b'' @ replicate 97 0"
proof -
  have l: "lit '' cat  a b'' = replicate 1 0x20 @ lit ''cat'' @ replicate 2 0x20 @ lit ''a b''"
    by (simp add: numeral_2_eq_2)
  have c: "cstr (store (\<lambda>_. 0) 0x300000 (lit '' cat  a b'')) 0x300000
      (replicate 1 0x20 @ lit ''cat'' @ replicate 2 0x20 @ lit ''a b'')"
    unfolding l [symmetric] by (rule cstr_stored) simp_all
  have f: "filename_at example_frame = 0x400000" "fileargs_at example_frame = 0x400100" by (simp_all add: example_frame_def)
  have s: "Suc (1 + length (lit ''cat'') + 2 + length (lit ''a b'')) = 10" by simp
  have a: "run 0x400000 32 \<inter> run 0x400100 100 = {}" "run 0x400000 32 \<inter> run 0x300000 10 = {}"
    "run 0x400100 100 \<inter> run 0x300000 10 = {}"
    by (rule runs_apart; simp)+
  have n: "32 - length (lit ''cat'') = 29" "100 - length (lit ''a b'') = 97" by simp_all
  show ?thesis
    using parse_args_splits [OF c _ _ _ _ _ a [folded s, folded f]] unfolding f n by simp
qed


text \<open>C1: When \<open>execute\<close> enters a program, it does so at the address that bytes 24 to 27 of the header
  buffer hold, and the program runs as a process of its own: it has the first slot of the
  displayed terminal that was free, and its control block, the one the kernel finds for that
  terminal from now on, holds its number, its parent's, the caller's stack to return to, the two
  standard descriptors and nothing else open, and the arguments; no other control block has
  changed. User space at 128 MB is mapped to the process's own 4 MB frame, traps will arrive on its
  own kernel stack, and there are still at most six processes.\<close>

theorem execute_creates_process:
  assumes "execute lits fr command s = Some (To_User e s')" and "\<forall>a. length (argbuf (pcbs s a)) = 100"
  shows "\<exists>i n a. i < 4 \<and> n = int (i + 4 * cur_term_id s) \<and> a = pcb_of_term (cur_term_id s) s'
    \<and> (cur_term_id s, i) \<notin> used_slots s \<and> (\<forall>j < i. (cur_term_id s, j) \<in> used_slots s) \<and> e = load32 (mem s') (headerbuf_at fr + 24)
    \<and> used_slots s' = insert (cur_term_id s, i) (used_slots s)
    \<and> card (used_slots s') \<le> 6
    \<and> process_number (pcbs s' a) = n \<and> pcb_term_id (pcbs s' a) = cur_term_id s
    \<and> parent_process_number (pcbs s' a) = (if i = 0 then -1 else n - 1)
    \<and> parent_ksp (pcbs s' a) = esp s \<and> parent_kbp (pcbs s' a) = ebp s
    \<and> fd_inv (pcbs s' a) \<and> (\<forall>fd. 2 \<le> fd \<longrightarrow> fd < 8 \<longrightarrow> flags (fds (pcbs s' a) fd) = 0)
    \<and> argbuf (pcbs s' a) = load (mem s') (fileargs_at fr) 100
    \<and> (\<forall>b. b \<noteq> a \<longrightarrow> pcbs s' b = pcbs s b)
    \<and> tss_esp0 s' = a + 0x2000 - 4 \<and> tss_ss0 s' = 0x18 \<and> iflag s' \<and> interrupt_halt_flag s' = 0
    \<and> (\<forall>v. v div 0x400000 = 32 \<longrightarrow> translate s' v
        = Some \<lparr>phys = 0x800000 + word_of_int n * 0x400000 + v mod 0x400000, user = True, writable = True\<rparr>)"
  using execute_process [OF assms] by blast

end
