(* ===== verification/Keyboard.thy ===== *)
theory Keyboard
  imports Process
begin

text \<open>
  The keyboard driver (\<open>keyboard.c\<close>): one interrupt per scan code. The scan code is an
  argument. The handler edits the line in \<open>key_buf\<close> and echoes it on the displayed screen;
  a switch of terminal and \<open>Enter\<close> index \<open>term[]\<close> with the displayed terminal, which is
  3 before the first is launched: \<open>None\<close>.
\<close>

section \<open>Scan codes\<close>

definition KEYBOARD_IRQ :: u32 where "KEYBOARD_IRQ = 1"
definition CAPSLOCK_P :: byte where "CAPSLOCK_P = 0x3A"
definition LSHIFT_P :: byte where "LSHIFT_P = 0x2A"
definition LSHIFT_R :: byte where "LSHIFT_R = 0xAA"
definition RSHIFT_P :: byte where "RSHIFT_P = 0x36"
definition RSHIFT_R :: byte where "RSHIFT_R = 0xB6"
definition ALT_P :: byte where "ALT_P = 0x38"
definition ALT_R :: byte where "ALT_R = 0xB8"
definition CTRL_P :: byte where "CTRL_P = 0x1D"
definition CTRL_R :: byte where "CTRL_R = 0x9D"
definition BACKSPACE :: byte where "BACKSPACE = 0x0E"
definition ENTER :: byte where "ENTER = 0x1C"
definition F1 :: byte where "F1 = 0x3B"
definition F2 :: byte where "F2 = 0x3C"
definition F3 :: byte where "F3 = 0x3D"

lemmas scancodes = CAPSLOCK_P_def LSHIFT_P_def LSHIFT_R_def RSHIFT_P_def RSHIFT_R_def ALT_P_def
  ALT_R_def CTRL_P_def CTRL_R_def BACKSPACE_def ENTER_def F1_def F2_def F3_def

text \<open>\<open>scancode_map[4][59]\<close>: bit 0 of the row is shift, bit 1 is caps lock.\<close>

definition scancode_map :: "byte list list" where
  "scancode_map = [
  [0x00, 0x00, 0x31, 0x32, 0x33, 0x34, 0x35, 0x36, 0x37, 0x38, 0x39, 0x30, 0x2D, 0x3D, 0x00,
   0x00, 0x71, 0x77, 0x65, 0x72, 0x74, 0x79, 0x75, 0x69, 0x6F, 0x70, 0x5B, 0x5D, 0x00, 0x00,
   0x61, 0x73, 0x64, 0x66, 0x67, 0x68, 0x6A, 0x6B, 0x6C, 0x3B, 0x27, 0x60, 0x00, 0x5C, 0x7A,
   0x78, 0x63, 0x76, 0x62, 0x6E, 0x6D, 0x2C, 0x2E, 0x2F, 0x00, 0x2A, 0x00, 0x20, 0x00],
  [0x00, 0x00, 0x21, 0x40, 0x23, 0x24, 0x25, 0x5E, 0x26, 0x2A, 0x28, 0x29, 0x5F, 0x2B, 0x00,
   0x00, 0x51, 0x57, 0x45, 0x52, 0x54, 0x59, 0x55, 0x49, 0x4F, 0x50, 0x7B, 0x7D, 0x00, 0x00,
   0x41, 0x53, 0x44, 0x46, 0x47, 0x48, 0x4A, 0x4B, 0x4C, 0x3A, 0x22, 0x7E, 0x00, 0x7C, 0x5A,
   0x58, 0x43, 0x56, 0x42, 0x4E, 0x4D, 0x3C, 0x3E, 0x3F, 0x00, 0x2A, 0x00, 0x20, 0x00],
  [0x00, 0x00, 0x31, 0x32, 0x33, 0x34, 0x35, 0x36, 0x37, 0x38, 0x39, 0x30, 0x2D, 0x3D, 0x00,
   0x00, 0x51, 0x57, 0x45, 0x52, 0x54, 0x59, 0x55, 0x49, 0x4F, 0x50, 0x5B, 0x5D, 0x00, 0x00,
   0x41, 0x53, 0x44, 0x46, 0x47, 0x48, 0x4A, 0x4B, 0x4C, 0x3B, 0x27, 0x60, 0x00, 0x5C, 0x5A,
   0x58, 0x43, 0x56, 0x42, 0x4E, 0x4D, 0x2C, 0x2E, 0x2F, 0x00, 0x2A, 0x00, 0x20, 0x00],
  [0x00, 0x00, 0x21, 0x40, 0x23, 0x24, 0x25, 0x5E, 0x26, 0x2A, 0x28, 0x29, 0x5F, 0x2B, 0x00,
   0x00, 0x71, 0x77, 0x65, 0x72, 0x74, 0x79, 0x75, 0x69, 0x6F, 0x70, 0x7B, 0x7D, 0x00, 0x00,
   0x61, 0x73, 0x64, 0x66, 0x67, 0x68, 0x6A, 0x6B, 0x6C, 0x3A, 0x22, 0x7E, 0x00, 0x5C, 0x7A,
   0x78, 0x63, 0x76, 0x62, 0x6E, 0x6D, 0x3C, 0x3E, 0x3F, 0x00, 0x2A, 0x00, 0x20, 0x00]
  ]"

definition keyboard_init :: "'a pic_state_scheme \<Rightarrow> 'a pic_state_scheme" where
  "keyboard_init s = enable_irq KEYBOARD_IRQ s"

section \<open>The handler\<close>

text \<open>The \<open>default\<close> case: a key of the map.\<close>

definition handle_key :: "byte \<Rightarrow> 'a kbd_state_scheme \<Rightarrow> 'a kbd_state_scheme" where
  "handle_key scancode_idx s =
     (if scancode_idx \<ge> 59 then s
      else
        let key = scancode_map ! unat (scancode_state s) ! unat scancode_idx
        in if key = 0 then s
           else if alt_state s = 1 then s
           else if ctrl_state s = 1 then
             if key = 0x6C \<or> key = 0x4C then set_screen_cursor 0 0 (clear s)
             else if key = 0x63 \<or> key = 0x43 then buf_clear (s\<lparr>ctrl_c_flag := 1\<rparr>)
             else s
           else if key_buf_idx s < KEY_BUF_MAX - 1 then
             let s = s\<lparr>key_buf := (key_buf s)[key_buf_idx s := key]\<rparr>;
                 s = s\<lparr>key_buf_idx := key_buf_idx s + 1\<rparr>
             in putc key s
           else s)"

definition handle_enter :: "'a kbd_state_scheme \<Rightarrow> 'a kbd_state_scheme option" where
  "handle_enter s =
     (if key_buf_idx s < KEY_BUF_MAX then
        let s = s\<lparr>key_buf := (key_buf s)[key_buf_idx s := 0x0A]\<rparr>;
            s = s\<lparr>key_buf_idx := key_buf_idx s + 1\<rparr>
        in if cur_term_id s \<ge> TERM_MAX then None
           else Some (enter (update_term (cur_term_id s) (\<lambda>t. t\<lparr>enter_state := 1\<rparr>) s))
      else Some s)"

definition handle_backspace :: "'a kbd_state_scheme \<Rightarrow> 'a kbd_state_scheme" where
  "handle_backspace s =
     (if key_buf_idx s > 0 then
        let s = backspace s;
            s = s\<lparr>key_buf_idx := key_buf_idx s - 1\<rparr>
        in s\<lparr>key_buf := (key_buf s)[key_buf_idx s := 0]\<rparr>
      else s)"

definition handle_scancode :: "byte \<Rightarrow> 'a kbd_state_scheme \<Rightarrow> 'a kbd_state_scheme option" where
  "handle_scancode c s =
     (if c = CAPSLOCK_P then Some (s\<lparr>scancode_state := scancode_state s XOR 0x02\<rparr>)
      else if c = LSHIFT_P then Some (s\<lparr>scancode_state := scancode_state s OR 0x01\<rparr>)
      else if c = LSHIFT_R then Some (s\<lparr>scancode_state := scancode_state s AND 0xFE\<rparr>)
      else if c = RSHIFT_P then Some (s\<lparr>scancode_state := scancode_state s OR 0x01\<rparr>)
      else if c = RSHIFT_R then Some (s\<lparr>scancode_state := scancode_state s AND 0xFE\<rparr>)
      else if c = CTRL_P then Some (s\<lparr>ctrl_state := 1\<rparr>)
      else if c = CTRL_R then Some (s\<lparr>ctrl_state := 0\<rparr>)
      else if c = ALT_P then Some (s\<lparr>alt_state := 1\<rparr>)
      else if c = ALT_R then Some (s\<lparr>alt_state := 0\<rparr>)
      else if c = ENTER then handle_enter s
      else if c = BACKSPACE then Some (handle_backspace s)
      else if c = F1 then (if alt_state s \<noteq> 0 then term_switch (cur_term_id s) 0 s else Some s)
      else if c = F2 then (if alt_state s \<noteq> 0 then term_switch (cur_term_id s) 1 s else Some s)
      else if c = F3 then (if alt_state s \<noteq> 0 then term_switch (cur_term_id s) 2 s else Some s)
      else Some (handle_key c s))"

definition keyboard_interrupt_handler ::
  "(string \<Rightarrow> addr) \<Rightarrow> exec_frame \<Rightarrow> byte \<Rightarrow> 'a fs_state_scheme \<Rightarrow> 'a fs_state_scheme outcome option" where
  "keyboard_interrupt_handler lits fr scancode_idx s =
     (let s = cli s;
          s = s\<lparr>keyboard_enabled := 1\<rparr>;
          s = s\<lparr>ctrl_c_flag := 0\<rparr>
      in do {
        s \<leftarrow> handle_scancode scancode_idx s;
        let s = s\<lparr>keyboard_enabled := 0\<rparr>;
            s = send_eoi KEYBOARD_IRQ s
        in if ctrl_c_flag s \<noteq> 0 then halt lits fr 1 s else Some (Returns 0 s)
      })"

section \<open>Operations that only touch the screen\<close>

definition console_only :: "'a console_state_scheme \<Rightarrow> 'a console_state_scheme \<Rightarrow> bool" where
  "console_only s s' \<longleftrightarrow> s'\<lparr>out_log := out_log s, screen_x := screen_x s, screen_y := screen_y s,
     video_mem := video_mem s, mem := mem s\<rparr> = s"

lemma console_only_simps [simp]:
  "console_only s s"
  "console_only s (t\<lparr>screen_x := x\<rparr>) = console_only s t" "console_only s (t\<lparr>screen_y := y\<rparr>) = console_only s t"
  "console_only s (t\<lparr>video_mem := v\<rparr>) = console_only s t" "console_only s (t\<lparr>mem := m\<rparr>) = console_only s t"
  "console_only s (t\<lparr>out_log := l\<rparr>) = console_only s t" "console_only s (poke a b t) = console_only s t"
  "console_only s (outb d p t) = console_only s t" "console_only s (update_cursor_ports t) = console_only s t"
  "console_only s (blank_cell base attr k t) = console_only s t"
  by (simp_all add: console_only_def poke_def outb_def update_cursor_ports_def blank_cell_def Let_def)

lemma console_only_set_screen_cursor [simp]:
  "console_only s (set_screen_cursor a b t) = console_only s t"
proof -
  obtain x y v m where "set_screen_cursor a b t
      = update_cursor_ports (t\<lparr>screen_x := x, video_mem := v, mem := m, screen_y := y\<rparr>)"
    using set_screen_cursor_shape by blast
  then show ?thesis by simp
qed

lemma console_only_ops [simp]:
  "console_only s (enter t) = console_only s t" "console_only s (putc c t) = console_only s t"
  "console_only s (erase_at_cursor t) = console_only s t" "console_only s (backspace t) = console_only s t"
  by (simp_all add: enter_def putc_def erase_at_cursor_def backspace_def Let_def)

lemma console_only_clear [simp]: "console_only s (clear t) = console_only s t"
  by (simp add: clear_eq)

lemma console_only_frame:
  "console_only s s' \<Longrightarrow> terms s' = terms s" "console_only s s' \<Longrightarrow> cur_term_id s' = cur_term_id s"
  "console_only s s' \<Longrightarrow> now_term_id s' = now_term_id s"
  unfolding console_only_def
  by (drule arg_cong [of _ _ terms], simp) (drule arg_cong [of _ _ cur_term_id], simp,
      drule arg_cong [of _ _ now_term_id], simp)

lemma console_only_kbd:
  fixes s :: "'a kbd_state_scheme"
  shows "console_only s s' \<Longrightarrow> key_buf s' = key_buf s" "console_only s s' \<Longrightarrow> key_buf_idx s' = key_buf_idx s"
    "console_only s s' \<Longrightarrow> scancode_state s' = scancode_state s" "console_only s s' \<Longrightarrow> ctrl_state s' = ctrl_state s"
    "console_only s s' \<Longrightarrow> alt_state s' = alt_state s"
  unfolding console_only_def
  by (drule arg_cong [of _ _ key_buf], simp) (drule arg_cong [of _ _ key_buf_idx], simp,
      drule arg_cong [of _ _ scancode_state], simp, drule arg_cong [of _ _ ctrl_state], simp,
      drule arg_cong [of _ _ alt_state], simp)

text \<open>The same, as rewrite rules for the operations the keyboard calls.\<close>

lemmas console_ops_kbd [simp] =
  console_only_kbd [of s "putc c s" for c s, simplified] console_only_kbd [of s "enter s" for s, simplified]
  console_only_kbd [of s "backspace s" for s, simplified] console_only_kbd [of s "clear s" for s, simplified]
  console_only_kbd [of s "set_screen_cursor a b s" for a b s, simplified]

lemmas console_ops_frame [simp] =
  console_only_frame [of s "putc c s" for c s, simplified] console_only_frame [of s "enter s" for s, simplified]
  console_only_frame [of s "backspace s" for s, simplified] console_only_frame [of s "clear s" for s, simplified]
  console_only_frame [of s "set_screen_cursor a b s" for a b s, simplified]

section \<open>The line editor the handler implements\<close>

text \<open>What a user edits: the line and the screen it is echoed on.\<close>

record editor =
  ed_line :: "byte list"
  ed_screen :: "(byte \<times> byte) vga"

datatype edit_cmd = Type byte | New_Line | Erase | Wipe | Cancel | Ignore

text \<open>What a press means, by the state of the modifier keys (the row of the map, control, alt).\<close>

definition edit_of_key :: "nat \<Rightarrow> nat \<Rightarrow> byte \<Rightarrow> edit_cmd" where
  "edit_of_key ctrl alt key =
     (if key = 0 \<or> alt = 1 then Ignore
      else if ctrl = 1 then
        if key \<in> {0x6C, 0x4C} then Wipe else if key \<in> {0x63, 0x43} then Cancel else Ignore
      else Type key)"

definition edit_of :: "byte \<Rightarrow> nat \<Rightarrow> nat \<Rightarrow> byte \<Rightarrow> edit_cmd" where
  "edit_of mods ctrl alt c =
     (if c = ENTER then New_Line else if c = BACKSPACE then Erase
      else if c \<in> {CAPSLOCK_P, LSHIFT_P, RSHIFT_P, CTRL_P, ALT_P} \<or> \<not> c < 59 then Ignore
      else edit_of_key ctrl alt (scancode_map ! unat mods ! unat c))"

fun edit :: "byte \<Rightarrow> edit_cmd \<Rightarrow> editor \<Rightarrow> editor" where
  "edit attr (Type k) e =
     (if length (ed_line e) < 127
      then \<lparr>ed_line = ed_line e @ [k], ed_screen = vga_put (0x20, attr) (\<lambda>c. (c, attr)) k (ed_screen e)\<rparr> else e)"
| "edit attr New_Line e =
     (if length (ed_line e) < 128
      then \<lparr>ed_line = ed_line e @ [0x0A], ed_screen = vga_newline (0x20, attr) (ed_screen e)\<rparr> else e)"
| "edit attr Erase e =
     (if ed_line e = [] then e
      else \<lparr>ed_line = butlast (ed_line e), ed_screen = vga_backspace (0x20, attr) (ed_screen e)\<rparr>)"
| "edit attr Wipe e =
     e\<lparr>ed_screen := \<lparr>cells = replicate 2000 (0x20, attr), col = 0, row = 0\<rparr>\<rparr>"
| "edit attr Cancel e = e\<lparr>ed_line := []\<rparr>"
| "edit attr Ignore e = e"

definition edited :: "'a kbd_state_scheme \<Rightarrow> editor" where
  "edited s = \<lparr>ed_line = key_line s, ed_screen = shown s\<rparr>"

lemma byte_lt_4: "(x :: byte) < 4 \<Longrightarrow> x = 0 \<or> x = 1 \<or> x = 2 \<or> x = 3"
  by (simp add: word_less_nat_alt word_unat_eq_iff) linarith

lemma modifier_lt_4: "(x :: byte) < 4 \<Longrightarrow> x XOR 2 < 4 \<and> x OR 1 < 4 \<and> x AND 0xFE < 4"
  by (drule byte_lt_4) auto

lemma length_key_line: "line_ok (key_buf s) (key_buf_idx s) \<Longrightarrow> length (key_line s) = key_buf_idx s"
  by (simp add: key_line_def line_ok_def)

lemma pages_ok_cong: "terms s' = terms s \<Longrightarrow> pages_ok s' = pages_ok s"
  by (simp add: pages_ok_def)

text \<open>The screen operations keep the terminals well formed.\<close>

lemma screen_step_ok:
  assumes "terminals_ok s" and "console_only s s'" and "cursor_ok s'"
  shows "terminals_ok s'"
  using assms console_only_frame [OF assms(2)] console_only_kbd [OF assms(2)] pages_ok_cong [of s' s]
  by (simp add: terminals_ok_def)

lemma shown_kbd [simp]:
  "shown (s\<lparr>key_buf := kb\<rparr>) = shown s" "shown (s\<lparr>key_buf_idx := n\<rparr>) = shown s"
  "shown (update_term i f s) = shown s" "shown (s\<lparr>ctrl_c_flag := n\<rparr>) = shown s"
  "cursor_ok (s\<lparr>key_buf := kb\<rparr>) = cursor_ok s" "cursor_ok (s\<lparr>key_buf_idx := n\<rparr>) = cursor_ok s"
  "cursor_ok (update_term i f s) = cursor_ok s" "cursor_ok (s\<lparr>ctrl_c_flag := n\<rparr>) = cursor_ok s"
  by (simp_all add: shown_def cursor_ok_def)

lemma pages_kbd [simp]:
  "pages_ok (s\<lparr>key_buf := kb\<rparr>) = pages_ok s" "pages_ok (s\<lparr>key_buf_idx := n\<rparr>) = pages_ok s"
  "pages_ok (s\<lparr>ctrl_c_flag := n\<rparr>) = pages_ok s"
  by (simp_all add: pages_ok_def)

lemma key_line_ops [simp]:
  "key_line (putc c s) = key_line s" "key_line (enter s) = key_line s" "key_line (backspace s) = key_line s"
  "key_line (clear s) = key_line s" "key_line (set_screen_cursor a b s) = key_line s"
  "key_line (update_term i f s) = key_line s"
  by (simp_all add: key_line_def)

lemma type_key_edits:
  assumes "terminals_ok s" and "key_buf_idx s < 128" and "key \<noteq> 0"
  defines "s1 \<equiv> s\<lparr>key_buf := (key_buf s)[key_buf_idx s := key], key_buf_idx := Suc (key_buf_idx s)\<rparr>"
  shows "terminals_ok s1" "key_line s1 = key_line s @ [key]"
proof -
  have l: "line_ok (key_buf s) (key_buf_idx s)" "key_buf_idx s < length (key_buf s)"
    using assms(1,2) by (auto simp: terminals_ok_def line_ok_def)
  show "terminals_ok s1"
    using assms(1) line_ok_append [OF l(1) assms(2,3)] by (simp add: s1_def terminals_ok_def)
  show "key_line s1 = key_line s @ [key]"
    using line_append [OF l(2)] by (simp add: s1_def key_line_def)
qed

lemma wipe_edits:
  assumes "terminals_ok s"
  shows "terminals_ok (set_screen_cursor 0 0 (clear s))"
    and "edited (set_screen_cursor 0 0 (clear s)) = edit (colour s) Wipe (edited s)"
proof -
  have eq: "set_screen_cursor 0 0 (clear s) = update_cursor_ports ((clear s)\<lparr>screen_x := 0, screen_y := 0\<rparr>)"
    using set_screen_cursor_eq [of 0 0 "clear s"] by simp
  have co: "cursor_ok (set_screen_cursor 0 0 (clear s))" by (simp add: eq cursor_ok_def)
  show "terminals_ok (set_screen_cursor 0 0 (clear s))"
    by (rule screen_step_ok [OF assms _ co]) simp
  have "shown (set_screen_cursor 0 0 (clear s)) = \<lparr>cells = replicate 2000 (0x20, colour s), col = 0, row = 0\<rparr>"
    using clear_refines [of s] by (simp add: eq shown_def)
  then show "edited (set_screen_cursor 0 0 (clear s)) = edit (colour s) Wipe (edited s)"
    by (simp add: edited_def)
qed

lemma handle_key_edits:
  assumes ok: "terminals_ok s" and "c < 59"
  shows "terminals_ok (handle_key c s)" (is ?ok)
    and "edited (handle_key c s) = edit (colour s)
      (edit_of_key (ctrl_state s) (alt_state s) (scancode_map ! unat (scancode_state s) ! unat c)) (edited s)" (is ?ed)
proof -
  define key where "key = scancode_map ! unat (scancode_state s) ! unat c"
  have l: "line_ok (key_buf s) (key_buf_idx s)" "cursor_ok s" using ok by (auto simp: terminals_ok_def)
  have len: "length (key_line s) = key_buf_idx s" using length_key_line [OF l(1)] .
  have hk: "handle_key c s = (if key = 0 \<or> alt_state s = 1 then s
      else if ctrl_state s = 1 then
        if key = 0x6C \<or> key = 0x4C then set_screen_cursor 0 0 (clear s)
        else if key = 0x63 \<or> key = 0x43 then buf_clear (s\<lparr>ctrl_c_flag := 1\<rparr>) else s
      else if key_buf_idx s < 127 then putc key
        (s\<lparr>key_buf := (key_buf s)[key_buf_idx s := key], key_buf_idx := Suc (key_buf_idx s)\<rparr>) else s)"
    using assms(2) by (simp add: handle_key_def key_def [symmetric] Let_def KEY_BUF_MAX_def not_less)
  have cancel: "buf_clear (s\<lparr>ctrl_c_flag := 1\<rparr>) = s\<lparr>ctrl_c_flag := 1, key_buf := replicate 128 0, key_buf_idx := 0\<rparr>"
    using l by (simp add: buf_clear_eq line_ok_def)
  have c: "terminals_ok (buf_clear (s\<lparr>ctrl_c_flag := 1\<rparr>))"
      "edited (buf_clear (s\<lparr>ctrl_c_flag := 1\<rparr>)) = edit (colour s) Cancel (edited s)"
    using ok unfolding cancel by (simp_all add: terminals_ok_def edited_def key_line_def)
  let ?s1 = "s\<lparr>key_buf := (key_buf s)[key_buf_idx s := key], key_buf_idx := Suc (key_buf_idx s)\<rparr>"
  have typed: "terminals_ok (putc key ?s1)" "key_line (putc key ?s1) = key_line s @ [key]"
    "shown (putc key ?s1) = shown_put s key (shown s)" if "key_buf_idx s < 127" "key \<noteq> 0"
  proof -
    have t: "terminals_ok ?s1" "key_line ?s1 = key_line s @ [key]"
      using that type_key_edits [OF ok _ that(2)] by auto
    moreover have "cursor_ok ?s1" using l(2) by simp
    ultimately show "terminals_ok (putc key ?s1)" "key_line (putc key ?s1) = key_line s @ [key]"
      "shown (putc key ?s1) = shown_put s key (shown s)"
      using screen_step_ok [OF t(1), of "putc key ?s1"] putc_refines_ok [of ?s1 key] by (simp_all add: shown_def)
  qed
  show ?ok
    using ok typed(1) wipe_edits(1) [OF ok] c(1) unfolding hk by (simp del: One_nat_def)
  show ?ed
    using typed wipe_edits(2) [OF ok] c(2) unfolding hk key_def [symmetric]
    by (simp add: edit_of_key_def edited_def len del: One_nat_def)
qed

lemma handle_enter_edits:
  assumes ok: "terminals_ok s" and cur: "cur_term_id s < 3"
  shows "\<exists>s'. handle_enter s = Some s' \<and> terminals_ok s' \<and> edited s' = edit (colour s) New_Line (edited s)
    \<and> cur_term_id s' = cur_term_id s \<and> now_term_id s' = now_term_id s
    \<and> (key_buf_idx s < 128 \<longrightarrow> terms s' = (terms s)(cur_term_id s := (terms s (cur_term_id s))\<lparr>enter_state := 1\<rparr>))"
proof (cases "key_buf_idx s < 128")
  case True
  let ?s1 = "s\<lparr>key_buf := (key_buf s)[key_buf_idx s := 0x0A], key_buf_idx := Suc (key_buf_idx s)\<rparr>"
  let ?s2 = "update_term (cur_term_id s) (\<lambda>t. t\<lparr>enter_state := 1\<rparr>) ?s1"
  have t: "terminals_ok ?s1" "key_line ?s1 = key_line s @ [0x0A]"
    using type_key_edits [OF ok True, of "0x0A"] by simp_all
  have l: "length (key_line s) < 128" "cursor_ok s"
    using ok True length_key_line [of s] by (simp_all add: terminals_ok_def)
  have "pages_ok ?s2" using t(1) by (auto simp: terminals_ok_def pages_ok_def)
  then have 2: "terminals_ok ?s2" "cursor_ok ?s2" "colour ?s2 = colour s"
    using t(1) by (auto simp: terminals_ok_def term_ok_def)
  have e: "cursor_ok (enter ?s2)" "shown (enter ?s2) = vga_newline (0x20, colour s) (shown ?s2)"
    using enter_refines [of ?s2] 2(2,3) by (auto simp: cursor_ok_def)
  have "handle_enter s = Some (enter ?s2)"
    using True cur by (simp add: handle_enter_def Let_def KEY_BUF_MAX_def TERM_MAX_def)
  moreover have "terminals_ok (enter ?s2)" by (rule screen_step_ok [OF 2(1) _ e(1)]) simp
  moreover have "edited (enter ?s2) = edit (colour s) New_Line (edited s)"
    using t(2) e(2) l(1) by (simp add: edited_def)
  moreover have "terms (enter ?s2) = (terms s)(cur_term_id s := (terms s (cur_term_id s))\<lparr>enter_state := 1\<rparr>)"
    by (simp add: fun_eq_iff)
  ultimately show ?thesis by (intro exI [of _ "enter ?s2"]) simp
next
  case False
  then have "\<not> length (ed_line (edited s)) < 128"
    using ok length_key_line [of s] by (simp add: edited_def terminals_ok_def)
  then show ?thesis using False ok by (simp add: handle_enter_def KEY_BUF_MAX_def)
qed

lemma handle_backspace_edits:
  assumes ok: "terminals_ok s"
  shows "terminals_ok (handle_backspace s)" "edited (handle_backspace s) = edit (colour s) Erase (edited s)"
proof -
  have "terminals_ok (handle_backspace s) \<and> edited (handle_backspace s) = edit (colour s) Erase (edited s)"
  proof (cases "key_buf_idx s")
    case 0
    then show ?thesis using ok by (simp add: handle_backspace_def edited_def key_line_def)
  next
    case (Suc n)
    have l: "line_ok (key_buf s) (Suc n)" "n < length (key_buf s)"
      using ok Suc by (auto simp: terminals_ok_def line_ok_def)
    have hb: "handle_backspace s = (backspace s)\<lparr>key_buf_idx := n, key_buf := (key_buf s)[n := 0]\<rparr>"
      using Suc by (simp add: handle_backspace_def Let_def)
    have b: "shown (backspace s) = vga_backspace (0x20, colour s) (shown s)" "cursor_ok (backspace s)"
      using backspace_refines_ok [of s] ok by (simp_all add: terminals_ok_def)
    then have "terminals_ok (backspace s)" by (intro screen_step_ok [OF ok]) simp_all
    then have "terminals_ok (handle_backspace s)"
      using line_ok_chop [OF l(1)] by (simp add: hb terminals_ok_def)
    moreover have "key_line s \<noteq> []" using l(2) Suc by (auto simp: key_line_def)
    ultimately show ?thesis
      using b line_chop [OF l(2), of 0] Suc by (simp add: hb edited_def key_line_def)
  qed
  then show "terminals_ok (handle_backspace s)" "edited (handle_backspace s) = edit (colour s) Erase (edited s)"
    by auto
qed

lemma buf_clear_frame [simp]:
  "terms (buf_clear s) = terms s" "cur_term_id (buf_clear s) = cur_term_id s"
  "now_term_id (buf_clear s) = now_term_id s" "scancode_state (buf_clear s) = scancode_state s"
  "ctrl_state (buf_clear s) = ctrl_state s" "alt_state (buf_clear s) = alt_state s"
proof -
  define s1 where "s1 = for_range 0 KEY_BUF_MAX (\<lambda>i s. s\<lparr>key_buf := (key_buf s)[i := 0]\<rparr>) s"
  have "terms s1 = terms s \<and> cur_term_id s1 = cur_term_id s \<and> now_term_id s1 = now_term_id s
    \<and> scancode_state s1 = scancode_state s \<and> ctrl_state s1 = ctrl_state s \<and> alt_state s1 = alt_state s"
    unfolding s1_def by (rule for_range_keeps) simp_all
  then show "terms (buf_clear s) = terms s" "cur_term_id (buf_clear s) = cur_term_id s"
    "now_term_id (buf_clear s) = now_term_id s" "scancode_state (buf_clear s) = scancode_state s"
    "ctrl_state (buf_clear s) = ctrl_state s" "alt_state (buf_clear s) = alt_state s"
    by (simp_all add: buf_clear_def s1_def [symmetric])
qed

lemma handle_key_frame [simp]:
  "terms (handle_key c s) = terms s" "cur_term_id (handle_key c s) = cur_term_id s"
  "now_term_id (handle_key c s) = now_term_id s" "scancode_state (handle_key c s) = scancode_state s"
  "ctrl_state (handle_key c s) = ctrl_state s" "alt_state (handle_key c s) = alt_state s"
  by (simp_all add: handle_key_def Let_def)

lemma handle_backspace_frame [simp]:
  "terms (handle_backspace s) = terms s" "cur_term_id (handle_backspace s) = cur_term_id s"
  "now_term_id (handle_backspace s) = now_term_id s"
  by (simp_all add: handle_backspace_def Let_def)

lemma modifier_step:
  assumes "terminals_ok s"
  shows "m < 4 \<Longrightarrow> terminals_ok (s\<lparr>scancode_state := m\<rparr>)" "terminals_ok (s\<lparr>ctrl_state := n\<rparr>)"
    "terminals_ok (s\<lparr>alt_state := n\<rparr>)"
    "edited (s\<lparr>scancode_state := m\<rparr>) = edited s" "edited (s\<lparr>ctrl_state := n\<rparr>) = edited s"
    "edited (s\<lparr>alt_state := n\<rparr>) = edited s"
  using assms by (auto simp: terminals_ok_def edited_def key_line_def shown_def cursor_ok_def pages_ok_def)

text \<open>One scan code, a function key with \<open>Alt\<close> apart.\<close>

lemma handle_scancode_edits:
  assumes ok: "terminals_ok s" and cur: "cur_term_id s < 3" and "alt_state s = 0 \<or> c \<notin> {F1, F2, F3}"
  shows "\<exists>s'. handle_scancode c s = Some s' \<and> terminals_ok s' \<and> cur_term_id s' = cur_term_id s
    \<and> now_term_id s' = now_term_id s \<and> (c \<noteq> ENTER \<longrightarrow> terms s' = terms s)
    \<and> edited s' = edit (colour s) (edit_of (scancode_state s) (ctrl_state s) (alt_state s) c) (edited s)"
proof -
  have m: "scancode_state s XOR 2 < 4" "scancode_state s OR 1 < 4" "scancode_state s AND 0xFE < 4"
    using ok modifier_lt_4 [of "scancode_state s"] by (auto simp: terminals_ok_def)
  note mods = modifier_step [OF ok] m
  consider "c \<in> {CAPSLOCK_P, LSHIFT_P, LSHIFT_R, RSHIFT_P, RSHIFT_R, CTRL_P, CTRL_R, ALT_P, ALT_R}"
    | "c = ENTER" | "c = BACKSPACE" | "c \<in> {F1, F2, F3}"
    | "c \<notin> {CAPSLOCK_P, LSHIFT_P, LSHIFT_R, RSHIFT_P, RSHIFT_R, CTRL_P, CTRL_R, ALT_P, ALT_R}"
      "c \<notin> {ENTER, BACKSPACE, F1, F2, F3}" by blast
  then show ?thesis
  proof cases
    case 1
    then show ?thesis using mods
      by (elim insertE) (simp_all add: handle_scancode_def edit_of_def scancodes)
  next
    case 2
    then show ?thesis using handle_enter_edits [OF ok cur]
      by (auto simp: handle_scancode_def edit_of_def scancodes)
  next
    case 3
    then show ?thesis using handle_backspace_edits [OF ok]
      by (simp add: handle_scancode_def edit_of_def scancodes)
  next
    case 4
    then show ?thesis using assms(3) ok
      by (elim insertE) (simp_all add: handle_scancode_def edit_of_def scancodes)
  next
    case 5
    then have h: "handle_scancode c s = Some (handle_key c s)" by (simp add: handle_scancode_def)
    show ?thesis
    proof (cases "c < 59")
      case True
      then show ?thesis using 5 handle_key_edits [OF ok True] by (simp add: h edit_of_def)
    next
      case False
      then have "handle_key c s = s" by (simp add: handle_key_def not_less)
      then show ?thesis using 5 False ok by (simp add: h edit_of_def)
    qed
  qed
qed

lemma handle_scancode_ok:
  assumes ok: "terminals_ok s" and cur: "cur_term_id s < 3"
  shows "\<exists>s'. handle_scancode c s = Some s' \<and> terminals_ok s' \<and> cur_term_id s' < 3"
proof (cases "alt_state s = 0 \<or> c \<notin> {F1, F2, F3}")
  case True
  then show ?thesis using handle_scancode_edits [OF ok cur] cur by metis
next
  case False
  then have "alt_state s \<noteq> 0" "c = F1 \<or> c = F2 \<or> c = F3" by auto
  then have "\<exists>b < 3. handle_scancode c s = term_switch (cur_term_id s) b s"
    by (elim disjE) (auto simp: handle_scancode_def scancodes intro: exI [of _ 0] exI [of _ 1] exI [of _ 2])
  then show ?thesis using term_switch_terminals_ok [OF cur _ ok] by metis
qed

section \<open>Sequences of key presses\<close>

text \<open>The state after one scan code is a step of the keyboard; \<open>type_keys\<close> is a run of it.\<close>

inductive key_step :: "'a kbd_state_scheme \<Rightarrow> 'a kbd_state_scheme \<Rightarrow> bool" where
  press: "handle_scancode c s = Some s' \<Longrightarrow> key_step s s'"

inductive_cases key_stepE: "key_step s s'"
inductive_simps key_step_iff: "key_step s s'"

fun type_keys :: "byte list \<Rightarrow> 'a kbd_state_scheme \<Rightarrow> 'a kbd_state_scheme option" where
  "type_keys [] s = Some s"
| "type_keys (c # cs) s = do { s \<leftarrow> handle_scancode c s; type_keys cs s }"

lemma key_step_ok:
  "key_step s s' \<Longrightarrow> terminals_ok s \<and> cur_term_id s < 3 \<Longrightarrow> terminals_ok s' \<and> cur_term_id s' < 3"
  by (elim key_stepE) (metis handle_scancode_ok option.inject)

lemma key_steps_ok:
  "key_step\<^sup>*\<^sup>* s s' \<Longrightarrow> terminals_ok s \<and> cur_term_id s < 3 \<Longrightarrow> terminals_ok s' \<and> cur_term_id s' < 3"
  by (induction rule: rtranclp_induct) (auto dest: key_step_ok)

lemma type_keys_steps: "type_keys cs s = Some s' \<Longrightarrow> key_step\<^sup>*\<^sup>* s s'"
  by (induction cs arbitrary: s)
     (auto simp: bind_eq_Some_conv intro: press converse_rtranclp_into_rtranclp)

lemma type_keys_total:
  "terminals_ok s \<and> cur_term_id s < 3 \<Longrightarrow> \<exists>s'. type_keys cs s = Some s'"
proof (induction cs arbitrary: s)
  case (Cons c cs)
  then obtain s' where "handle_scancode c s = Some s'" "terminals_ok s' \<and> cur_term_id s' < 3"
    using handle_scancode_ok by metis
  then show ?case using Cons.IH [of s'] by simp
qed simp

text \<open>A key of the map with a character: not a modifier, not \<open>Enter\<close>, not a function key.\<close>

definition key_char :: "byte \<Rightarrow> byte \<Rightarrow> byte" where
  "key_char mods c = (if c < 59 then scancode_map ! unat mods ! unat c else 0)"

lemma special_no_char:
  assumes "mods < 4" and "c \<in> {CAPSLOCK_P, LSHIFT_P, RSHIFT_P, CTRL_P, ALT_P, ENTER, BACKSPACE, F1, F2, F3}"
  shows "key_char mods c = 0"
  using byte_lt_4 [OF assms(1)] assms(2)
  by (elim insertE disjE) (simp_all add: key_char_def scancode_map_def scancodes)

lemma edit_of_char:
  assumes "mods < 4" and "key_char mods c \<noteq> 0"
  shows "edit_of mods 0 0 c = Type (key_char mods c)" "c \<notin> {ENTER, F1, F2, F3}"
    "c \<notin> {CAPSLOCK_P, LSHIFT_P, LSHIFT_R, RSHIFT_P, RSHIFT_R, CTRL_P, CTRL_R, ALT_P, ALT_R, BACKSPACE}"
proof -
  have c: "c < 59" using assms(2) by (auto simp: key_char_def split: if_splits)
  have n: "c \<notin> {CAPSLOCK_P, LSHIFT_P, RSHIFT_P, CTRL_P, ALT_P, ENTER, BACKSPACE, F1, F2, F3}"
    using special_no_char [OF assms(1)] assms(2) by metis
  then show "c \<notin> {ENTER, F1, F2, F3}"
    "c \<notin> {CAPSLOCK_P, LSHIFT_P, LSHIFT_R, RSHIFT_P, RSHIFT_R, CTRL_P, CTRL_R, ALT_P, ALT_R, BACKSPACE}"
    using c by (auto simp: scancodes)
  show "edit_of mods 0 0 c = Type (key_char mods c)"
    using c n assms(2) by (simp add: edit_of_def edit_of_key_def key_char_def)
qed

text \<open>Typing a line while a program waits in \<open>term_read\<close>.\<close>

lemma sti_kbd [simp]:
  "terms (sti s) = terms s" "cur_term_id (sti s) = cur_term_id s" "now_term_id (sti s) = now_term_id s"
  "shown (sti s) = shown s" "cursor_ok (sti s) = cursor_ok s"
  by (simp_all add: sti_def shown_def cursor_ok_def)

lemma sti_keyboard [simp]:
  "key_buf (sti s) = key_buf s" "key_buf_idx (sti s) = key_buf_idx s" "scancode_state (sti s) = scancode_state s"
  "ctrl_state (sti s) = ctrl_state s" "alt_state (sti s) = alt_state s" "key_line (sti s) = key_line s"
  "terminals_ok (sti s) = terminals_ok s"
  by (simp_all add: terminals_ok_def pages_ok_def key_line_def) (simp_all add: sti_def)

lemma press_char:
  assumes "terminals_ok s" and "ctrl_state s = 0" and "alt_state s = 0"
    and "key_char (scancode_state s) c \<noteq> 0" and "length (key_line s) < 127"
  shows "handle_scancode c s = Some (handle_key c s)" "terminals_ok (handle_key c s)"
    "key_line (handle_key c s) = key_line s @ [key_char (scancode_state s) c]"
proof -
  have m: "scancode_state s < 4" using assms(1) by (simp add: terminals_ok_def)
  have "c < 59" using assms(4) by (auto simp: key_char_def split: if_splits)
  note k = edit_of_char [OF m assms(4)] handle_key_edits [OF assms(1) this]
  show "handle_scancode c s = Some (handle_key c s)" "terminals_ok (handle_key c s)"
    using k by (simp_all add: handle_scancode_def)
  show "key_line (handle_key c s) = key_line s @ [key_char (scancode_state s) c]"
    using arg_cong [OF k(5), of ed_line] assms(2-5)
    by (simp add: edited_def edit_of_key_def key_char_def split: if_splits)
qed

text \<open>What typing leaves alone: memory but the screen's, the terminals but for the flag of \<open>Enter\<close>, and
  everything outside the keyboard and the console; the page tables with them.\<close>

lemma translate_upd [simp]:
  "translate (s\<lparr>mem := m\<rparr>) = translate s" "translate (s\<lparr>out_log := l\<rparr>) = translate s" "translate (s\<lparr>iflag := b\<rparr>) = translate s"
  by (rule translate_cong; simp)+

lemma translate_console_upd [simp]:
  "translate (s\<lparr>screen_x := x\<rparr>) = translate s" "translate (s\<lparr>screen_y := x\<rparr>) = translate s" "translate (s\<lparr>video_mem := v\<rparr>) = translate s"
  "translate (s\<lparr>terms := ts\<rparr>) = translate s"
  by (rule translate_cong; simp)+

lemma translate_kbd_upd [simp]:
  "translate (s\<lparr>key_buf := b\<rparr>) = translate s" "translate (s\<lparr>key_buf_idx := i\<rparr>) = translate s"
  by (rule translate_cong; simp)+

lemma console_only_translate: "console_only s s' \<Longrightarrow> translate s' = translate s"
  unfolding console_only_def by (drule arg_cong [of _ _ translate]) simp

definition typed_only :: "'a kbd_state_scheme \<Rightarrow> 'a kbd_state_scheme \<Rightarrow> bool" where
  "typed_only s s' \<longleftrightarrow> (\<forall>x. x \<notin> page VIDEO \<longrightarrow> mem s' x = mem s x) \<and> kbd_state.more s' = kbd_state.more s
     \<and> cur_term_id s' = cur_term_id s \<and> now_term_id s' = now_term_id s
     \<and> (\<forall>i. (terms s' i)\<lparr>enter_state := 0\<rparr> = (terms s i)\<lparr>enter_state := 0\<rparr>)
     \<and> ctrl_state s' = ctrl_state s \<and> alt_state s' = alt_state s \<and> scancode_state s' = scancode_state s
     \<and> translate s' = translate s"

lemma typed_only_trans: "typed_only s s1 \<Longrightarrow> typed_only s1 s2 \<Longrightarrow> typed_only s s2"
  by (simp add: typed_only_def)

lemma press_char_typed:
  assumes "terminals_ok s" and "ctrl_state s = 0" and "alt_state s = 0"
    and "key_char (scancode_state s) c \<noteq> 0" and "length (key_line s) < 127"
  shows "typed_only s (handle_key c s)"
    "shown (handle_key c s) = shown_put s (key_char (scancode_state s) c) (shown s)"
proof -
  let ?k = "key_char (scancode_state s) c"
  let ?s1 = "s\<lparr>key_buf := (key_buf s)[key_buf_idx s := ?k], key_buf_idx := Suc (key_buf_idx s)\<rparr>"
  have c: "c < 59" using assms(4) by (auto simp: key_char_def split: if_splits)
  have ok: "cursor_ok s" "key_buf_idx s < 127" using assms(1,5) length_key_line [of s] by (simp_all add: terminals_ok_def)
  have hk: "handle_key c s = putc ?k ?s1"
    using assms(2-4) c ok(2) by (simp add: handle_key_def key_char_def Let_def KEY_BUF_MAX_def not_le)
  have ok1: "cursor_ok ?s1" using ok(1) by simp
  have m: "mem (putc ?k ?s1) x = mem s x" if "x \<notin> page VIDEO" for x
    using putc_outside(1) [OF ok1 that, of ?k] by simp
  have co: "console_only ?s1 (putc ?k ?s1)" by simp
  then have "kbd_state.more (putc ?k ?s1) = kbd_state.more ?s1"
    unfolding console_only_def by (drule_tac arg_cong [of _ _ kbd_state.more]) simp
  then show "typed_only s (handle_key c s)"
    using m console_only_translate [OF co] by (simp add: typed_only_def hk del: image_iff)
  show "shown (handle_key c s) = shown_put s ?k (shown s)"
    using putc_refines_ok [OF ok1, of ?k] by (simp add: hk)
qed

lemma handle_enter_typed:
  assumes "terminals_ok s" and "cur_term_id s < 3" and "handle_enter s = Some s'"
  shows "typed_only s s'"
proof (cases "key_buf_idx s < 128")
  case True
  let ?s2 = "update_term (cur_term_id s) (\<lambda>t. t\<lparr>enter_state := 1\<rparr>)
    (s\<lparr>key_buf := (key_buf s)[key_buf_idx s := 0x0A], key_buf_idx := Suc (key_buf_idx s)\<rparr>)"
  have s': "s' = enter ?s2" using assms(2,3) True by (simp add: handle_enter_def Let_def KEY_BUF_MAX_def TERM_MAX_def)
  have ok: "cursor_ok ?s2" using assms(1) by (simp add: terminals_ok_def)
  have m: "mem (enter ?s2) x = mem s x" if "x \<notin> page VIDEO" for x
    using enter_outside(1) [of ?s2 x] ok that by (simp add: cursor_ok_def)
  have co: "console_only ?s2 (enter ?s2)" by simp
  then have "kbd_state.more (enter ?s2) = kbd_state.more ?s2"
    unfolding console_only_def by (drule_tac arg_cong [of _ _ kbd_state.more]) simp
  moreover have "kbd_state.more ?s2 = kbd_state.more s" "translate ?s2 = translate s" by (simp_all add: update_term_def)
  ultimately show ?thesis using m console_only_translate [OF co] unfolding typed_only_def s' by (simp del: image_iff)
next
  case False
  then show ?thesis using assms(3) by (simp add: handle_enter_def KEY_BUF_MAX_def typed_only_def)
qed

lemma wait_for_line:
  assumes "terminals_ok s" and "ctrl_state s = 0" and "alt_state s = 0" and "cur_term_id s < 3"
    and "now_term_id s = cur_term_id s" and "enter_state (now_term s) = 0"
    and "\<forall>c \<in> set cs. key_char (scancode_state s) c \<noteq> 0" and "length (key_line s) + length cs \<le> 127"
  shows "\<exists>s'. wait_while (\<lambda>s. enter_state (now_term s) = 0) (map handle_scancode (cs @ [ENTER])) s = Some s'
    \<and> terminals_ok s' \<and> now_term_id s' = now_term_id s
    \<and> key_line s' = key_line s @ map (key_char (scancode_state s)) cs @ [0x0A]
    \<and> typed_only s s' \<and> shown s' = fold (shown_put s) (map (key_char (scancode_state s)) cs @ [0x0A]) (shown s)"
  using assms
proof (induction cs arbitrary: s)
  case Nil
  have idx: "key_buf_idx s < 128" using Nil.prems(1,8) length_key_line [of s] by (simp add: terminals_ok_def)
  obtain s' where s': "handle_enter s = Some s'" "terminals_ok s'" "now_term_id s' = now_term_id s"
      "edited s' = edit (colour s) New_Line (edited s)" "enter_state (now_term s') = 1" "typed_only s s'"
    using handle_enter_edits [OF Nil.prems(1,4)] handle_enter_typed [OF Nil.prems(1,4)] Nil.prems(5) idx by auto
  have "key_line s' = key_line s @ [0x0A]" "shown s' = shown_put s 0x0A (shown s)"
    using arg_cong [OF s'(4), of ed_line] arg_cong [OF s'(4), of ed_screen] Nil.prems(8)
    by (simp_all add: edited_def vga_put_def)
  then show ?case using s' Nil.prems(6) by (simp add: handle_scancode_def scancodes)
next
  case (Cons c cs)
  let ?s1 = "handle_key c s"
  have p: "handle_scancode c s = Some ?s1" "terminals_ok ?s1" "key_line ?s1 = key_line s @ [key_char (scancode_state s) c]"
    and t: "typed_only s ?s1" "shown ?s1 = shown_put s (key_char (scancode_state s) c) (shown s)"
    using press_char [of s c] press_char_typed [of s c] Cons.prems by auto
  have "\<exists>s'. wait_while (\<lambda>s. enter_state (now_term s) = 0) (map handle_scancode (cs @ [ENTER])) ?s1 = Some s'
    \<and> terminals_ok s' \<and> now_term_id s' = now_term_id ?s1
    \<and> key_line s' = key_line ?s1 @ map (key_char (scancode_state ?s1)) cs @ [0x0A]
    \<and> typed_only ?s1 s' \<and> shown s' = fold (shown_put ?s1) (map (key_char (scancode_state ?s1)) cs @ [0x0A]) (shown ?s1)"
    by (rule Cons.IH) (use Cons.prems p in auto)
  then show ?case using p t Cons.prems(6) typed_only_trans [OF t(1)] by simp blast
qed

section \<open>Properties\<close>

text \<open>C12: The handler is a line editor: a scan code, unless it is a function key with \<open>Alt\<close>, changes
  the line and the screen exactly as the edit it stands for: a character is appended and echoed
  while fewer than 127 are typed, \<open>Enter\<close> appends a newline while fewer than 128 are, backspace
  drops the last one and never more than was typed, control L wipes the screen and control C
  empties the line. No scan code makes it read outside its tables.\<close>

theorem keyboard_refines_line_editor:
  assumes "terminals_ok s" and "cur_term_id s < 3" and "alt_state s = 0 \<or> c \<notin> {F1, F2, F3}"
  shows "\<exists>s'. handle_scancode c s = Some s' \<and> terminals_ok s'
    \<and> edited s' = edit (attrib_of (cur_term_id s))
        (edit_of (scancode_state s) (ctrl_state s) (alt_state s) c) (edited s)"
  using handle_scancode_edits [OF assms] by blast

theorem keyboard_refines_line_editor_witness:
  "\<exists>s'. handle_scancode 0x1E (kbd_boot (\<lambda>_. 0)) = Some s' \<and> key_line s' = lit ''a''"
proof -
  have "key_line (kbd_boot (\<lambda>_. 0)) = []" by (simp add: key_line_def)
  then have "ed_line (edit 0xD (edit_of 0 0 0 0x1E) (edited (kbd_boot (\<lambda>_. 0)))) = lit ''a''"
    by (simp add: edit_of_def edit_of_key_def scancodes scancode_map_def edited_def)
  moreover obtain s' where "handle_scancode 0x1E (kbd_boot (\<lambda>_. 0)) = Some s'"
      "edited s' = edit 0xD (edit_of 0 0 0 0x1E) (edited (kbd_boot (\<lambda>_. 0)))"
    using keyboard_refines_line_editor [of "kbd_boot (\<lambda>_. 0)" "0x1E"] by (auto simp: attrib_of_def scancodes)
  moreover have "ed_line (edited s') = key_line s'" by (simp add: edited_def)
  ultimately show ?thesis by metis
qed

text \<open>C13: Every state the keyboard can reach, by any sequence of scan codes, switches of terminal
  included, keeps the invariant of the terminals: the key buffer and its index in bounds, with
  no NUL inside the line, a modifier state that indexes the scan code map, the cursor on the
  screen, and every saved terminal able to be restored.\<close>

theorem keyboard_invariant:
  assumes "terminals_ok s" and "cur_term_id s < 3" and "key_step\<^sup>*\<^sup>* s s'"
  shows "terminals_ok s' \<and> cur_term_id s' < 3 \<and> key_buf_idx s' \<le> length (key_buf s')
    \<and> unat (scancode_state s') < length scancode_map"
proof -
  have "terminals_ok s'" "cur_term_id s' < 3" using key_steps_ok [OF assms(3)] assms(1,2) by auto
  then show ?thesis
    by (auto simp: terminals_ok_def line_ok_def scancode_map_def word_less_nat_alt)
qed

theorem keyboard_invariant_witness:
  "\<exists>s'. type_keys [ALT_P, F2, ALT_R, 0x1E, ENTER] (kbd_boot (\<lambda>_. 0)) = Some s' \<and> terminals_ok s'"
proof -
  obtain s' where "type_keys [ALT_P, F2, ALT_R, 0x1E, ENTER] (kbd_boot (\<lambda>_. 0)) = Some s'"
    using type_keys_total [of "kbd_boot (\<lambda>_. 0)" "[ALT_P, F2, ALT_R, 0x1E, ENTER]"]
    by (auto simp del: type_keys.simps)
  then show ?thesis
    using keyboard_invariant [OF _ _ type_keys_steps, of "kbd_boot (\<lambda>_. 0)"]
    by (auto simp del: type_keys.simps)
qed

text \<open>C11: A program that waits in \<open>term_read\<close> gets the line the user types: after any characters
  that fit and \<open>Enter\<close>, the call returns, with the characters of the keys (appended to what had
  been typed before) and a newline, cut to the caller's length, stored at the caller's buffer,
  and the key buffer empty again.\<close>

theorem typed_line_is_read:
  assumes "terminals_ok s" and "ctrl_state s = 0" and "alt_state s = 0" and "cur_term_id s < 3"
    and "now_term_id s = cur_term_id s" and "enter_state (now_term s) = 0"
    and "\<forall>c \<in> set cs. key_char (scancode_state s) c \<noteq> 0" and "length (key_line s) + length cs \<le> 127"
    and "buf \<noteq> 0" and "0 \<le> len"
  defines "l \<equiv> take (nat len) (key_line s @ map (key_char (scancode_state s)) cs @ [0x0A])"
  shows "\<exists>s'. term_read (map handle_scancode (cs @ [ENTER])) buf len s = Some (int (length l), s')
    \<and> load (mem s') buf (length l) = l \<and> key_line s' = [] \<and> enter_state (now_term s') = 0"
proof -
  obtain s1 where s1: "wait_while (\<lambda>s. enter_state (now_term s) = 0) (map handle_scancode (cs @ [ENTER])) (sti s) = Some s1"
      "terminals_ok s1" "key_line s1 = key_line s @ map (key_char (scancode_state s)) cs @ [0x0A]"
    using wait_for_line [of "sti s" cs] assms(1-8) by auto
  have n: "length l = min (length (key_line s1)) (nat len)" "l = take (nat len) (key_line s1)"
    by (simp_all only: l_def s1(3) length_take)
  have "length l \<le> 4294967296"
    using s1(2) length_key_line [of s1] by (auto simp: n(1) terminals_ok_def line_ok_def)
  then show ?thesis
    using term_read_line [OF assms(9,10) _ s1(1)] s1(2) n
    by (simp add: terminals_ok_def load_store) (simp add: key_line_def)
qed

theorem typed_line_is_read_witness:
  "\<exists>s'. term_read (map handle_scancode [0x26, 0x1F, ENTER]) 0x8048000 128
       ((kbd_boot (\<lambda>_. 0))\<lparr>now_term_id := 0\<rparr>) = Some (3, s') \<and> load (mem s') 0x8048000 3 = lit ''ls\<newline>''"
proof -
  let ?s = "(kbd_boot (\<lambda>_. 0))\<lparr>now_term_id := 0\<rparr>"
  have ok: "terminals_ok ?s"
    using kbd_boot_ok [of "\<lambda>_. 0"] by (simp add: terminals_ok_def pages_ok_def cursor_ok_def)
  have c: "key_char 0 0x26 = 0x6C" "key_char 0 0x1F = 0x73" by (simp_all add: key_char_def scancode_map_def)
  have k: "key_line ?s = []" "scancode_state ?s = 0" "ctrl_state ?s = 0" "alt_state ?s = 0" "cur_term_id ?s < 3"
    "now_term_id ?s = cur_term_id ?s" "enter_state (now_term ?s) = 0" by (simp_all add: key_line_def no_term_def)
  obtain s' where s': "term_read (map handle_scancode ([0x26, 0x1F] @ [ENTER])) 0x8048000 128 ?s
        = Some (int (length (take (nat 128) ([] @ map (key_char 0) [0x26, 0x1F] @ [0x0A]))), s')"
      "load (mem s') 0x8048000 (length (take (nat 128) ([] @ map (key_char 0) [0x26, 0x1F] @ [0x0A])))
        = take (nat 128) ([] @ map (key_char 0) [0x26, 0x1F] @ [0x0A])"
    using typed_line_is_read [OF ok k(3,4,5,6,7), of "[0x26, 0x1F]" "0x8048000" 128, unfolded k(1,2)] c by auto
  show ?thesis
    by (rule exI [of _ s']) (use s' c in \<open>simp add: eval_nat_numeral\<close>)
qed

text \<open>The four rows of the scan code map agree with each other: on a letter, shift and caps
  lock each select the capital and cancel each other; on any other key caps lock changes
  nothing, but for one entry, the backslash key with both, which stays a backslash where
  shift alone gives a bar.\<close>

lemma scancode_map_rows:
  "length scancode_map = 4 \<and> (\<forall>row \<in> set scancode_map. length row = 59)
    \<and> (\<forall>k < 59. let plain = scancode_map ! 0 ! k; shift = scancode_map ! 1 ! k;
                   caps = scancode_map ! 2 ! k; both = scancode_map ! 3 ! k
        in if 0x61 \<le> plain \<and> plain \<le> 0x7A then shift = plain - 0x20 \<and> caps = shift \<and> both = plain
           else caps = plain \<and> both = (if k = 0x2B then 0x5C else shift))
    \<and> scancode_map ! 1 ! 0x2B = 0x7C"
proof -
  have "list_all (\<lambda>k. let plain = scancode_map ! 0 ! k; shift = scancode_map ! 1 ! k;
                   caps = scancode_map ! 2 ! k; both = scancode_map ! 3 ! k
        in if 0x61 \<le> plain \<and> plain \<le> 0x7A then shift = plain - 0x20 \<and> caps = shift \<and> both = plain
           else caps = plain \<and> both = (if k = 0x2B then 0x5C else shift)) [0..<59]"
    by code_simp
  then have "\<forall>k < 59. let plain = scancode_map ! 0 ! k; shift = scancode_map ! 1 ! k;
                   caps = scancode_map ! 2 ! k; both = scancode_map ! 3 ! k
        in if 0x61 \<le> plain \<and> plain \<le> 0x7A then shift = plain - 0x20 \<and> caps = shift \<and> both = plain
           else caps = plain \<and> both = (if k = 0x2B then 0x5C else shift)"
    unfolding list_all_iff by (metis atLeastLessThan_iff set_upt zero_le)
  moreover have "length scancode_map = 4 \<and> (\<forall>row \<in> set scancode_map. length row = 59)
      \<and> scancode_map ! 1 ! 0x2B = 0x7C" by code_simp
  ultimately show ?thesis by blast
qed

theorem scancode_map_rows_witness:
  "scancode_map ! 3 ! 0x1E = 0x61 \<and> scancode_map ! 3 ! 0x2B = 0x5C"
  using scancode_map_rows by (auto simp: scancode_map_def)

end
