(* ===== verification/Scheduling.thy ===== *)
theory Scheduling
  imports Process
begin

text \<open>
  The scheduler (\<open>scheduling.c\<close>): the timer interrupt gives the processor to the running process
  of the next terminal, round robin, launching a shell in a terminal that has none.
\<close>

definition PIT_freq :: u16 where "PIT_freq = 11931"
definition PIT_IRQ :: u32 where "PIT_IRQ = 0"
definition PIT_Channel_Zero :: u16 where "PIT_Channel_Zero = 0x40"
definition PIT_Mode_Reg :: u16 where "PIT_Mode_Reg = 0x43"
definition PIT_Mode_Three :: byte where "PIT_Mode_Three = 0x36"

definition pit_init :: "'a console_state_scheme \<Rightarrow> 'a console_state_scheme" where
  "pit_init s =
     (let s = outb PIT_Mode_Three PIT_Mode_Reg s;
          s = outb (ucast (PIT_freq AND 0xFF)) PIT_Channel_Zero s;
          s = outb (ucast (drop_bit 8 PIT_freq)) PIT_Channel_Zero s;
          s = enable_irq PIT_IRQ s
      in s\<lparr>now_term_id := 0\<rparr>)"

text \<open>
  From the choice of the next terminal on; the interrupted process's \<open>EBP\<close> and \<open>ESP\<close> are
  stored in its control block, the next one's are loaded.
\<close>

definition pit_switch :: "int \<Rightarrow> 'a proc_state_scheme \<Rightarrow> 'a proc_state_scheme option" where
  "pit_switch pcb_number s =
     (let next_pcb = pcb_of_term (next_term_id s) s;
          s = pcb_mapping 0x8000000 (0x800000 + word_of_int pcb_number * 0x400000) s
      in if pcb_term_id (pcbs s next_pcb) \<ge> TERM_MAX then None
         else
           let next_term = terms s (pcb_term_id (pcbs s next_pcb));
               s = (if cur_term_id s \<noteq> now_term_id s
                    then set_vidmem (term_video_mem next_term)
                           (scheduling_video_mapping (term_video_mem next_term) s)
                    else set_vidmem 0xB8000 (scheduling_video_mapping 0xB8000 s));
               s = s\<lparr>tss_ss0 := 0x18\<rparr>;
               s = s\<lparr>tss_esp0 := 0x800000 - word_of_int pcb_number * 0x2000 - 4\<rparr>
           in Some (s\<lparr>ebp := kbp (pcbs s next_pcb), esp := ksp (pcbs s next_pcb)\<rparr>))"

definition pit_interrupt_handler ::
  "(string \<Rightarrow> addr) \<Rightarrow> exec_frame \<Rightarrow> 'a fs_state_scheme \<Rightarrow> 'a fs_state_scheme outcome option" where
  "pit_interrupt_handler lits fr s =
     (let s = send_eoi PIT_IRQ s;
          s = cli s;
          s = s\<lparr>next_term_id := (now_term_id s + 1) mod TERM_MAX\<rparr>;
          pcb_number = cur_pcb_id (terms s (next_term_id s)) + int (next_term_id s) * int MAX_PCB_MASK_LEN;
          now_pcb_at = pcb_of_term (now_term_id s) s;
          s = s\<lparr>prev_term_id := now_term_id s\<rparr>;
          s = s\<lparr>now_term_id := next_term_id s\<rparr>;
          s = update_pcb now_pcb_at (\<lambda>p. p\<lparr>kbp := ebp s, ksp := esp s\<rparr>) s
      in if cur_pcb_id (terms s (next_term_id s)) = -1 then do {
           r \<leftarrow> term_launch lits fr (next_term_id s) s;
           case r of Returns _ s \<Rightarrow> Some (Returns 0 s) | _ \<Rightarrow> Some r
         }
         else do { s \<leftarrow> pit_switch pcb_number s; Some (Returns 0 s) })"

section \<open>Round robin\<close>

text \<open>A 4 MB page is not seen through the video table, so mapping that leaves it alone.\<close>

lemma video_mapping_big_page:
  "pd_index v \<noteq> 33 \<Longrightarrow> bit (page_dir s (pd_index v)) 7
    \<Longrightarrow> translate (scheduling_video_mapping p s) v = translate s v"
  by (simp add: translate_def scheduling_video_mapping_def Let_def table_at_def)

lemma scheduling_video_mapping_frame [simp]:
  "pcbs (scheduling_video_mapping p s) = pcbs s" "terms (scheduling_video_mapping p s) = terms s"
  "cur_term_id (scheduling_video_mapping p s) = cur_term_id s" "now_term_id (scheduling_video_mapping p s) = now_term_id s"
  by (simp_all add: scheduling_video_mapping_def Let_def set_page_dir_def set_page_video_tab_def flush_def)

text \<open>A process runs in each terminal, in one of the terminal's four slots.\<close>

definition slot_number :: "nat \<Rightarrow> 'a proc_state_scheme \<Rightarrow> int" where
  "slot_number i s = cur_pcb_id (terms s i) + int i * 4"

definition all_running :: "'a proc_state_scheme \<Rightarrow> bool" where
  "all_running s \<longleftrightarrow> now_term_id s < 3
     \<and> (\<forall>i < 3. 0 \<le> cur_pcb_id (terms s i) \<and> cur_pcb_id (terms s i) < 4 \<and> pcb_term_id (pcbs s (pcb_of_term i s)) = i)"

lemma pcb_of_term_slot:
  assumes "all_running s" and "i < 3"
  shows "pcb_of_term i s = 0x800000 - (word_of_int (slot_number i s) + 1) * 0x2000"
    "0 \<le> slot_number i s" "slot_number i s < 12" "slot_number i s div 4 = int i"
proof -
  have c: "0 \<le> cur_pcb_id (terms s i)" "cur_pcb_id (terms s i) < 4" using assms by (simp_all add: all_running_def)
  then show n: "0 \<le> slot_number i s" "slot_number i s < 12" "slot_number i s div 4 = int i"
    using assms(2) by (simp_all add: slot_number_def)
  show "pcb_of_term i s = 0x800000 - (word_of_int (slot_number i s) + 1) * 0x2000"
    using get_pcb_from_id_eq [of "nat (slot_number i s)"] n by (simp add: pcb_of_term_def slot_number_def MAX_PCB_MASK_LEN_def)
qed

lemma pcb_of_term_inj:
  assumes "all_running s" and "i < 3" and "j < 3" and "pcb_of_term i s = pcb_of_term j s"
  shows "i = j"
proof -
  note i = pcb_of_term_slot [OF assms(1,2)] and j = pcb_of_term_slot [OF assms(1,3)]
  have "slot_number i s = slot_number j s"
    using pcb_at_inj [of "slot_number i s" "slot_number j s"] i(2,3) j(2,3) assms(4) unfolding pcb_at_def i(1) j(1) by simp
  from arg_cong [OF this, of "\<lambda>n. n div 4"] show ?thesis unfolding i(4) j(4) by (rule of_nat_eq_iff [THEN iffD1])
qed

text \<open>What one timer interrupt does.\<close>

lemma timer_interrupt:
  assumes ok: "all_running s" and "now_term_id s = i" and "(i + 1) mod 3 = j"
  shows "\<exists>s'. pit_interrupt_handler lits fr s = Some (Returns 0 s') \<and> all_running s' \<and> now_term_id s' = j
    \<and> terms s' = terms s \<and> cur_term_id s' = cur_term_id s
    \<and> pcbs s' = (pcbs s)(pcb_of_term i s := (pcbs s (pcb_of_term i s))\<lparr>kbp := ebp s, ksp := esp s\<rparr>)
    \<and> ebp s' = kbp (pcbs s (pcb_of_term j s)) \<and> esp s' = ksp (pcbs s (pcb_of_term j s))
    \<and> tss_esp0 s' = pcb_of_term j s + 0x2000 - 4
    \<and> (\<forall>v. v div 0x400000 = 32 \<longrightarrow> translate s' v
        = Some \<lparr>phys = 0x800000 + word_of_int (slot_number j s) * 0x400000 + v mod 0x400000, user = True, writable = True\<rparr>)"
proof -
  define n where "n = slot_number j s"
  define a b where "a = pcb_of_term i s" and "b = pcb_of_term j s"
  define t where "t = send_eoi PIT_IRQ s"
  have t: "terms t = terms s" "pcbs t = pcbs s" "now_term_id t = now_term_id s" "ebp t = ebp s" "esp t = esp s"
      "cur_term_id t = cur_term_id s" "pcb_of_term k (t\<lparr>iflag := x, next_term_id := y\<rparr>) = pcb_of_term k s" for k x y
    by (simp_all add: t_def send_eoi_def send_eoi_master_def outb_def pcb_of_term_def)
  define s1 where "s1 = t\<lparr>iflag := False, next_term_id := j, prev_term_id := i, now_term_id := j\<rparr>"
  define s2 where "s2 = update_pcb a (\<lambda>p. p\<lparr>kbp := ebp s, ksp := esp s\<rparr>) s1"
  have i: "i < 3" using ok assms(2) by (simp add: all_running_def)
  have "i = 0 \<or> i = 1 \<or> i = 2" using i by linarith
  then have j: "j < 3" "i \<noteq> j" using assms(3) by auto
  have cj: "0 \<le> cur_pcb_id (terms s j)" "pcb_term_id (pcbs s b) = j" using ok j(1) by (simp_all add: all_running_def b_def)
  have ab: "a \<noteq> b" using pcb_of_term_inj [OF ok i j(1)] j(2) by (auto simp: a_def b_def)
  have s1: "terms s1 = terms s" "pcbs s1 = pcbs s" "ebp s1 = ebp s" "esp s1 = esp s" "cur_term_id s1 = cur_term_id s"
      "next_term_id s1 = j" "now_term_id s1 = j"
    by (simp_all add: s1_def t)
  have s2: "terms s2 = terms s" "pcbs s2 = (pcbs s)(a := (pcbs s a)\<lparr>kbp := ebp s, ksp := esp s\<rparr>)"
      "cur_term_id s2 = cur_term_id s" "next_term_id s2 = j" "now_term_id s2 = j" "pcb_of_term j s2 = b"
    by (simp_all add: s2_def s1 b_def pcb_of_term_def fun_eq_iff)
  have "pit_interrupt_handler lits fr s = do { s \<leftarrow> pit_switch n s2; Some (Returns 0 s) }"
    using cj assms(2,3)
    by (simp add: pit_interrupt_handler_def Let_def s2_def s1_def a_def n_def slot_number_def MAX_PCB_MASK_LEN_def
        cli_def TERM_MAX_def t_def [symmetric] t)
  moreover define vm where "vm = (if cur_term_id s \<noteq> j then term_video_mem (terms s j) else 0xB8000)"
  define s3 where "s3 = pcb_mapping 0x8000000 (0x800000 + word_of_int n * 0x400000) s2"
  define s4 where "s4 = (set_vidmem vm (scheduling_video_mapping vm s3))\<lparr>tss_ss0 := 0x18,
      tss_esp0 := 0x800000 - word_of_int n * 0x2000 - 4, ebp := kbp (pcbs s b), esp := ksp (pcbs s b)\<rparr>"
  have "pit_switch n s2 = Some s4"
    using cj(2) j(1) ab by (simp add: pit_switch_def Let_def s2 TERM_MAX_def s4_def s3_def vm_def set_vidmem_def)
  ultimately have run: "pit_interrupt_handler lits fr s = Some (Returns 0 s4)" by simp
  have s4: "now_term_id s4 = j" "terms s4 = terms s" "cur_term_id s4 = cur_term_id s" "pcbs s4 = pcbs s2"
      "ebp s4 = kbp (pcbs s b)" "esp s4 = ksp (pcbs s b)" "tss_esp0 s4 = 0x800000 - word_of_int n * 0x2000 - 4"
    by (simp_all add: s4_def s3_def s2 set_vidmem_def)
  have "pcb_of_term k s4 = pcb_of_term k s" for k by (rule pcb_of_term_cong [OF s4(2)])
  then have ok': "all_running s4" using ok j(1) unfolding all_running_def s4 by (auto simp: s2)
  have tr: "translate s4 v = Some \<lparr>phys = 0x800000 + word_of_int n * 0x400000 + v mod 0x400000, user = True, writable = True\<rparr>"
    if v: "v div 0x400000 = 32" for v
  proof -
    have i: "pd_index v = 32" by (rule user_page_index [OF v])
    then have "bit (page_dir s3 (pd_index v)) 7"
      using entry_bits [OF user_frame_aligned, of 7] by (simp add: s3_def pcb_mapping_def Let_def set_page_dir_def flush_def)
    then have "translate (scheduling_video_mapping vm s3) v = translate s3 v" using i by (intro video_mapping_big_page) simp_all
    moreover have "translate s4 = translate (scheduling_video_mapping vm s3)"
      by (rule translate_cong) (simp_all add: s4_def set_vidmem_def)
    ultimately show ?thesis using user_page_translate [OF v, of n s2] by (simp add: s3_def)
  qed
  have "0x800000 - word_of_int n * 0x2000 - 4 = b + 0x2000 - 4"
    using pcb_of_term_slot(1) [OF ok j(1)] by (simp add: b_def n_def algebra_simps)
  then show ?thesis
    using run ok' s4 s2(2) tr assms(2) unfolding n_def [symmetric] a_def [symmetric] b_def [symmetric]
    by (intro exI [of _ s4]) simp
qed

text \<open>
  What may happen between two interrupts: the running process goes on, with its own stack; the
  schedule and the registers saved in the control blocks stay as they are.
\<close>

definition program_runs :: "'a fs_state_scheme \<Rightarrow> 'a fs_state_scheme \<Rightarrow> bool" where
  "program_runs s t \<longleftrightarrow> now_term_id t = now_term_id s
     \<and> (\<forall>i. cur_pcb_id (terms t i) = cur_pcb_id (terms s i))
     \<and> (\<forall>a. kbp (pcbs t a) = kbp (pcbs s a) \<and> ksp (pcbs t a) = ksp (pcbs s a) \<and> pcb_term_id (pcbs t a) = pcb_term_id (pcbs s a))"

lemma program_runs_same:
  assumes "program_runs s t"
  shows "slot_number i t = slot_number i s" "pcb_of_term i t = pcb_of_term i s" "all_running s \<Longrightarrow> all_running t"
proof -
  show p: "pcb_of_term i t = pcb_of_term i s" for i using assms by (simp add: program_runs_def pcb_of_term_def)
  show "slot_number i t = slot_number i s" using assms by (simp add: program_runs_def slot_number_def)
  show "all_running s \<Longrightarrow> all_running t" using assms unfolding all_running_def p by (simp add: program_runs_def)
qed

text \<open>The registers of the process of terminal \<open>i\<close> wait in its control block.\<close>

definition waiting :: "nat \<Rightarrow> u32 \<Rightarrow> u32 \<Rightarrow> int \<Rightarrow> 'a fs_state_scheme \<Rightarrow> bool" where
  "waiting i bp sp n s \<longleftrightarrow> all_running s \<and> slot_number i s = n
     \<and> kbp (pcbs s (pcb_of_term i s)) = bp \<and> ksp (pcbs s (pcb_of_term i s)) = sp"

lemma waiting_runs: "program_runs s t \<Longrightarrow> waiting i bp sp n s \<Longrightarrow> waiting i bp sp n t"
  using program_runs_same(1,2) [of s t i] program_runs_same(3) [of s t] by (simp add: waiting_def program_runs_def)

lemma interrupt_saves:
  assumes "all_running s" and "now_term_id s = i"
  obtains s' where "pit_interrupt_handler lits fr s = Some (Returns 0 s')" "now_term_id s' = (i + 1) mod 3"
    "waiting i (ebp s) (esp s) (slot_number i s) s'"
proof -
  obtain s' where s': "pit_interrupt_handler lits fr s = Some (Returns 0 s')" "now_term_id s' = (i + 1) mod 3"
      "all_running s'" "terms s' = terms s"
      "pcbs s' = (pcbs s)(pcb_of_term i s := (pcbs s (pcb_of_term i s))\<lparr>kbp := ebp s, ksp := esp s\<rparr>)"
    using timer_interrupt [OF assms refl] by blast
  moreover have "pcb_of_term i s' = pcb_of_term i s" by (rule pcb_of_term_cong [OF s'(4)])
  ultimately show thesis by (intro that [of s']) (simp_all add: waiting_def slot_number_def)
qed

lemma interrupt_keeps:
  assumes w: "waiting k bp sp n s" and "k < 3" and i: "now_term_id s = i" "k \<noteq> i"
  obtains s' where "pit_interrupt_handler lits fr s = Some (Returns 0 s')" "now_term_id s' = (i + 1) mod 3"
    "waiting k bp sp n s'" "(i + 1) mod 3 = k \<Longrightarrow> ebp s' = bp \<and> esp s' = sp
      \<and> (\<forall>v. v div 0x400000 = 32 \<longrightarrow> translate s' v
          = Some \<lparr>phys = 0x800000 + word_of_int n * 0x400000 + v mod 0x400000, user = True, writable = True\<rparr>)"
proof -
  have ok: "all_running s" and n: "slot_number k s = n"
    and regs: "kbp (pcbs s (pcb_of_term k s)) = bp" "ksp (pcbs s (pcb_of_term k s)) = sp"
    using w by (simp_all add: waiting_def)
  obtain s' where s': "pit_interrupt_handler lits fr s = Some (Returns 0 s')" "now_term_id s' = (i + 1) mod 3"
      "all_running s'" "terms s' = terms s"
      "pcbs s' = (pcbs s)(pcb_of_term i s := (pcbs s (pcb_of_term i s))\<lparr>kbp := ebp s, ksp := esp s\<rparr>)"
      "ebp s' = kbp (pcbs s (pcb_of_term ((i + 1) mod 3) s))" "esp s' = ksp (pcbs s (pcb_of_term ((i + 1) mod 3) s))"
      "\<forall>v. v div 0x400000 = 32 \<longrightarrow> translate s' v = Some \<lparr>phys = 0x800000
          + word_of_int (slot_number ((i + 1) mod 3) s) * 0x400000 + v mod 0x400000, user = True, writable = True\<rparr>"
    using timer_interrupt [OF ok i(1) refl] by blast
  have "pcb_of_term k s \<noteq> pcb_of_term i s" using pcb_of_term_inj [OF ok assms(2), of i] i ok by (auto simp: all_running_def)
  moreover have "pcb_of_term k s' = pcb_of_term k s" by (rule pcb_of_term_cong [OF s'(4)])
  ultimately have "waiting k bp sp n s'" using s'(3-5) n regs by (simp add: waiting_def slot_number_def)
  moreover have "ebp s' = bp \<and> esp s' = sp \<and> (\<forall>v. v div 0x400000 = 32 \<longrightarrow> translate s' v
      = Some \<lparr>phys = 0x800000 + word_of_int n * 0x400000 + v mod 0x400000, user = True, writable = True\<rparr>)"
    if "(i + 1) mod 3 = k" using s'(6-8) regs n unfolding that by simp
  ultimately show thesis using s'(1,2) by (intro that [of s'])
qed

text \<open>C6: with a process running in each of the three terminals, the timer interrupt that takes the
  processor from a process is the first of three; the third, that is the second after it, gives it
  back: whatever the programs do in between that leaves the schedule as it is (\<open>program_runs\<close>), the
  interrupted process runs again with the \<open>EBP\<close> and \<open>ESP\<close> it had and its own 4 MB frame behind
  the user page.\<close>

theorem round_robin:
  assumes "all_running s" and "now_term_id s = i"
  shows "\<exists>s1. pit_interrupt_handler lits fr s = Some (Returns 0 s1)
    \<and> (\<forall>t1. program_runs s1 t1 \<longrightarrow> (\<exists>s2. pit_interrupt_handler lits fr t1 = Some (Returns 0 s2)
    \<and> (\<forall>t2. program_runs s2 t2 \<longrightarrow> (\<exists>s3. pit_interrupt_handler lits fr t2 = Some (Returns 0 s3)
    \<and> now_term_id s3 = i \<and> ebp s3 = ebp s \<and> esp s3 = esp s
    \<and> (\<forall>v. v div 0x400000 = 32 \<longrightarrow> translate s3 v = Some \<lparr>phys = 0x800000
        + word_of_int (slot_number i s) * 0x400000 + v mod 0x400000, user = True, writable = True\<rparr>)))))"
proof -
  have "i < 3" using assms by (simp add: all_running_def)
  then have m: "(i + 1) mod 3 \<noteq> i" "((i + 1) mod 3 + 1) mod 3 \<noteq> i" "(((i + 1) mod 3 + 1) mod 3 + 1) mod 3 = i"
    by presburger+
  let ?w = "waiting i (ebp s) (esp s) (slot_number i s)"
  obtain s1 where s1: "pit_interrupt_handler lits fr s = Some (Returns 0 s1)" "now_term_id s1 = (i + 1) mod 3" "?w s1"
    by (rule interrupt_saves [OF assms])
  show ?thesis
  proof (rule exI [of _ s1], rule conjI [OF s1(1)], intro allI impI)
    fix t1 assume r: "program_runs s1 t1"
    have "now_term_id t1 = (i + 1) mod 3" using r s1(2) by (simp add: program_runs_def)
    then obtain s2 where s2: "pit_interrupt_handler lits fr t1 = Some (Returns 0 s2)"
        "now_term_id s2 = ((i + 1) mod 3 + 1) mod 3" "?w s2"
      by (rule interrupt_keeps [OF waiting_runs [OF r s1(3)] \<open>i < 3\<close> _ m(1) [symmetric]])
    show "\<exists>s2. pit_interrupt_handler lits fr t1 = Some (Returns 0 s2)
        \<and> (\<forall>t2. program_runs s2 t2 \<longrightarrow> (\<exists>s3. pit_interrupt_handler lits fr t2 = Some (Returns 0 s3)
        \<and> now_term_id s3 = i \<and> ebp s3 = ebp s \<and> esp s3 = esp s
        \<and> (\<forall>v. v div 0x400000 = 32 \<longrightarrow> translate s3 v = Some \<lparr>phys = 0x800000
            + word_of_int (slot_number i s) * 0x400000 + v mod 0x400000, user = True, writable = True\<rparr>)))"
    proof (rule exI [of _ s2], rule conjI [OF s2(1)], intro allI impI)
      fix t2 assume r2: "program_runs s2 t2"
      have "now_term_id t2 = ((i + 1) mod 3 + 1) mod 3" using r2 s2(2) by (simp add: program_runs_def)
      from interrupt_keeps [OF waiting_runs [OF r2 s2(3)] \<open>i < 3\<close> this m(2) [symmetric]] m(3)
      show "\<exists>s3. pit_interrupt_handler lits fr t2 = Some (Returns 0 s3)
          \<and> now_term_id s3 = i \<and> ebp s3 = ebp s \<and> esp s3 = esp s
          \<and> (\<forall>v. v div 0x400000 = 32 \<longrightarrow> translate s3 v = Some \<lparr>phys = 0x800000
              + word_of_int (slot_number i s) * 0x400000 + v mod 0x400000, user = True, writable = True\<rparr>)"
        by metis
    qed
  qed
qed

text \<open>A shell in the first slot of each terminal, the second one's running.\<close>

definition three_shells :: fs_state where
  "three_shells = (shell_boot (\<lambda>_. 0))\<lparr>terms := (\<lambda>i. no_term\<lparr>cur_pcb_id := 0\<rparr>),
     pcbs := (\<lambda>a. std_pcb\<lparr>pcb_term_id := unat ((0x800000 - a) div 0x8000)\<rparr>)\<rparr>"

lemma three_shells_running: "all_running three_shells" "now_term_id three_shells = 1" "esp three_shells = 0x7F9F00"
proof -
  have "unat ((0x2000 + ucast (of_nat i * 4 :: byte) * 0x2000 :: u32) div 0x8000) = i" if "i < 3" for i
  proof -
    have "i = 0 \<or> i = 1 \<or> i = 2" using that by linarith
    then show ?thesis by auto
  qed
  then show "all_running three_shells"
    by (simp add: all_running_def three_shells_def pcb_of_term_def get_pcb_from_id_def MAX_PCB_MASK_LEN_def)
qed (simp_all add: three_shells_def)

theorem round_robin_witness:
  "\<exists>s1 s2 s3. pit_interrupt_handler (\<lambda>_. 0) example_frame three_shells = Some (Returns 0 s1)
    \<and> pit_interrupt_handler (\<lambda>_. 0) example_frame s1 = Some (Returns 0 s2)
    \<and> pit_interrupt_handler (\<lambda>_. 0) example_frame s2 = Some (Returns 0 s3)
    \<and> now_term_id s3 = 1 \<and> esp s3 = 0x7F9F00"
proof -
  have refl: "program_runs s s" for s :: fs_state by (simp add: program_runs_def)
  show ?thesis
    using round_robin [OF three_shells_running(1,2), of "\<lambda>_. 0" example_frame] refl
    unfolding three_shells_running(3) by blast
qed

end
