(* ===== verification/Idt.thy ===== *)
theory Idt
  imports Keyboard Scheduling
begin

text \<open>
  The interrupt descriptor table (\<open>idt.c\<close>, with the layout of \<open>x86_desc.h\<close>), the exception
  handlers and the mouse (\<open>mouse.c\<close>). \<open>handler_at\<close> gives the address of a handler of the
  kernel image by its name. An exception ends the process; \<open>while(1)\<close> after \<open>halt\<close> would
  never return, so a \<open>halt\<close> that returned is \<open>None\<close>.
\<close>

section \<open>Descriptors\<close>

record idt_desc =
  offset_15_00 :: u16
  seg_selector :: u16
  reserved4 :: byte
  reserved3 :: bool
  reserved2 :: bool
  reserved1 :: bool
  desc_size :: bool
  reserved0 :: bool
  dpl :: nat
  present :: bool
  offset_31_16 :: u16

record idt_state = fs_state +
  idt :: "nat \<Rightarrow> idt_desc" \<comment> \<open>\<open>idt[NUM_VEC]\<close>\<close>

definition NUM_VEC :: nat where "NUM_VEC = 256"
definition KBD_VEC :: nat where "KBD_VEC = 0x21"
definition RTC_VEC :: nat where "RTC_VEC = 0x28"
definition SYS_VEC :: nat where "SYS_VEC = 0x80"
definition PIT_VEC :: nat where "PIT_VEC = 0x20"
definition MSE_VEC :: nat where "MSE_VEC = 0x2C"
definition KERNEL_CS :: u16 where "KERNEL_CS = 0x0010"

definition SET_IDT_ENTRY :: "addr \<Rightarrow> idt_desc \<Rightarrow> idt_desc" where
  "SET_IDT_ENTRY handler d =
     d\<lparr>offset_31_16 := ucast (drop_bit 16 (handler AND 0xFFFF0000)),
       offset_15_00 := ucast (handler AND 0xFFFF)\<rparr>"

definition set_idt :: "nat \<Rightarrow> addr \<Rightarrow> 'a idt_state_scheme \<Rightarrow> 'a idt_state_scheme" where
  "set_idt i handler s = s\<lparr>idt := (idt s)(i := SET_IDT_ENTRY handler (idt s i))\<rparr>"

text \<open>The messages of the exception table, by vector.\<close>

definition exceptions :: "(nat \<times> string \<times> string) list" where
  "exceptions =
    [(0, ''DE'', ''Divide Error Exception''), (1, ''DB'', ''Debug Exception''),
     (2, ''NMI'', ''NMI Interrupt''), (3, ''BP'', ''Breakpoint Exception''),
     (4, ''OF'', ''Overflow Exception''), (5, ''BR'', ''BOUND Range Exceeded Exception''),
     (6, ''UD'', ''Invalid Opcode Exception''), (7, ''NM'', ''Device Not Available Exception''),
     (8, ''DF'', ''Double Fault Exception''), (9, ''CSO'', ''Coprocessor Segment Overrun''),
     (10, ''TS'', ''Invalid TSS Exception''), (11, ''NP'', ''Segment Not Present''),
     (12, ''SS'', ''Stack Fault Exception''), (13, ''GP'', ''General Protection Exception''),
     (16, ''MF'', ''x87 FPU Floating-Point Error''), (17, ''AC'', ''Alignment Check Exception''),
     (18, ''MC'', ''Machine-Check Exception''), (19, ''XF'', ''SIMD Floating-Point Exception'')]"

definition idt_init_entry ::
  "(string \<Rightarrow> addr) \<Rightarrow> nat \<Rightarrow> 'a idt_state_scheme \<Rightarrow> 'a idt_state_scheme" where
  "idt_init_entry handler_at index s =
     (let s = s\<lparr>idt := (idt s)(index := (idt s index)\<lparr>seg_selector := KERNEL_CS, reserved4 := 0,
                 reserved3 := False, reserved2 := True, reserved1 := True, desc_size := True,
                 reserved0 := False, dpl := 0, present := True\<rparr>)\<rparr>
      in if index > 31 then set_idt index (handler_at ''undef_interrupt'') s else s)"

definition idt_init :: "(string \<Rightarrow> addr) \<Rightarrow> 'a idt_state_scheme \<Rightarrow> 'a idt_state_scheme" where
  "idt_init handler_at s =
     (let s = for_range 0 NUM_VEC (idt_init_entry handler_at) s;
          s = s\<lparr>idt := (idt s)(SYS_VEC := (idt s SYS_VEC)\<lparr>dpl := 3\<rparr>)\<rparr>;
          s = fold (\<lambda>(i, name, msg). set_idt i (handler_at name)) exceptions s;
          s = set_idt 14 (handler_at ''PF'') s;
          s = set_idt KBD_VEC (handler_at ''kbd_handler'') s;
          s = set_idt RTC_VEC (handler_at ''rtc_handler'') s;
          s = set_idt SYS_VEC (handler_at ''syc_handler'') s;
          s = set_idt PIT_VEC (handler_at ''pit_handler'') s
      in set_idt MSE_VEC (handler_at ''mse_handler'') s)"

section \<open>Exceptions and the mouse\<close>

text \<open>A call of \<open>printf\<close>: the arguments are pushed, that is stored from \<open>exec_args_at\<close> on.\<close>

definition kprintf ::
  "(string \<Rightarrow> addr) \<Rightarrow> exec_frame \<Rightarrow> string \<Rightarrow> u32 list \<Rightarrow> 'a console_state_scheme
    \<Rightarrow> 'a console_state_scheme option" where
  "kprintf lits fr format args s = do {
     (s, n) \<leftarrow> printf (exec_conv_at fr) (lits format) (exec_args_at fr)
                  (s\<lparr>mem := store (mem s) (exec_args_at fr) (concat (map dword_bytes args))\<rparr>);
     Some s
   }"

definition no_return :: "'s outcome \<Rightarrow> 's outcome option" where
  "no_return r = (case r of Returns _ s \<Rightarrow> None | _ \<Rightarrow> Some r)"

definition exception_handler ::
  "(string \<Rightarrow> addr) \<Rightarrow> exec_frame \<Rightarrow> string \<Rightarrow> 'a fs_state_scheme \<Rightarrow> 'a fs_state_scheme outcome option" where
  "exception_handler lits fr msg s =
     (let s = cli s;
          s = s\<lparr>interrupt_halt_flag := 1\<rparr>
      in do {
        s \<leftarrow> kprintf lits fr ''%s\<newline>'' [lits msg] s;
        r \<leftarrow> halt lits fr 0 s;
        no_return r
      })"

definition pf_handler ::
  "(string \<Rightarrow> addr) \<Rightarrow> exec_frame \<Rightarrow> u32 \<Rightarrow> u32 \<Rightarrow> 'a fs_state_scheme \<Rightarrow> 'a fs_state_scheme outcome option" where
  "pf_handler lits fr cr error s =
     (let s = cli s;
          s = s\<lparr>interrupt_halt_flag := 1\<rparr>
      in do {
        s \<leftarrow> kprintf lits fr ''page-fault\<newline>'' [] s;
        s \<leftarrow> kprintf lits fr ''%x\<newline>'' [cr] s;
        s \<leftarrow> kprintf lits fr ''%x\<newline>'' [error] s;
        r \<leftarrow> halt lits fr 0 s;
        no_return r
      })"

definition undef_interrupt ::
  "(string \<Rightarrow> addr) \<Rightarrow> exec_frame \<Rightarrow> 'a console_state_scheme \<Rightarrow> 'a console_state_scheme option" where
  "undef_interrupt lits fr s = kprintf lits fr ''Undefined Interrupt'' [] s"

definition MOUSE_IRQ :: u32 where "MOUSE_IRQ = 12"

definition mouse_init :: "'a pic_state_scheme \<Rightarrow> 'a pic_state_scheme" where
  "mouse_init s = enable_irq MOUSE_IRQ s"

definition mouse_interrupt_handler ::
  "(string \<Rightarrow> addr) \<Rightarrow> exec_frame \<Rightarrow> 'a console_state_scheme \<Rightarrow> 'a console_state_scheme option" where
  "mouse_interrupt_handler lits fr s = do {
     s \<leftarrow> kprintf lits fr ''Mouse interrupt has occurred!'' [] (cli s);
     Some (sti (send_eoi MOUSE_IRQ s))
   }"

section \<open>The table after set-up\<close>

text \<open>The address an entry jumps to.\<close>

definition entry_handler :: "idt_desc \<Rightarrow> addr" where
  "entry_handler d = push_bit 16 (ucast (offset_31_16 d)) OR ucast (offset_15_00 d)"

lemma entry_handler_SET [simp]: "entry_handler (SET_IDT_ENTRY a d) = a"
proof (rule bit_word_eqI)
  fix n assume "n < LENGTH(32)"
  have m: "(0xFFFF :: u32) = mask 16" "(0xFFFF0000 :: u32) = push_bit 16 (mask 16)" by (simp_all add: mask_eq_exp_minus_1)
  show "bit (entry_handler (SET_IDT_ENTRY a d)) n = bit a n"
    using \<open>n < LENGTH(32)\<close> unfolding entry_handler_def SET_IDT_ENTRY_def m
    by (auto simp: bit_or_iff bit_push_bit_iff bit_ucast_iff bit_drop_bit_eq bit_and_iff bit_mask_iff)
qed

text \<open>The handler a vector is to have: \<open>None\<close> for those of the processor's that are left alone.\<close>

definition vector_handler :: "nat \<Rightarrow> string option" where
  "vector_handler i =
     (if i = MSE_VEC then Some ''mse_handler'' else if i = PIT_VEC then Some ''pit_handler''
      else if i = SYS_VEC then Some ''syc_handler'' else if i = RTC_VEC then Some ''rtc_handler''
      else if i = KBD_VEC then Some ''kbd_handler'' else if i = 14 then Some ''PF''
      else case map_of (map (\<lambda>(i, name, msg). (i, name)) exceptions) i of Some name \<Rightarrow> Some name
           | None \<Rightarrow> if 31 < i then Some ''undef_interrupt'' else None)"

lemma idt_set_idt [simp]: "idt (set_idt i h s) j = (if j = i then SET_IDT_ENTRY h (idt s j) else idt s j)"
  by (simp add: set_idt_def)

lemma idt_init_loop:
  "idt (for_range 0 n (idt_init_entry h) s) i = (if i < n then idt (idt_init_entry h i s) i else idt s i)"
proof (induction n)
  case (Suc n)
  let ?t = "for_range 0 n (idt_init_entry h) s"
  have "idt (idt_init_entry h n ?t) i = (if i = n then idt (idt_init_entry h i s) i else idt ?t i)"
  proof (cases "i = n")
    case True
    then have "idt ?t i = idt s i" using Suc by simp
    then show ?thesis using True by (simp add: idt_init_entry_def Let_def)
  qed (simp add: idt_init_entry_def Let_def)
  then show ?case using Suc by (simp add: for_range_Suc less_Suc_eq)
qed simp

lemma idt_fold_exceptions:
  "distinct (map fst xs) \<Longrightarrow> idt (fold (\<lambda>(i, name, msg). set_idt i (h name)) xs s) j
    = (case map_of (map (\<lambda>(i, name, msg). (i, name)) xs) j of None \<Rightarrow> idt s j
       | Some name \<Rightarrow> SET_IDT_ENTRY (h name) (idt s j))"
proof (induction xs arbitrary: s)
  case (Cons x xs)
  obtain i name msg where x: "x = (i, name, msg)" by (cases x)
  have "map_of (map (\<lambda>(i, name, msg). (i, name)) xs) i = None"
    using Cons.prems by (force simp: x map_of_eq_None_iff)
  with Cons show ?case by (auto simp: x split: option.splits)
qed simp

definition gate_ok :: "nat \<Rightarrow> idt_desc \<Rightarrow> bool" where
  "gate_ok level d \<longleftrightarrow> present d \<and> dpl d = level \<and> seg_selector d = KERNEL_CS \<and> desc_size d
     \<and> \<not> reserved3 d \<and> reserved2 d \<and> reserved1 d \<and> \<not> reserved0 d"

lemma gate_ok_SET [simp]: "gate_ok l (SET_IDT_ENTRY a d) = gate_ok l d"
  by (simp add: gate_ok_def SET_IDT_ENTRY_def)

lemma vector_handler_None: "i < 256 \<Longrightarrow> vector_handler i = None \<longleftrightarrow> i = 15 \<or> 20 \<le> i \<and> i \<le> 31"
  by (auto simp: vector_handler_def exceptions_def MSE_VEC_def PIT_VEC_def SYS_VEC_def RTC_VEC_def KBD_VEC_def split: if_splits) presburger

text \<open>C40: after \<open>idt_init\<close> every one of the 256 vectors is a present 32-bit interrupt gate into
  the kernel's code segment, callable by a user program only through vector \<open>0x80\<close>. Its offset is that of
  its handler: the exceptions', the devices', the system call's, and above 31 the default one. The
  reserved vectors 15 and 20 to 31 get no handler: they too are marked present, with the offset
  the table had before, which is null in the kernel's image.\<close>

theorem idt_init_table:
  "\<forall>i < 256. gate_ok (if i = 0x80 then 3 else 0) (idt (idt_init handler_at s) i)
    \<and> (vector_handler i = None \<longleftrightarrow> i = 15 \<or> 20 \<le> i \<and> i \<le> 31)
    \<and> entry_handler (idt (idt_init handler_at s) i)
       = (case vector_handler i of Some name \<Rightarrow> handler_at name | None \<Rightarrow> entry_handler (idt s i))"
proof (intro allI impI)
  fix i :: nat assume i: "i < 256"
  define d where "d = idt (for_range 0 256 (idt_init_entry handler_at) s) i"
  have d: "gate_ok 0 d" "entry_handler d = (if 31 < i then handler_at ''undef_interrupt'' else entry_handler (idt s i))"
    using i unfolding d_def idt_init_loop by (simp_all add: idt_init_entry_def Let_def) (simp_all add: gate_ok_def entry_handler_def)
  define d' where "d' = (if i = 0x80 then d\<lparr>dpl := 3\<rparr> else d)"
  have d': "gate_ok (if i = 0x80 then 3 else 0) d'" "entry_handler d' = (if 31 < i then handler_at ''undef_interrupt'' else entry_handler (idt s i))"
    using d by (auto simp: d'_def gate_ok_def entry_handler_def)
  have "distinct (map fst exceptions)" by (simp add: exceptions_def)
  note ex = idt_fold_exceptions [OF this, of handler_at]
  show "gate_ok (if i = 0x80 then 3 else 0) (idt (idt_init handler_at s) i)
      \<and> (vector_handler i = None \<longleftrightarrow> i = 15 \<or> 20 \<le> i \<and> i \<le> 31)
      \<and> entry_handler (idt (idt_init handler_at s) i)
        = (case vector_handler i of Some name \<Rightarrow> handler_at name | None \<Rightarrow> entry_handler (idt s i))"
  proof -
    let ?s = "(for_range 0 256 (idt_init_entry handler_at) s)\<lparr>idt := (idt (for_range 0 256 (idt_init_entry handler_at) s))
        (SYS_VEC := (idt (for_range 0 256 (idt_init_entry handler_at) s) SYS_VEC)\<lparr>dpl := 3\<rparr>)\<rparr>"
    have s: "idt ?s i = d'" by (simp add: d'_def d_def SYS_VEC_def)
    define e where "e = idt (fold (\<lambda>(i, name, msg). set_idt i (handler_at name)) exceptions ?s) i"
    have e: "gate_ok (if i = 0x80 then 3 else 0) e"
        "entry_handler e = (case (case map_of (map (\<lambda>(i, name, msg). (i, name)) exceptions) i of Some name \<Rightarrow> Some name
            | None \<Rightarrow> if 31 < i then Some ''undef_interrupt'' else None) of
          Some name \<Rightarrow> handler_at name | None \<Rightarrow> entry_handler (idt s i))"
      using d' unfolding e_def ex s by (auto split: option.splits)
    have i_eq: "idt (idt_init handler_at s) i = (if i = MSE_VEC then SET_IDT_ENTRY (handler_at ''mse_handler'') e
        else if i = PIT_VEC then SET_IDT_ENTRY (handler_at ''pit_handler'') e
        else if i = SYS_VEC then SET_IDT_ENTRY (handler_at ''syc_handler'') e
        else if i = RTC_VEC then SET_IDT_ENTRY (handler_at ''rtc_handler'') e
        else if i = KBD_VEC then SET_IDT_ENTRY (handler_at ''kbd_handler'') e
        else if i = 14 then SET_IDT_ENTRY (handler_at ''PF'') e else e)"
      unfolding idt_init_def Let_def NUM_VEC_def idt_set_idt e_def
      by (simp add: MSE_VEC_def PIT_VEC_def SYS_VEC_def RTC_VEC_def KBD_VEC_def)
    define l where "l = (if i = 0x80 then 3 else 0 :: nat)"
    have "gate_ok l e" using e(1) by (simp only: l_def)
    then have "gate_ok l (idt (idt_init handler_at s) i)" unfolding i_eq by (simp only: if_distrib [of "gate_ok l"] gate_ok_SET simp_thms if_cancel)
    moreover have "entry_handler (idt (idt_init handler_at s) i)
        = (case vector_handler i of Some name \<Rightarrow> handler_at name | None \<Rightarrow> entry_handler (idt s i))"
      unfolding i_eq vector_handler_def using e(2) by (simp only: if_distrib [of entry_handler] entry_handler_SET) (auto split: if_splits option.splits)
    ultimately show ?thesis using vector_handler_None [OF i] by (simp only: l_def)
  qed
qed

definition idt_boot :: idt_state where
  "idt_boot = fs_state.extend (fs_boot (\<lambda>_. 0))
     (idt_state.fields (\<lambda>_. \<lparr>offset_15_00 = 0, seg_selector = 0, reserved4 = 0, reserved3 = False, reserved2 = False,
        reserved1 = False, desc_size = False, reserved0 = False, dpl = 0, present = False, offset_31_16 = 0\<rparr>))"

theorem idt_init_table_witness:
  "gate_ok 3 (idt (idt_init (\<lambda>name. 0x400000 + of_nat (length name)) idt_boot) 0x80)
    \<and> entry_handler (idt (idt_init (\<lambda>name. 0x400000 + of_nat (length name)) idt_boot) 0x80) = 0x40000B
    \<and> present (idt (idt_init (\<lambda>name. 0x400000 + of_nat (length name)) idt_boot) 15)
    \<and> entry_handler (idt (idt_init (\<lambda>name. 0x400000 + of_nat (length name)) idt_boot) 15) = 0"
proof -
  have sys: "vector_handler 0x80 = Some ''syc_handler''"
    by (simp add: vector_handler_def MSE_VEC_def PIT_VEC_def SYS_VEC_def)
  have none: "vector_handler 15 = None" by (simp add: vector_handler_None)
  have null: "entry_handler (idt idt_boot 15) = 0"
    by (simp add: idt_boot_def entry_handler_def fs_boot_def proc_boot_def kbd_boot_def console_boot_def paging_boot_def pic_boot_def
        pic_state.defs paging_state.defs console_state.defs kbd_state.defs proc_state.defs fs_state.defs idt_state.defs)
  note t = idt_init_table [where handler_at = "\<lambda>name. 0x400000 + of_nat (length name)" and s = idt_boot, rule_format]
  show ?thesis using t [of "0x80"] t [of 15] by (simp add: sys none null) (simp add: gate_ok_def)
qed

end
