(* ===== verification/Kernel.thy ===== *)
theory Kernel
  imports Idt
begin

text \<open>
  The C entry point (\<open>kernel.c\<close>): the boot loader's information is printed, the descriptors
  of the LDT and the TSS are built, and every component is initialised, in the code's order.
  \<open>launch_tests\<close>, whose body is commented out, does nothing. The outcome is whether the
  final \<open>hlt\<close> loop was reached, with the state there.
\<close>

record seg_desc =
  seg_lim_15_00 :: u16
  base_15_00 :: u16
  base_23_16 :: byte
  seg_type :: nat
  seg_sys :: bool
  seg_dpl :: nat
  seg_present :: bool
  seg_lim_19_16 :: nat
  seg_avail :: bool
  seg_reserved :: bool
  seg_opsize :: bool
  seg_granularity :: bool
  base_31_24 :: byte

record kernel_state = idt_state +
  ldt_desc_ptr :: seg_desc
  tss_desc_ptr :: seg_desc
  tss_ldt_selector :: u16
  ldtr :: u16
  tr :: u16
  start_addr :: u32
  end_addr :: u32

definition KERNEL_DS :: u32 where "KERNEL_DS = 0x0018"
definition KERNEL_TSS :: u16 where "KERNEL_TSS = 0x0030"
definition KERNEL_LDT :: u16 where "KERNEL_LDT = 0x0038"
definition TSS_SIZE :: u32 where "TSS_SIZE = 104"
definition MULTIBOOT_BOOTLOADER_MAGIC :: u32 where "MULTIBOOT_BOOTLOADER_MAGIC = 0x2BADB002"

text \<open>\<open>SET_LDT_PARAMS\<close> and \<open>SET_TSS_PARAMS\<close>, which are the same text.\<close>

definition SET_SEG_PARAMS :: "addr \<Rightarrow> u32 \<Rightarrow> seg_desc \<Rightarrow> seg_desc" where
  "SET_SEG_PARAMS a lim d =
     d\<lparr>base_31_24 := ucast (drop_bit 24 (a AND 0xFF000000)),
       base_23_16 := ucast (drop_bit 16 (a AND 0x00FF0000)),
       base_15_00 := ucast (a AND 0x0000FFFF),
       seg_lim_19_16 := unat (drop_bit 16 (lim AND 0x000F0000)),
       seg_lim_15_00 := ucast (lim AND 0x0000FFFF)\<rparr>"

text \<open>What the image's linker and the boot code fix: literals, handlers, the LDT and the TSS.\<close>

record image =
  lits :: "string \<Rightarrow> addr"
  handler_at :: "string \<Rightarrow> addr"
  stack :: exec_frame
  ldt_at :: addr
  ldt_size :: u32
  tss_at :: addr
  tss_size :: u32
  uninit_desc :: seg_desc \<comment> \<open>the local descriptor before its fields are assigned\<close>

definition setup_ldt :: "image \<Rightarrow> 'a kernel_state_scheme \<Rightarrow> 'a kernel_state_scheme" where
  "setup_ldt im s =
     (let d = (uninit_desc im)\<lparr>seg_granularity := False, seg_opsize := True, seg_reserved := False,
                seg_avail := False, seg_present := True, seg_dpl := 0, seg_sys := False, seg_type := 2\<rparr>;
          d = SET_SEG_PARAMS (ldt_at im) (ldt_size im) d
      in s\<lparr>ldt_desc_ptr := d, ldtr := KERNEL_LDT\<rparr>)"

definition setup_tss :: "image \<Rightarrow> 'a kernel_state_scheme \<Rightarrow> 'a kernel_state_scheme" where
  "setup_tss im s =
     (let d = (uninit_desc im)\<lparr>seg_granularity := False, seg_opsize := False, seg_reserved := False,
                seg_avail := False, seg_lim_19_16 := unat (TSS_SIZE AND 0x000F0000), seg_present := True,
                seg_dpl := 0, seg_sys := False, seg_type := 9,
                seg_lim_15_00 := ucast (TSS_SIZE AND 0x0000FFFF)\<rparr>;
          d = SET_SEG_PARAMS (tss_at im) (tss_size im) d
      in s\<lparr>tss_desc_ptr := d, tss_ldt_selector := KERNEL_LDT, tss_ss0 := KERNEL_DS,
           tss_esp0 := 0x800000, tr := KERNEL_TSS\<rparr>)"

section \<open>Printing the boot information\<close>

abbreviation check_flag :: "u32 \<Rightarrow> nat \<Rightarrow> bool" where
  "check_flag fl i \<equiv> fl AND push_bit i 1 \<noteq> 0"

definition print_bytes :: "image \<Rightarrow> addr \<Rightarrow> 'a console_state_scheme \<Rightarrow> 'a console_state_scheme option" where
  "print_bytes im mod_start s =
     fold (\<lambda>i so. so \<bind> (\<lambda>s. kprintf (lits im) (stack im) ''0x%x '' [scast (mem s (mod_start + of_nat i))] s))
       [0..<16] (Some s)"

partial_function (option) print_modules ::
  "image \<Rightarrow> addr \<Rightarrow> addr \<Rightarrow> u32 \<Rightarrow> 'a console_state_scheme \<Rightarrow> 'a console_state_scheme option" where
  "print_modules im mbi m mod_count s =
     (if mod_count < load32 (mem s) (mbi + 20) then do {
        s \<leftarrow> kprintf (lits im) (stack im) ''Module %d loaded at address: 0x%#x\<newline>''
               [mod_count, load32 (mem s) m] s;
        s \<leftarrow> kprintf (lits im) (stack im) ''Module %d ends at address: 0x%#x\<newline>''
               [mod_count, load32 (mem s) (m + 4)] s;
        s \<leftarrow> kprintf (lits im) (stack im) ''First few bytes of module:\<newline>'' [] s;
        s \<leftarrow> print_bytes im (load32 (mem s) m) s;
        s \<leftarrow> kprintf (lits im) (stack im) ''\<newline>'' [] s;
        print_modules im mbi (m + 16) (mod_count + 1) s
      }
      else Some s)"

partial_function (option) print_mmap ::
  "image \<Rightarrow> addr \<Rightarrow> addr \<Rightarrow> 'a console_state_scheme \<Rightarrow> 'a console_state_scheme option" where
  "print_mmap im mbi mmap s =
     (if mmap < load32 (mem s) (mbi + 48) + load32 (mem s) (mbi + 44) then do {
        s \<leftarrow> kprintf (lits im) (stack im)
               ''    size = 0x%x, base_addr = 0x%#x%#x\<newline>    type = 0x%x,  length    = 0x%#x%#x\<newline>''
               [load32 (mem s) mmap, load32 (mem s) (mmap + 8), load32 (mem s) (mmap + 4),
                load32 (mem s) (mmap + 20), load32 (mem s) (mmap + 16), load32 (mem s) (mmap + 12)] s;
        print_mmap im mbi (mmap + load32 (mem s) mmap + 4) s
      }
      else Some s)"

section \<open>The entry point\<close>

text \<open>From the descriptors to the end.\<close>

definition init_devices ::
  "image \<Rightarrow> byte \<Rightarrow> byte \<Rightarrow> 'a kernel_state_scheme \<Rightarrow> 'a kernel_state_scheme option" where
  "init_devices im rtc_b rtc_a s =
     (let s = setup_tss im (setup_ldt im s)
      in do {
        s \<leftarrow> kprintf (lits im) (stack im) ''Enabling Interrupts\<newline>'' [] s;
        let s = idt_init (handler_at im) s;
            s = i8259_init s
        in do {
          s \<leftarrow> rtc_init rtc_b rtc_a s;
          let s = pit_init s;
              s = keyboard_init s;
              s = mouse_init s;
              s = paging_init s;
              s = snd (fs_init (start_addr s) (end_addr s) s);
              s = term_init s
          in Some (sti s)
        }
      })"

definition print_info ::
  "image \<Rightarrow> addr \<Rightarrow> 'a kernel_state_scheme \<Rightarrow> 'a kernel_state_scheme option" where
  "print_info im mbi s =
     (let fl = load32 (mem s) mbi; word = (\<lambda>k s. load32 (mem s) (mbi + k))
      in do {
        s \<leftarrow> kprintf (lits im) (stack im) ''flags = 0x%#x\<newline>'' [fl] s;
        s \<leftarrow> (if check_flag (word 0 s) 0 then kprintf (lits im) (stack im)
                 ''mem_lower = %uKB, mem_upper = %uKB\<newline>'' [word 4 s, word 8 s] s else Some s);
        s \<leftarrow> (if check_flag (word 0 s) 1 then kprintf (lits im) (stack im)
                 ''boot_device = 0x%#x\<newline>'' [word 12 s] s else Some s);
        s \<leftarrow> (if check_flag (word 0 s) 2 then kprintf (lits im) (stack im)
                 ''cmdline = %s\<newline>'' [word 16 s] s else Some s);
        if check_flag (word 0 s) 3 then
          let m = word 24 s;
              s = s\<lparr>start_addr := load32 (mem s) m, end_addr := load32 (mem s) (m + 4)\<rparr>
          in print_modules im mbi m 0 s
        else Some s
      })"

definition entry ::
  "image \<Rightarrow> byte \<Rightarrow> byte \<Rightarrow> u32 \<Rightarrow> addr \<Rightarrow> 'a kernel_state_scheme \<Rightarrow> (bool \<times> 'a kernel_state_scheme) option" where
  "entry im rtc_b rtc_a magic mbi s =
     (let s = clear s; word = (\<lambda>k s. load32 (mem s) (mbi + k))
      in if magic \<noteq> MULTIBOOT_BOOTLOADER_MAGIC then do {
           s \<leftarrow> kprintf (lits im) (stack im) ''Invalid magic number: 0x%#x\<newline>'' [magic] s;
           Some (False, s)
         }
         else do {
           s \<leftarrow> print_info im mbi s;
           if check_flag (word 0 s) 4 \<and> check_flag (word 0 s) 5 then do {
             s \<leftarrow> kprintf (lits im) (stack im) ''Both bits 4 and 5 are set.\<newline>'' [] s;
             Some (False, s)
           }
           else do {
             s \<leftarrow> (if check_flag (word 0 s) 5 then kprintf (lits im) (stack im)
                      ''elf_sec: num = %u, size = 0x%#x, addr = 0x%#x, shndx = 0x%#x\<newline>''
                      [word 28 s, word 32 s, word 36 s, word 40 s] s else Some s);
             s \<leftarrow> (if check_flag (word 0 s) 6 then do {
                      s \<leftarrow> kprintf (lits im) (stack im) ''mmap_addr = 0x%#x, mmap_length = 0x%x\<newline>''
                             [word 48 s, word 44 s] s;
                      print_mmap im mbi (word 48 s) s
                    } else Some s);
             s \<leftarrow> init_devices im rtc_b rtc_a s;
             Some (True, s)
           }
         })"

end
