(* ===== verification/Exec_Example.thy ===== *)
theory Exec_Example
  imports Process
begin

text \<open>
  An image with one program, and \<open>execute\<close> on it from the first terminal: the concrete run on
  which the properties of \<open>execute\<close> and \<open>halt\<close> are applied.
\<close>

text \<open>The file \<open>abc\<close> of the example image made an executable of 28 bytes, entered at \<open>0x08048000\<close>.\<close>

definition exec_mem :: mem where
  "exec_mem = fs_example_mem(0x101000 := 28, 0x102000 := 0x7F, 0x102001 := 0x45, 0x102002 := 0x4C,
     0x102003 := 0x46, 0x102019 := 0x80, 0x10201A := 0x04, 0x10201B := 0x08)"

definition img_ok :: "'a fs_state_scheme \<Rightarrow> bool" where
  "img_ok s \<longleftrightarrow> fs_dentry s = 0x100040 \<and> inodeblk s = 0x101000 \<and> first_datablk s = 0x102000
     \<and> num_datablocks (bootblk s) = 1 \<and> (\<forall>x. unat x < 0x300000 \<longrightarrow> mem s x = exec_mem x)"

lemma run_above:
  assumes "x \<in> run a n" and "0x300000 \<le> unat (a :: u32)" and "unat a + n \<le> 4294967296"
  shows "0x300000 \<le> unat x"
proof -
  obtain i where i: "i < n" "x = a + of_nat i" using assms(1) by blast
  have "a + of_nat i = of_nat (unat a + i)" by simp
  then have "unat x = unat a + i" using i assms(3) unat_of_nat_u32 [of "unat a + i"] by simp
  then show ?thesis using assms(2) by simp
qed

lemma img_ok_write:
  assumes "img_ok s" and "0x300000 \<le> unat a" and "unat a + n \<le> 4294967296" and "\<And>x. x \<notin> run a n \<Longrightarrow> m x = mem s x"
  shows "img_ok (s\<lparr>mem := m\<rparr>)"
proof -
  have "m x = mem s x" if "unat x < 0x300000" for x
    using run_above [OF _ assms(2,3)] that by (intro assms(4)) fastforce
  then show ?thesis using assms(1) by (simp add: img_ok_def)
qed

lemma img_load32: "img_ok s \<Longrightarrow> unat a + 4 \<le> 0x300000 \<Longrightarrow> load32 (mem s) a = load32 exec_mem a"
proof (rule load32_cong)
  fix x assume s: "img_ok s" "unat a + 4 \<le> 0x300000" and "x \<in> run a 4"
  then obtain i where i: "i < 4" "x = a + of_nat i" by auto
  have "a + of_nat i = of_nat (unat a + i)" by simp
  then have "unat x = unat a + i" using i s(2) unat_of_nat_u32 [of "unat a + i"] by simp
  then show "mem s x = exec_mem x" using s i by (simp add: img_ok_def)
qed

text \<open>Above the first entry's type the directory's bytes are zero.\<close>

lemma exec_mem_directory: "0x100061 \<le> unat x \<Longrightarrow> unat x < 0x101000 \<Longrightarrow> exec_mem x = 0"
  by (auto simp: exec_mem_def fs_example_mem_def)

lemma img_dir_ok:
  assumes "img_ok s"
  shows "dir_ok s (mem s)"
  unfolding dir_ok_def dentry_filetype_def
proof (intro allI impI)
  fix i :: nat assume i: "i < 63"
  let ?a = "dentry_addr s (of_nat i) + 32"
  have a: "?a = of_nat (0x100060 + 64 * i)"
    using assms by (simp add: dentry_addr_def img_ok_def)
  then have u: "unat ?a = 0x100060 + 64 * i" using i unat_of_nat_u32 [of "0x100060 + 64 * i"] by simp
  show "load32 (mem s) ?a < 0x1000000"
  proof (cases "i = 0")
    case True
    then show ?thesis using img_load32 [OF assms, of ?a] u a
      by (simp add: load32_def) (simp add: exec_mem_def fs_example_mem_def)
  next
    case False
    have "exec_mem (?a + of_nat k) = 0" if "k < 4" for k
    proof -
      have "?a + of_nat k = of_nat (0x100060 + 64 * i + k)" by (simp add: a)
      then have "unat (?a + of_nat k) = 0x100060 + 64 * i + k"
        using i that unat_of_nat_u32 [of "0x100060 + 64 * i + k"] by simp
      then show ?thesis using False i that by (intro exec_mem_directory) simp_all
    qed
    from this [of 0] this [of 1] this [of 2] this [of 3] have "load32 exec_mem ?a = 0"
      by (simp add: load32_def)
    then show ?thesis using img_load32 [OF assms, of ?a] u i by simp
  qed
qed

lemma img_find:
  assumes "img_ok s"
  shows "find (\<lambda>i. dentry_name s (mem s) i = [0x61, 0x62, 0x63]) [0..<63] = Some 0"
proof -
  have "mem s (0x100040 + of_nat i) = exec_mem (0x100040 + of_nat i)" if "i < 32" for i
  proof -
    have "0x100040 + of_nat i = (of_nat (0x100040 + i) :: u32)" by simp
    then have "unat (0x100040 + of_nat i :: u32) = 0x100040 + i" using that unat_of_nat_u32 [of "0x100040 + i"] by simp
    then show ?thesis using assms that by (simp add: img_ok_def)
  qed
  then have "load (mem s) 0x100040 32 = load exec_mem 0x100040 32" by (intro nth_equalityI) auto
  moreover have "str_prefix exec_mem 0x100040 32 = [0x61, 0x62, 0x63]"
    by (simp add: str_prefix_def load_def upt_rec) (simp add: exec_mem_def fs_example_mem_def)
  ultimately have "dentry_name s (mem s) 0 = [0x61, 0x62, 0x63]"
    using assms by (simp add: dentry_name_def dentry_addr_def str_prefix_def img_ok_def)
  then show ?thesis by (subst upt_rec) simp
qed

text \<open>Looking the name up, and reading the file, into buffers above the image.\<close>

lemma img_lookup:
  assumes s: "img_ok s" and name: "cstr (mem s) fname [0x61, 0x62, 0x63]" "fname \<noteq> 0"
    and d: "0x300000 \<le> unat d" "unat d + 40 \<le> 4294967296"
  obtains m where "read_dentry_by_name fname d s = Some (0, s\<lparr>mem := m\<rparr>)" "dentry_inode m d = 0"
    "\<And>x. x \<notin> run d 40 \<Longrightarrow> m x = mem s x"
proof -
  let ?a = "dentry_addr s 0"
  have a: "?a = 0x100040" using s by (simp add: dentry_addr_def img_ok_def)
  have same: "mem s (0x100040 + of_nat i) = exec_mem (0x100040 + of_nat i)" if "i < 64" for i
  proof -
    have "0x100040 + of_nat i = (of_nat (0x100040 + i) :: u32)" by simp
    then have "unat (0x100040 + of_nat i :: u32) = 0x100040 + i" using that unat_of_nat_u32 [of "0x100040 + i"] by simp
    then show ?thesis using s that by (simp add: img_ok_def)
  qed
  have "mem s 0x100040 = 0x61" "mem s 0x100041 = 0x62" "mem s 0x100042 = 0x63" "mem s 0x100043 = 0"
    using same [of 0] same [of 1] same [of 2] same [of 3] by (simp_all add: exec_mem_def fs_example_mem_def)
  then have src: "cstr (mem s) ?a [0x61, 0x62, 0x63]" by (simp add: a cstr_def load_def upt_rec)
  have apart: "run d 40 \<inter> run ?a 40 = {}" unfolding a by (rule runs_apart) (use d in simp_all)
  obtain m where m: "copy_dentry d ?a (mem s) = Some m" "dentry_inode m d = dentry_inode (mem s) ?a"
      "\<And>x. x \<notin> run d 40 \<Longrightarrow> m x = mem s x"
    using copy_dentry_eq [OF src _ apart] by auto
  have "dentry_inode (mem s) ?a = 0"
    using img_load32 [OF s, of "?a + 36"] by (simp add: a dentry_inode_def load32_def exec_mem_def fs_example_mem_def)
  moreover have "d \<noteq> 0" using d by auto
  then have "read_dentry_by_name fname d s = Some (0, s\<lparr>mem := m\<rparr>)"
    using read_dentry_by_name_find [OF img_dir_ok [OF s] name(1) _ _ name(2)] img_find [OF s] m(1) by simp
  ultimately show thesis using that m by simp
qed

definition exec_file :: "byte list" where
  "exec_file = map (\<lambda>j. exec_mem (0x102000 + of_nat j)) [0..<28]"

lemma img_file:
  assumes s: "img_ok s"
  shows "file_size s (mem s) 0 = 28" "inode_ok s (mem s) 0" "file_area s (mem s) 0 = run 0x101000 4096 \<union> run 0x102000 4096"
    "file_content s (mem s) 0 = exec_file"
proof -
  have i: "inodeblk s = 0x101000" "first_datablk s = 0x102000" "num_datablocks (bootblk s) = 1"
    using s by (simp_all add: img_ok_def)
  have "inode_size s (mem s) 0 = load32 exec_mem 0x101000"
    using img_load32 [OF s, of "0x101000"] by (simp add: inode_size_def i)
  also have "\<dots> = 28" by (simp add: load32_def exec_mem_def fs_example_mem_def)
  finally show size: "file_size s (mem s) 0 = 28" by (simp add: file_size_def)
  have "inode_block s (mem s) 0 0 = load32 exec_mem 0x101004"
    using img_load32 [OF s, of "0x101004"] by (simp add: inode_block_def i)
  also have "\<dots> = 0" by (simp add: load32_def exec_mem_def fs_example_mem_def)
  finally have b: "inode_block s (mem s) 0 0 = 0" .
  then have blk: "block_addr s (mem s) 0 0 = 0x102000" by (simp add: block_addr_def i)
  show "inode_ok s (mem s) 0" using b by (simp add: inode_ok_def size i)
  show "file_area s (mem s) 0 = run 0x101000 4096 \<union> run 0x102000 4096"
    by (simp add: file_area_def size blk i)
  have m: "mem s (0x102000 + of_nat j) = exec_mem (0x102000 + of_nat j)" if "j < 28" for j
  proof -
    have "0x102000 + of_nat j = (of_nat (0x102000 + j) :: u32)" by simp
    then have "unat (0x102000 + of_nat j :: u32) = 0x102000 + j" using that unat_of_nat_u32 [of "0x102000 + j"] by simp
    then show ?thesis using s that by (simp add: img_ok_def)
  qed
  show "file_content s (mem s) 0 = exec_file"
    by (rule nth_equalityI) (auto simp: size nth_file_content blk m exec_file_def)
qed

lemma img_read:
  assumes s: "img_ok s" and b: "0x300000 \<le> unat buf" "unat buf + unat len \<le> 4294967296" "28 \<le> unat len" "unat len < 2147483648"
  shows "read_data 0 0 buf len s = (28, s\<lparr>mem := store (mem s) buf exec_file\<rparr>)"
proof -
  have "run buf (unat len) \<inter> run 0x101000 4096 = {}" "run buf (unat len) \<inter> run 0x102000 4096 = {}"
    by (rule runs_apart; use b in simp)+
  then have "run buf (unat len) \<inter> file_area s (mem s) 0 = {}" by (simp only: img_file [OF s] Int_Un_distrib Un_empty)
  moreover have "length exec_file = 28" by (simp add: exec_file_def)
  moreover have "buf \<noteq> 0" using b(1) by auto
  ultimately show ?thesis
    using read_data_eq [OF img_file(2) [OF s], of buf len 0] b img_file(4) [OF s] by simp
qed

section \<open>\<open>execute\<close> on the image\<close>

lemma exec_file_magic: "length exec_file = 28" "take 4 exec_file = [0x7F, 0x45, 0x4C, 0x46]"
  by (simp_all add: exec_file_def take_map exec_mem_def fs_example_mem_def upt_rec)

lemma example_frame_simps [simp]:
  "filename_at example_frame = 0x400000" "fileargs_at example_frame = 0x400100"
  "headerbuf_at example_frame = 0x400200" "magicnumber_at example_frame = 0x400300"
  "loader_at example_frame = 0x400400" "magic_dentry_at example_frame = 0x400500"
  by (simp_all add: example_frame_def)

lemma shell_boot_img: "img_ok (shell_boot exec_mem)"
  by (simp add: img_ok_def shell_boot_def)

lemma load_away: "(\<And>x. x \<notin> run a n \<Longrightarrow> m' x = m x) \<Longrightarrow> run b k \<inter> run a n = {} \<Longrightarrow> load m' b k = load m b k"
  by (rule load_cong) blast

lemma cstr_of_load:
  assumes "load m a n = xs @ replicate (n - length xs) 0" and "length xs < n" and "n \<le> 4294967296" and "0 \<notin> set xs"
  shows "cstr m a xs"
proof -
  have nth: "m (a + of_nat i) = (xs @ replicate (n - length xs) 0) ! i" if "i < n" for i
    using that arg_cong [OF assms(1), of "\<lambda>l. l ! i"] by simp
  then have "load m a (length xs) = xs" using assms(2) by (intro nth_equalityI) (auto simp: nth_append)
  moreover have "m (a + of_nat (length xs)) = 0" using nth [of "length xs"] assms(2) by (simp add: nth_append)
  ultimately show ?thesis using assms by (simp add: cstr_def)
qed

text \<open>Up to the check of the magic number: the name is parsed and found, the header is read.\<close>

lemma exec_example_header:
  assumes img: "img_ok s" and start: "mem s = exec_mem"
  obtains m m2 where "parse_args example_frame 0x300000 (store exec_mem 0x400300 [0x7F, 0x45, 0x4C, 0x46]) = Some (Some m)"
    "read_dentry_by_name 0x400000 0x400500 (s\<lparr>mem := m\<rparr>) = Some (0, s\<lparr>mem := m2\<rparr>)"
    "dentry_inode m2 0x400500 = 0" "img_ok (s\<lparr>mem := m2\<rparr>)" "cstr m2 0x400000 [0x61, 0x62, 0x63]"
    "load m2 0x400300 4 = [0x7F, 0x45, 0x4C, 0x46]"
proof -
  let ?magic = "[0x7F, 0x45, 0x4C, 0x46] :: byte list"
  define m0 where "m0 = store exec_mem 0x400300 ?magic"
  have m0: "m0 x = exec_mem x" if "x \<notin> run 0x400300 4" for x
    using store_outside_run [of x "0x400300" ?magic exec_mem] that by (simp add: eval_nat_numeral m0_def)
  have i0: "img_ok (s\<lparr>mem := m0\<rparr>)" by (rule img_ok_write [OF img, of "0x400300" 4]) (use m0 start in simp_all)
  have "load exec_mem 0x300000 3 = [0x61, 0x62, 0x63]" "exec_mem 0x300003 = 0"
    by (simp_all add: load_def upt_rec exec_mem_def fs_example_mem_def)
  then have c0: "cstr exec_mem 0x300000 [0x61, 0x62, 0x63]" by (simp add: cstr_def numeral_3_eq_3)
  have "run 0x300000 (Suc (length [0x61, 0x62, 0x63 :: byte])) \<inter> run 0x400300 4 = {}"
    by (rule runs_apart) simp_all
  then have "\<forall>x \<in> run 0x300000 (Suc (length [0x61, 0x62, 0x63 :: byte])). m0 x = exec_mem x" using m0 by blast
  from cstr_agree [OF c0 this]
  have c: "cstr m0 0x300000 (replicate 0 0x20 @ [0x61, 0x62, 0x63] @ replicate 0 0x20 @ [])"
    by (simp only: replicate_0 append_Nil append_Nil2)
  let ?n = "Suc (0 + length [0x61, 0x62, 0x63 :: byte] + 0 + length ([] :: byte list))"
  have a: "run (filename_at example_frame) 32 \<inter> run (fileargs_at example_frame) 100 = {}"
    "run (filename_at example_frame) 32 \<inter> run 0x300000 ?n = {}" "run (fileargs_at example_frame) 100 \<inter> run 0x300000 ?n = {}"
    unfolding example_frame_simps by (rule runs_apart; simp)+
  obtain m where m: "parse_args example_frame 0x300000 m0 = Some (Some m)"
      "load m 0x400000 32 = [0x61, 0x62, 0x63] @ replicate 29 0"
      "\<And>x. x \<notin> run 0x400000 32 \<Longrightarrow> x \<notin> run 0x400100 100 \<Longrightarrow> m x = m0 x"
    using parse_args_eq [OF c _ _ _ _ _ a] by auto
  have sub: "run 0x400000 32 \<subseteq> run 0x400000 356" "run 0x400100 100 \<subseteq> run 0x400000 356"
    using run_subset [of 0 32 356 "0x400000"] run_subset [of 256 100 356 "0x400000"] by simp_all
  have "m x = m0 x" if "x \<notin> run 0x400000 356" for x
    using that sub by (intro m(3)) blast+
  then have i1: "img_ok (s\<lparr>mem := m\<rparr>)" using img_ok_write [OF i0, of "0x400000" 356 m] by simp
  have n1: "cstr m 0x400000 [0x61, 0x62, 0x63]" by (rule cstr_of_load [of _ _ 32]) (simp_all add: m(2))
  have "load m 0x400300 4 = load m0 0x400300 4"
    using m(3) runs_apart [of "0x400300" 4 "0x400000" 32] runs_apart [of "0x400300" 4 "0x400100" 100]
    by (intro load_cong) (simp, blast)
  then have g1: "load m 0x400300 4 = ?magic" by (simp add: m0_def load_store)
  obtain m2 where m2: "read_dentry_by_name 0x400000 0x400500 (s\<lparr>mem := m\<rparr>) = Some (0, s\<lparr>mem := m2\<rparr>)"
      "dentry_inode m2 0x400500 = 0" "\<And>x. x \<notin> run 0x400500 40 \<Longrightarrow> m2 x = m x"
    using img_lookup [OF i1, of "0x400000" "0x400500"] n1 by auto
  have i2: "img_ok (s\<lparr>mem := m2\<rparr>)"
    using img_ok_write [OF i1, of "0x400500" 40 m2] m2(3) by simp
  have ap: "run 0x400000 (Suc (length [0x61, 0x62, 0x63 :: byte])) \<inter> run 0x400500 40 = {}"
    "run 0x400300 4 \<inter> run 0x400500 40 = {}"
    by (rule runs_apart; simp)+
  have "\<forall>x \<in> run 0x400000 (Suc (length [0x61, 0x62, 0x63 :: byte])). m2 x = m x" using ap(1) m2(3) by blast
  from cstr_agree [OF n1 this] have n2: "cstr m2 0x400000 [0x61, 0x62, 0x63]" .
  have g2: "load m2 0x400300 4 = ?magic" using load_away [OF m2(3) ap(2)] g1 by simp
  show thesis by (rule that [OF m(1) [unfolded m0_def] m2(1,2) i2 n2 g2])
qed

text \<open>The magic number matches, the first slot is given, and the program is loaded and entered.\<close>

lemma load_program_enters:
  assumes "read_dentry_by_name (filename_at fr) (loader_at fr) (pcb_mapping 0x8000000 (0x800000 + word_of_int k * 0x400000) s)
      = Some (r, s2)" "r \<noteq> -1"
    and "read_data (dentry_inode (mem s2) (loader_at fr)) 0 0x08048000
      (inode_size s2 (mem s2) (dentry_inode (mem s2) (loader_at fr))) s2 = (r', s3)" "r' \<noteq> -1"
  shows "\<exists>e s'. load_program fr k s = Some (To_User e s')"
  using assms by (simp add: load_program_def Let_def)

lemma img_size: "img_ok s \<Longrightarrow> inode_size s (mem s) 0 = 28"
  using img_load32 [of s "0x101000"]
  by (simp add: inode_size_def img_ok_def load32_def exec_mem_def fs_example_mem_def)

lemma img_load_program:
  assumes s: "img_ok s" and n: "cstr (mem s) 0x400000 [0x61, 0x62, 0x63]"
  shows "\<exists>e s'. load_program example_frame k s = Some (To_User e s')"
proof -
  define s1 where "s1 = pcb_mapping 0x8000000 (0x800000 + word_of_int k * 0x400000) s"
  have i1: "img_ok s1" using s by (simp add: s1_def img_ok_def pcb_mapping_def Let_def set_page_dir_def flush_def)
  have n1: "cstr (mem s1) 0x400000 [0x61, 0x62, 0x63]" using n by (simp add: s1_def)
  obtain m where m: "read_dentry_by_name 0x400000 0x400400 s1 = Some (0, s1\<lparr>mem := m\<rparr>)"
      "dentry_inode m 0x400400 = 0" "\<And>x. x \<notin> run 0x400400 40 \<Longrightarrow> m x = mem s1 x"
    using img_lookup [OF i1 n1, of "0x400400"] by auto
  have i: "img_ok (s1\<lparr>mem := m\<rparr>)"
    using img_ok_write [OF i1, of "0x400400" 40 m] m(3) by simp
  have size: "inode_size (s1\<lparr>mem := m\<rparr>) m 0 = 28" using img_size [OF i] by simp
  have "read_data 0 0 0x08048000 28 (s1\<lparr>mem := m\<rparr>) = (28, (s1\<lparr>mem := m\<rparr>)\<lparr>mem := store m 0x08048000 exec_file\<rparr>)"
    using img_read [OF i, of "0x08048000" 28] by simp
  then show ?thesis
    using m(1,2) by (intro load_program_enters [where r = 0 and r' = 28 and ?s2.0 = "s1\<lparr>mem := m\<rparr>"]) (simp_all add: s1_def [symmetric] size)
qed

lemma load_take: "k \<le> n \<Longrightarrow> load m a k = take k (load m a n)"
  by (rule nth_equalityI) simp_all

lemma exec_example_runs:
  assumes img: "img_ok s" and start: "mem s = exec_mem" and free: "used_slots s = {}" "cur_term_id s = 0"
  shows "\<exists>e s'. execute lits example_frame 0x300000 s = Some (To_User e s')"
proof -
  obtain m m2 where h: "parse_args example_frame 0x300000 (store exec_mem 0x400300 [0x7F, 0x45, 0x4C, 0x46]) = Some (Some m)"
    "read_dentry_by_name 0x400000 0x400500 (s\<lparr>mem := m\<rparr>) = Some (0, s\<lparr>mem := m2\<rparr>)"
    "dentry_inode m2 0x400500 = 0" "img_ok (s\<lparr>mem := m2\<rparr>)" "cstr m2 0x400000 [0x61, 0x62, 0x63]"
    "load m2 0x400300 4 = [0x7F, 0x45, 0x4C, 0x46]"
    by (rule exec_example_header [OF img start])
  define m3 where "m3 = store m2 0x400200 exec_file"
  have r: "read_data 0 0 0x400200 40 (s\<lparr>mem := m2\<rparr>) = (28, s\<lparr>mem := m3\<rparr>)"
    using img_read [OF h(4), of "0x400200" 40] by (simp add: m3_def)
  have m3: "m3 x = m2 x" if "x \<notin> run 0x400200 28" for x
    using store_outside_run [of x "0x400200" exec_file m2] that exec_file_magic(1) by (simp add: m3_def)
  have "load m3 0x400200 28 = exec_file" using exec_file_magic(1) by (simp add: m3_def load_store)
  then have "load m3 0x400200 4 = take 4 exec_file" using load_take [of 4 28 m3 "0x400200"] by simp
  moreover have "load m3 0x400300 4 = load m2 0x400300 4"
    by (rule load_away [OF m3]) (simp, rule runs_apart, simp_all)
  ultimately have magic: "strncmp m3 0x400200 0x400300 4 = 0"
    using h(6) exec_file_magic(2) by (simp add: strncmp_0_iff str_prefix_def)
  have "used_slots (s\<lparr>mem := m3\<rparr>) = {}" using free(1) by (simp add: used_slots_def)
  moreover have "PCB_mask s 0 0 = 0" using free(1) by (auto simp: used_slots_def)
  ultimately have "PCB_process_number (s\<lparr>mem := m3\<rparr>) = Some (0, set_mask 0 0 1 (s\<lparr>mem := m3\<rparr>))"
    using PCB_process_number_found [of "s\<lparr>mem := m3\<rparr>" 0] free(2) by simp
  moreover obtain e s' where "load_program example_frame 0 (set_mask 0 0 1 (s\<lparr>mem := m3\<rparr>)) = Some (To_User e s')"
  proof -
    have i3: "img_ok (s\<lparr>mem := m3\<rparr>)"
      using img_ok_write [OF h(4), of "0x400200" 28 m3] m3 by simp
    have "run 0x400000 (Suc (length [0x61, 0x62, 0x63 :: byte])) \<inter> run 0x400200 28 = {}"
      by (rule runs_apart) simp_all
    then have "\<forall>x \<in> run 0x400000 (Suc (length [0x61, 0x62, 0x63 :: byte])). m3 x = m2 x" using m3 by blast
    from cstr_agree [OF h(5) this] i3 show thesis
      using that img_load_program [of "set_mask 0 0 1 (s\<lparr>mem := m3\<rparr>)" 0] by (auto simp: img_ok_def set_mask_def)
  qed
  ultimately show ?thesis using h(1,2,3) r magic by (simp add: execute_def Let_def start)
qed

theorem execute_creates_process_witness:
  "\<exists>e s'. execute (\<lambda>_. 0) example_frame 0x300000 (shell_boot exec_mem) = Some (To_User e s')
    \<and> fd_inv (pcbs s' (pcb_of_term 0 s')) \<and> card (used_slots s') \<le> 6"
proof -
  obtain e s' where e: "execute (\<lambda>_. 0) example_frame 0x300000 (shell_boot exec_mem) = Some (To_User e s')"
    using exec_example_runs [OF shell_boot_img] by (fastforce simp: used_slots_def shell_boot_def)
  have "\<forall>a. length (argbuf (pcbs (shell_boot exec_mem) a)) = 100" by (simp add: std_pcb_def no_pcb_def)
  from execute_creates_process [OF e this] have "fd_inv (pcbs s' (pcb_of_term 0 s')) \<and> card (used_slots s') \<le> 6"
    unfolding shell_boot_simps by blast
  with e show ?thesis by blast
qed

end
