(* ===== verification/Halt.thy ===== *)
theory Halt
  imports Exec_Example
begin

text \<open>
  What \<open>halt\<close> does for a process with a parent: the slot and the page go back, the parent is
  resumed in the frame where it called \<open>execute\<close>. Its loop over the descriptors closes them
  through \<open>close\<close>, which by then acts on the parent.
\<close>

section \<open>The loop over the descriptors\<close>

definition closed_fd :: "file_desc \<Rightarrow> file_desc" where
  "closed_fd f = f\<lparr>flags := 0\<rparr>"

text \<open>The ending process's descriptors, and the parent's, when the first \<open>k\<close> turns are done.\<close>

definition ended_fds :: "nat \<Rightarrow> pcb \<Rightarrow> pcb" where
  "ended_fds k p = p\<lparr>fds := (\<lambda>i. if i < k then (if flags (fds p i) = 1 then closed_fd (fds p i) else fds p i)\<lparr>optable := error_fop\<rparr> else fds p i)\<rparr>"

definition parent_fds :: "nat \<Rightarrow> pcb \<Rightarrow> pcb \<Rightarrow> pcb" where
  "parent_fds k p q = q\<lparr>fds := (\<lambda>i. if 2 \<le> i \<and> i < k \<and> flags (fds p i) = 1 then closed_fd (fds q i) else fds q i)\<rparr>"

lemma closed_fd_eta: "(\<lambda>f. f\<lparr>flags := 0\<rparr>) = closed_fd"
  by (simp add: fun_eq_iff closed_fd_def)

lemma fd_eqI: "flags f = 0 \<Longrightarrow> closed_fd f = f"
  by (cases f) (simp add: closed_fd_def)

lemma fds_k: "fds (ended_fds k p) k = fds p k" "fds (parent_fds k p q) k = fds q k"
  by (simp_all add: ended_fds_def parent_fds_def)

lemma ended_fds_Suc:
  "ended_fds (Suc k) p
    = update_fd k (\<lambda>f. (if flags (fds p k) = 1 then closed_fd f else f)\<lparr>optable := error_fop\<rparr>) (ended_fds k p)"
  by (auto simp: ended_fds_def update_fd_def fun_eq_iff less_Suc_eq)

lemma parent_fds_Suc:
  "parent_fds (Suc k) p q
    = (if 2 \<le> k \<and> flags (fds p k) = 1 then update_fd k closed_fd (parent_fds k p q) else parent_fds k p q)"
proof -
  have "(\<lambda>i. if 2 \<le> i \<and> i < Suc k \<and> flags (fds p i) = 1 then closed_fd (fds q i) else fds q i)
      = (if 2 \<le> k \<and> flags (fds p k) = 1
         then (fds (parent_fds k p q))(k := closed_fd (fds q k)) else fds (parent_fds k p q))"
    by (auto simp: parent_fds_def fun_eq_iff less_Suc_eq)
  then show ?thesis by (simp add: parent_fds_def [of "Suc k"] update_fd_def) (simp add: parent_fds_def)
qed

lemma update_fd_twice: "update_fd k g (update_fd k f p) = update_fd k (\<lambda>x. g (f x)) p"
  by (simp add: update_fd_def)

lemma sys_close_parent:
  assumes "pcb_of_term (now_term_id s) s = b" and "i < 8"
  shows "snd (sys_close (int i) s) = (if i < 2 then s else update_pcb b (update_fd i closed_fd) s)"
proof (cases "flags (fds (pcbs s b) i) = 0")
  case True
  then have "update_pcb b (update_fd i closed_fd) s = s"
    by (simp add: update_pcb_def update_fd_def fd_eqI)
  then show ?thesis using True assms by (simp add: sys_close_def Let_def MAX_FILE_NUM_def)
next
  case False
  then show ?thesis using assms by (simp add: sys_close_def Let_def MAX_FILE_NUM_def closed_fd_eta)
qed

lemma halt_close_fds:
  assumes "pcb_of_term (now_term_id s) s = b" and "a \<noteq> b" and "k \<le> 8"
  shows "for_range 0 k (halt_close_fd a) s
    = s\<lparr>pcbs := (pcbs s)(a := ended_fds k (pcbs s a), b := parent_fds k (pcbs s a) (pcbs s b))\<rparr>"
  using assms(3)
proof (induction k)
  case 0
  then show ?case by (simp add: ended_fds_def parent_fds_def)
next
  case (Suc k)
  let ?p = "pcbs s a" and ?q = "pcbs s b"
  let ?s = "s\<lparr>pcbs := (pcbs s)(a := ended_fds k ?p, b := parent_fds k ?p ?q)\<rparr>"
  have now: "pcb_of_term (now_term_id s) (s\<lparr>pcbs := x\<rparr>) = b" for x using assms(1) by (simp add: pcb_of_term_def)
  have step: "halt_close_fd a k ?s = s\<lparr>pcbs := (pcbs s)(a := ended_fds (Suc k) ?p, b := parent_fds (Suc k) ?p ?q)\<rparr>"
  proof (cases "flags (fds ?p k) = 1")
    case True
    let ?s1 = "update_pcb a (update_fd k closed_fd) ?s"
    have "snd (sys_close (int k) ?s1) = (if k < 2 then ?s1 else update_pcb b (update_fd k closed_fd) ?s1)"
      using Suc.prems by (intro sys_close_parent) (simp_all add: update_pcb_def now)
    then show ?thesis using True assms(2)
      by (simp add: halt_close_fd_def Let_def ended_fds_Suc parent_fds_Suc fds_k closed_fd_eta)
         (simp add: update_pcb_def update_fd_twice fun_upd_twist)
  next
    case False
    then show ?thesis using assms(2)
      by (simp add: halt_close_fd_def Let_def ended_fds_Suc parent_fds_Suc fds_k update_pcb_def fun_upd_twist)
  qed
  have "for_range 0 k (halt_close_fd a) s = ?s" by (rule Suc.IH [OF Suc_leD [OF Suc.prems]])
  then show ?case unfolding for_range_Suc [OF le0] by (simp only: step)
qed

section \<open>\<open>halt\<close>\<close>

lemma buf_clear_shape: "\<exists>kb. buf_clear s = s\<lparr>key_buf := kb, key_buf_idx := 0\<rparr>"
proof -
  have "\<exists>kb. for_range 0 n (\<lambda>i s. s\<lparr>key_buf := (key_buf s)[i := 0]\<rparr>) s = s\<lparr>key_buf := kb\<rparr>" for n
  proof (induction n)
    case 0
    show ?case by (intro exI [of _ "key_buf s"]) simp
  next
    case (Suc n)
    then show ?case by (auto simp: for_range_Suc)
  qed
  then obtain kb where "for_range 0 KEY_BUF_MAX (\<lambda>i s. s\<lparr>key_buf := (key_buf s)[i := 0]\<rparr>) s = s\<lparr>key_buf := kb\<rparr>" by blast
  then show ?thesis by (auto simp: buf_clear_def Let_def)
qed

text \<open>Process \<open>n\<close> runs in the current terminal, started by process \<open>k\<close> of the same terminal.\<close>

definition runs_under :: "int \<Rightarrow> int \<Rightarrow> 'a proc_state_scheme \<Rightarrow> bool" where
  "runs_under k n s \<longleftrightarrow> now_term_id s < 3 \<and> 0 \<le> k \<and> k < 12 \<and> 0 \<le> n \<and> n < 12 \<and> k \<noteq> n \<and> k div 4 = int (now_term_id s)
     \<and> pcb_of_term (now_term_id s) s = pcb_at n \<and> process_number (pcbs s (pcb_at n)) = n
     \<and> parent_process_number (pcbs s (pcb_at n)) = k \<and> process_number (pcbs s (pcb_at k)) = k
     \<and> (\<forall>fd < 8. flags (fds (pcbs s (pcb_at n)) fd) \<in> {0, 1})"

lemma pcb_of_term_at:
  assumes "cur_pcb_id (terms s i) = k mod 4" and "k div 4 = int i" and "0 \<le> k" and "k < 256"
  shows "pcb_of_term i s = pcb_at k"
proof -
  have "k mod 4 + k div 4 * 4 = k" by simp
  then show ?thesis using get_pcb_at [OF assms(3,4)]
    by (simp only: pcb_of_term_def assms(1) assms(2) [symmetric] MAX_PCB_MASK_LEN_def of_nat_numeral)
qed

lemma interrupt_halt_flag_pcb_mapping [simp]:
  "interrupt_halt_flag (pcb_mapping va p s) = interrupt_halt_flag s" "now_term_id (pcb_mapping va p s) = now_term_id s"
  by (simp_all add: pcb_mapping_def Let_def set_page_dir_def flush_def)

text \<open>The state in which the parent is resumed.\<close>

lemma halt_eq:
  assumes "runs_under k n s"
  obtains kb where "halt lits fr status s = Some (halt_to_parent status (pcb_at n)
    (s\<lparr>key_buf := kb, key_buf_idx := 0,
       terms := (terms s)(now_term_id s := (terms s (now_term_id s))\<lparr>cur_pcb_id := k mod 4\<rparr>),
       PCB_mask := (PCB_mask s)(nat n div 4 := (PCB_mask s (nat n div 4))(nat n mod 4 := 0)),
       pcbs := (pcbs s)(pcb_at n := ended_fds 8 (pcbs s (pcb_at n)),
                        pcb_at k := parent_fds 8 (pcbs s (pcb_at n)) (pcbs s (pcb_at k)))\<rparr>))"
proof -
  obtain kb where kb: "buf_clear s = s\<lparr>key_buf := kb, key_buf_idx := 0\<rparr>" using buf_clear_shape by blast
  let ?a = "pcb_at n" and ?b = "pcb_at k" and ?i = "now_term_id s"
  have r: "?i < 3" "0 \<le> k" "k < 12" "0 \<le> n" "n < 12" "k \<noteq> n" "k div 4 = int ?i" "pcb_of_term ?i s = ?a"
      "process_number (pcbs s ?a) = n" "parent_process_number (pcbs s ?a) = k"
    using assms unfolding runs_under_def by blast+
  define s1 where "s1 = s\<lparr>key_buf := kb, key_buf_idx := 0\<rparr>"
  define s3 where "s3 = s\<lparr>key_buf := kb, key_buf_idx := 0,
       terms := (terms s)(?i := (terms s ?i)\<lparr>cur_pcb_id := k mod 4\<rparr>),
       PCB_mask := (PCB_mask s)(nat n div 4 := (PCB_mask s (nat n div 4))(nat n mod 4 := 0))\<rparr>"
  have pn: "unat (word_of_int n :: byte) = nat n" using r(4,5) by (simp add: unsigned_of_int take_bit_int_eq_self)
  have rem: "c_rem k 4 = k mod 4" using r(2) by (cases "k = 0") (simp_all add: c_rem_def sgn_if)
  have a: "pcb_of_term ?i s1 = ?a" "now_term_id s1 = ?i" "pcbs s1 = pcbs s" using r(8) by (simp_all add: s1_def pcb_of_term_def)
  have s3: "set_mask (nat n div 4) (nat n mod 4) 0 (update_term ?i (\<lambda>t. t\<lparr>cur_pcb_id := k mod 4\<rparr>) s1) = s3"
    by (simp add: s3_def s1_def set_mask_def update_term_def)
  have "pcb_of_term (now_term_id s3) s3 = ?b"
    by (rule pcb_of_term_at) (use r(2,3,7) in \<open>simp_all add: s3_def\<close>)
  moreover have "?a \<noteq> ?b" using pcb_at_inj [of n k] r(2-6) by auto
  ultimately have loop: "for_range 0 8 (halt_close_fd ?a) s3
      = s3\<lparr>pcbs := (pcbs s)(?a := ended_fds 8 (pcbs s ?a), ?b := parent_fds 8 (pcbs s ?a) (pcbs s ?b))\<rparr>"
    using halt_close_fds [of s3 ?b ?a 8] by (simp add: s3_def)
  have "halt lits fr status s = Some (halt_to_parent status ?a (for_range 0 8 (halt_close_fd ?a) s3))"
    using r \<open>?a \<noteq> ?b\<close>
    by (simp add: halt_def Let_def kb s1_def [symmetric] a rem pn s3 MAX_PCB_MASK_LEN_def MAX_FILE_NUM_def loop ended_fds_def)
  then show thesis unfolding loop by (intro that [of kb]) (simp add: s3_def)
qed

text \<open>C5: \<open>halt\<close> in a process started by another resumes that one where it called \<open>execute\<close>, with
  the status (and bit 8 after an exception) as the result: the process's slot is free again, the
  parent is the terminal's process, its 4 MB frame is behind the user page and its kernel stack in
  the TSS. Every descriptor of the process is closed; but so is, from 2 on, every descriptor of the
  parent with the number of one of the process's, since \<open>close\<close> already acts on the parent.\<close>

theorem halt_returns:
  assumes "runs_under k n s" and "p = pcbs s (pcb_at n)"
  shows "\<exists>s'. halt lits fr status s = Some (To_Parent (if interrupt_halt_flag s \<noteq> 0 then uint status OR 0x100 else uint status)
      (parent_kbp p) (parent_ksp p) s')
    \<and> used_slots s' = used_slots s - {(nat n div 4, nat n mod 4)}
    \<and> pcb_of_term (now_term_id s') s' = pcb_at k \<and> interrupt_halt_flag s' = 0 \<and> tss_esp0 s' = pcb_at k + 0x2000 - 4
    \<and> (\<forall>v. v div 0x400000 = 32 \<longrightarrow> translate s' v
        = Some \<lparr>phys = 0x800000 + word_of_int k * 0x400000 + v mod 0x400000, user = True, writable = True\<rparr>)
    \<and> (\<forall>fd < 8. flags (fds (pcbs s' (pcb_at n)) fd) = 0)
    \<and> (\<forall>fd < 8. flags (fds (pcbs s' (pcb_at k)) fd)
        = (if 2 \<le> fd \<and> flags (fds p fd) = 1 then 0 else flags (fds (pcbs s (pcb_at k)) fd)))"
proof -
  let ?a = "pcb_at n" and ?b = "pcb_at k" and ?i = "now_term_id s"
  have r: "?i < 3" "0 \<le> k" "k < 12" "0 \<le> n" "n < 12" "k \<noteq> n" "k div 4 = int ?i" "process_number (pcbs s ?b) = k"
      "parent_process_number p = k" "\<forall>fd < 8. flags (fds p fd) \<in> {0, 1}"
    using assms unfolding runs_under_def by blast+
  obtain kb where halt: "halt lits fr status s = Some (halt_to_parent status ?a
    (s\<lparr>key_buf := kb, key_buf_idx := 0, terms := (terms s)(?i := (terms s ?i)\<lparr>cur_pcb_id := k mod 4\<rparr>),
       PCB_mask := (PCB_mask s)(nat n div 4 := (PCB_mask s (nat n div 4))(nat n mod 4 := 0)),
       pcbs := (pcbs s)(?a := ended_fds 8 (pcbs s ?a), ?b := parent_fds 8 (pcbs s ?a) (pcbs s ?b))\<rparr>))"
    by (rule halt_eq [OF assms(1)])
  define s4 where "s4 = s\<lparr>key_buf := kb, key_buf_idx := 0, terms := (terms s)(?i := (terms s ?i)\<lparr>cur_pcb_id := k mod 4\<rparr>),
       PCB_mask := (PCB_mask s)(nat n div 4 := (PCB_mask s (nat n div 4))(nat n mod 4 := 0)),
       pcbs := (pcbs s)(?a := ended_fds 8 p, ?b := parent_fds 8 p (pcbs s ?b))\<rparr>"
  define s' where "s' = (pcb_mapping 0x8000000 (0x800000 + word_of_int k * 0x400000) s4)
      \<lparr>tss_esp0 := 0x800000 - word_of_int k * 0x2000 - 4, interrupt_halt_flag := 0\<rparr>"
  have ab: "?a \<noteq> ?b" using pcb_at_inj [of n k] r(2-6) by auto
  have pa: "parent_process_number (pcbs s4 ?a) = k" "process_number (pcbs s4 ?b) = k" "parent_kbp (pcbs s4 ?a) = parent_kbp p"
      "parent_ksp (pcbs s4 ?a) = parent_ksp p" "interrupt_halt_flag s4 = interrupt_halt_flag s"
    using r(8,9) ab by (simp_all add: s4_def ended_fds_def parent_fds_def)
  have run: "halt lits fr status s = Some (To_Parent (if interrupt_halt_flag s \<noteq> 0 then uint status OR 0x100 else uint status)
      (parent_kbp p) (parent_ksp p) s')"
    using halt pa unfolding assms(2) [symmetric] s4_def [symmetric]
    by (simp add: halt_to_parent_def Let_def pcb_at_def s'_def)
  have s': "pcbs s' = pcbs s4" "PCB_mask s' = PCB_mask s4" "terms s' = terms s4" "now_term_id s' = ?i"
      "interrupt_halt_flag s' = 0" "tss_esp0 s' = ?b + 0x2000 - 4"
    by (simp_all add: s'_def pcb_at_def algebra_simps) (simp add: s4_def)
  have "used_slots s' = used_slots s - {(nat n div 4, nat n mod 4)}"
    by (auto simp: used_slots_def s'(2) s4_def split: if_splits)
  moreover have "pcb_of_term (now_term_id s') s' = ?b"
    unfolding s'(4) by (rule pcb_of_term_at) (use r(2,3,7) in \<open>simp_all add: s'(3) s4_def\<close>)
  moreover have "translate s' = translate (pcb_mapping 0x8000000 (0x800000 + word_of_int k * 0x400000) s4)"
    unfolding s'_def by (rule translate_cong) simp_all
  then have "\<forall>v. v div 0x400000 = 32 \<longrightarrow> translate s' v
      = Some \<lparr>phys = 0x800000 + word_of_int k * 0x400000 + v mod 0x400000, user = True, writable = True\<rparr>"
    by (intro allI impI) (simp only: user_page_translate)
  moreover have "\<forall>fd < 8. flags (fds (pcbs s' ?a) fd) = 0"
    using ab r(10) by (auto simp: s'(1) s4_def ended_fds_def closed_fd_def)
  moreover have "\<forall>fd < 8. flags (fds (pcbs s' ?b) fd)
      = (if 2 \<le> fd \<and> flags (fds p fd) = 1 then 0 else flags (fds (pcbs s ?b) fd))"
    by (simp add: s'(1) s4_def parent_fds_def closed_fd_def)
  ultimately show ?thesis using run s'(5,6) by blast
qed

text \<open>A program (process 1) started by the first terminal's shell (process 0), both with descriptor 2 in use.\<close>

definition child_pcb :: pcb where
  "child_pcb = std_pcb\<lparr>process_number := 1, parent_process_number := 0, parent_kbp := 0x7FDF80, parent_ksp := 0x7FDF00,
     fds := (fds std_pcb)(2 := \<lparr>optable = file_fop, inode = 0, file_position = 0, flags = 1\<rparr>)\<rparr>"

definition child_running :: fs_state where
  "child_running = (shell_boot (\<lambda>_. 0))\<lparr>now_term_id := 0, terms := (\<lambda>i. no_term\<lparr>cur_pcb_id := if i = 0 then 1 else -1\<rparr>),
     pcbs := (\<lambda>_. std_pcb\<lparr>fds := (fds std_pcb)(2 := \<lparr>optable = rtc_fop, inode = 0, file_position = 0, flags = 1\<rparr>)\<rparr>)(pcb_at 1 := child_pcb)\<rparr>"

lemma child_runs: "runs_under 0 1 child_running"
proof -
  have "pcb_at 0 \<noteq> pcb_at 1" using pcb_at_inj [of 0 1] by auto
  moreover have "pcb_of_term 0 child_running = pcb_at 1"
    by (rule pcb_of_term_at) (simp_all add: child_running_def)
  ultimately show ?thesis
    by (simp add: runs_under_def child_running_def) (simp add: child_pcb_def std_pcb_def no_pcb_def)
qed

theorem halt_returns_witness:
  "\<exists>s'. halt (\<lambda>_. 0) example_frame 0 child_running = Some (To_Parent 0 0x7FDF80 0x7FDF00 s')
    \<and> flags (fds (pcbs child_running (pcb_at 0)) 2) = 1 \<and> flags (fds (pcbs s' (pcb_at 0)) 2) = 0"
proof -
  have "pcb_at 0 \<noteq> pcb_at 1" using pcb_at_inj [of 0 1] by auto
  then have "pcbs child_running (pcb_at 1) = child_pcb" "flags (fds (pcbs child_running (pcb_at 0)) 2) = 1"
      "interrupt_halt_flag child_running = 0"
    by (simp_all add: child_running_def std_pcb_def) (simp add: shell_boot_def fs_boot_def proc_boot_def kbd_boot_def
        console_boot_def paging_boot_def pic_boot_def pic_state.defs paging_state.defs console_state.defs
        kbd_state.defs proc_state.defs fs_state.defs)
  with halt_returns [OF child_runs refl, of "\<lambda>_. 0" example_frame 0] show ?thesis
    by (auto simp: child_pcb_def)
qed

end
