(* ===== verification/Descriptors.thy ===== *)
theory Descriptors
  imports Halt Keyboard
begin

text \<open>
  The descriptor tables over the life of the system: whatever calls are made from the start on, a
  process that holds a slot has its number, the terminal's two standard descriptors, and no flag but
  0 and 1 in its control block. \<open>tables_step\<close> are the operations that touch slots and tables, and
  anything that leaves both alone (\<open>same_tables\<close>), as \<open>read\<close>, \<open>write\<close>, \<open>getargs\<close> and \<open>vidmap\<close> are shown
  to do. The tables of slots that are not in use are left over from earlier processes, or zero.
\<close>

section \<open>What printing leaves alone\<close>

definition tables :: "'a proc_state_scheme \<Rightarrow> (addr \<Rightarrow> pcb) \<times> (nat \<Rightarrow> nat \<Rightarrow> int)" where
  "tables s = (pcbs s, PCB_mask s)"

lemma tables_simps [simp]:
  "tables (s\<lparr>mem := m\<rparr>) = tables s" "tables (poke a b s) = tables s" "tables (update_term i f s) = tables s"
  "tables (sti s) = tables s" "tables (s\<lparr>terms := ts\<rparr>) = tables s"
  by (simp_all add: tables_def poke_def update_term_def sti_def)

lemma tables_putc [simp]: "tables (putc c s) = tables s"
proof -
  have "console_only s (putc c s)" by simp
  note p = this [unfolded console_only_def]
  have "pcbs (putc c s) = pcbs s" "PCB_mask (putc c s) = PCB_mask s"
    using arg_cong [OF p, of pcbs] arg_cong [OF p, of PCB_mask] by simp_all
  then show ?thesis by (simp add: tables_def)
qed

lemma tables_scroll [simp]: "tables (multi_scroll_up s) = tables s"
  unfolding multi_scroll_up_def Let_def move_cell_def blank_cell_def
  by (rule for_range_keeps, (rule for_range_keeps)?) simp_all

lemma tables_multi_cursor [simp]: "tables (multi_set_screen_cursor x y s) = tables s"
proof (induction x y s rule: multi_set_screen_cursor.induct)
  case (1 x y s)
  show ?case by (subst multi_set_screen_cursor.simps) (simp add: Let_def 1)
qed

lemma tables_multi_putc [simp]: "tables (multi_putc c s) = tables s"
  by (simp add: multi_putc_def multi_enter_def Let_def)

text \<open>What the routine that writes a character and writes to memory leave alone, \<open>printf\<close> leaves alone.\<close>

definition unchanged :: "('a machine_scheme \<Rightarrow> 'b) \<Rightarrow> (byte \<Rightarrow> 'a machine_scheme \<Rightarrow> 'a machine_scheme) \<Rightarrow> bool" where
  "unchanged G put \<longleftrightarrow> (\<forall>c t. G (put c t) = G t) \<and> (\<forall>m t. G (t\<lparr>mem := m\<rparr>) = G t)"

lemma puts_loop_keeps:
  assumes "puts_loop put a i s = Some r"
  shows "unchanged G put \<Longrightarrow> G (fst r) = G s"
proof (induction put a i s r rule: puts_loop.raw_induct)
  case (1 f put a i s r)
  show ?case using 1(2) 1(1) [of put a "i + 1" "put (mem s (a + i)) s" r] 1(3)
    by (auto simp: unchanged_def split: if_splits)
qed (rule assms)

lemma conv_keeps:
  assumes put: "unchanged G put"
  shows "conv_hex put conv alternate v s = Some s' \<Longrightarrow> G s' = G s"
    "conv_unsigned put conv v s = Some s' \<Longrightarrow> G s' = G s"
    "conv_signed put conv v s = Some s' \<Longrightarrow> G s' = G s"
  using put by (auto simp: conv_hex_def conv_unsigned_def conv_signed_def bind_eq_Some_conv unchanged_def
      dest!: puts_loop_keeps [OF _ put] split: if_splits)

lemma format_char_switch_keeps:
  assumes "format_char_switch put conv alternate buf args s = Some r"
  shows "unchanged G put \<Longrightarrow> G (snd (snd r)) = G s"
proof (induction put conv alternate buf args s r rule: format_char_switch.raw_induct)
  case (1 f put conv alternate buf args s r)
  note keeps = conv_keeps [OF 1(3)] puts_loop_keeps [OF _ 1(3)]
  have "\<forall>c t. G (put c t) = G t" using 1(3) by (simp add: unchanged_def)
  then show ?case using 1(2) 1(1) [of put conv True "buf + 1" args s r] 1(3)
    by (auto simp: Let_def bind_eq_Some_conv dest: keeps split: if_splits)
qed (rule assms)

lemma format_loop_keeps:
  assumes "format_loop put conv buf args s = Some r"
  shows "unchanged G put \<Longrightarrow> G (snd r) = G s"
proof (induction put conv buf args s r rule: format_loop.raw_induct)
  case (1 f put conv buf args s r)
  note keeps = format_char_switch_keeps [OF _ 1(3)]
  have "\<forall>c t. G (put c t) = G t" using 1(3) by (simp add: unchanged_def)
  then show ?case using 1(2) 1(1) 1(3)
    by (cases r) (fastforce simp: bind_eq_Some_conv dest: keeps split: if_splits)
qed (rule assms)

lemma printf_tables:
  "printf conv format args s = Some (s', n) \<Longrightarrow> tables s' = tables s"
  "multi_printf conv format args s = Some (s', n) \<Longrightarrow> tables s' = tables s"
  using format_loop_keeps [where G = tables and s = s]
  by (auto simp: printf_def multi_printf_def bind_eq_Some_conv unchanged_def)

section \<open>The tables of the processes in the slots\<close>

text \<open>The block of slot \<open>i\<close> of terminal \<open>t\<close>, and what holds of the blocks of all slots in use.\<close>

definition slot_pcb :: "nat \<Rightarrow> nat \<Rightarrow> addr" where
  "slot_pcb t i = pcb_at (int (i + 4 * t))"

definition live :: "'a proc_state_scheme \<Rightarrow> bool" where
  "live s \<longleftrightarrow> (\<forall>t i. (t, i) \<in> used_slots s \<longrightarrow> process_number (pcbs s (slot_pcb t i)) = int (i + 4 * t)
     \<and> fd_inv (pcbs s (slot_pcb t i)))"

definition args_ok :: "'a proc_state_scheme \<Rightarrow> bool" where
  "args_ok s \<longleftrightarrow> (\<forall>a. length (argbuf (pcbs s a)) = 100)"

lemma slot_pcb_inj:
  assumes "(t, i) \<in> used_slots s" and "t' < 3" and "i' < 4" and "slot_pcb t i = slot_pcb t' i'"
  shows "t' = t \<and> i' = i"
proof -
  have "t < 3" "i < 4" using assms(1) by (simp_all add: used_slots_def)
  then have "i + 4 * t = i' + 4 * t'"
    using pcb_at_inj [OF _ _ _ _ assms(4) [unfolded slot_pcb_def]] assms(2,3) by simp
  moreover have "(i + 4 * t) div 4 = t" "(i' + 4 * t') div 4 = t'" using \<open>i < 4\<close> assms(3) by simp_all
  ultimately show ?thesis by simp
qed

text \<open>Blocks that keep their number and their first two descriptors, and set no new kind of flag.\<close>

definition keeps_table :: "pcb \<Rightarrow> pcb \<Rightarrow> bool" where
  "keeps_table p p' \<longleftrightarrow> process_number p' = process_number p \<and> length (argbuf p') = length (argbuf p)
     \<and> (\<forall>fd < 2. flags (fds p' fd) = flags (fds p fd) \<and> optable (fds p' fd) = optable (fds p fd))
     \<and> (\<forall>fd < 8. flags (fds p' fd) = flags (fds p fd) \<or> flags (fds p' fd) \<in> {0, 1})"

lemma keeps_table_refl [simp]: "keeps_table p p"
  by (simp add: keeps_table_def)

lemma keeps_table_trans: "keeps_table p q \<Longrightarrow> keeps_table q r \<Longrightarrow> keeps_table p r"
  unfolding keeps_table_def by (metis (no_types, lifting))

lemma keeps_table_inv: "keeps_table p p' \<Longrightarrow> fd_inv p \<Longrightarrow> fd_inv p'"
  unfolding keeps_table_def fd_inv_def by (metis zero_less_numeral one_less_numeral_iff semiring_norm(76))

lemma keeps_table_number: "keeps_table p p' \<Longrightarrow> process_number p' = process_number p"
  by (simp add: keeps_table_def)

lemma live_keeps:
  assumes "live s" and "used_slots s' \<subseteq> used_slots s"
    and "\<And>t i. (t, i) \<in> used_slots s' \<Longrightarrow> keeps_table (pcbs s (slot_pcb t i)) (pcbs s' (slot_pcb t i))"
  shows "live s'"
  unfolding live_def
proof (intro allI impI)
  fix t i assume u: "(t, i) \<in> used_slots s'"
  then have "process_number (pcbs s (slot_pcb t i)) = int (i + 4 * t)" "fd_inv (pcbs s (slot_pcb t i))"
    using assms(1,2) by (auto simp: live_def)
  then show "process_number (pcbs s' (slot_pcb t i)) = int (i + 4 * t) \<and> fd_inv (pcbs s' (slot_pcb t i))"
    using assms(3) [OF u] keeps_table_inv [OF assms(3) [OF u]] keeps_table_number by metis
qed

section \<open>The operations\<close>

lemma update_fd_block [simp]:
  "process_number (update_fd k f p) = process_number p" "argbuf (update_fd k f p) = argbuf p"
  "parent_process_number (update_fd k f p) = parent_process_number p"
  by (simp_all add: update_fd_def)

lemma sys_open_block:
  assumes "sys_open fr f s = Some (r, s')"
  shows "process_number (pcbs s' b) = process_number (pcbs s b) \<and> argbuf (pcbs s' b) = argbuf (pcbs s b)
    \<and> used_slots s' = used_slots s"
  using assms
proof (cases rule: sys_open_cases)
  case (opened m fd t ino)
  then show ?thesis
    by (auto simp: open_as_def rtc_open_def dir_open_def file_open_def Let_def fd_take_def used_slots_def split: if_splits)
qed (simp add: used_slots_def)

lemma sys_open_keeps_table:
  assumes "sys_open fr f s = Some (r, s')" and std: "fd_used b s 0" "fd_used b s 1"
  shows "keeps_table (pcbs s b) (pcbs s' b)"
proof (cases "r = -1")
  case True
  then show ?thesis using sys_open_frame(4) [OF assms(1)] by simp
next
  case False
  let ?a = "pcb_of_term (now_term_id s) s"
  obtain k where k: "\<not> fd_used ?a s k" "flags (fds (pcbs s' ?a) k) = 1"
      "\<And>b j. b \<noteq> ?a \<or> j \<noteq> k \<Longrightarrow> optable (fds (pcbs s' b) j) = optable (fds (pcbs s b) j)
            \<and> flags (fds (pcbs s' b) j) = flags (fds (pcbs s b) j)"
    using sys_open_frame(3) [OF assms(1)] False by blast
  have "b \<noteq> ?a \<or> j \<noteq> k" if "j < 2" for j
    using that k(1) std by (auto simp: less_2_cases_iff)
  moreover have "flags (fds (pcbs s' b) j) = flags (fds (pcbs s b) j) \<or> flags (fds (pcbs s' b) j) = 1" for j
    using k(2) k(3) [of b j] by (cases "b = ?a \<and> j = k") auto
  ultimately show ?thesis using k(3) sys_open_block [OF assms(1)] by (auto simp: keeps_table_def)
qed

lemma sys_close_keeps_table:
  "keeps_table (pcbs s a) (pcbs (snd (sys_close fd s)) a)" "used_slots (snd (sys_close fd s)) = used_slots s"
  "terms (snd (sys_close fd s)) = terms s" "now_term_id (snd (sys_close fd s)) = now_term_id s"
  "parent_process_number (pcbs (snd (sys_close fd s)) a) = parent_process_number (pcbs s a)"
  by (auto simp: sys_close_eq fd_release_def keeps_table_def used_slots_def)

text \<open>Closing the ending process's descriptors touches no other block but the parent's, from 2 on.\<close>

lemma halt_close_fd_keeps:
  "b \<noteq> a \<Longrightarrow> keeps_table (pcbs s b) (pcbs (halt_close_fd a i s) b)"
  "length (argbuf (pcbs (halt_close_fd a i s) b)) = length (argbuf (pcbs s b))"
  "parent_process_number (pcbs (halt_close_fd a i s) b) = parent_process_number (pcbs s b)"
  "used_slots (halt_close_fd a i s) = used_slots s"
proof -
  let ?s1 = "update_pcb a (update_fd i (\<lambda>f. f\<lparr>flags := 0\<rparr>)) s"
  let ?s2 = "if flags (fds (pcbs s a) i) = 1 then snd (sys_close (int i) ?s1) else s"
  have h: "halt_close_fd a i s = update_pcb a (update_fd i (\<lambda>f. f\<lparr>optable := error_fop\<rparr>)) ?s2"
    by (simp add: halt_close_fd_def Let_def)
  have u: "used_slots (update_pcb a f t) = used_slots t" for f and t :: "'a fs_state_scheme" by (simp add: used_slots_def)
  show "b \<noteq> a \<Longrightarrow> keeps_table (pcbs s b) (pcbs (halt_close_fd a i s) b)"
    using sys_close_keeps_table(1) [of ?s1 b "int i"] by (simp add: h)
  show "length (argbuf (pcbs (halt_close_fd a i s) b)) = length (argbuf (pcbs s b))"
    using sys_close_keeps_table(1) [of ?s1 b "int i"] by (auto simp: h keeps_table_def split: if_splits)
  show "parent_process_number (pcbs (halt_close_fd a i s) b) = parent_process_number (pcbs s b)"
    by (simp add: h sys_close_keeps_table)
  show "used_slots (halt_close_fd a i s) = used_slots s"
    by (simp add: h u sys_close_keeps_table)
qed

lemma halt_close_loop_keeps:
  "b \<noteq> a \<Longrightarrow> keeps_table (pcbs s b) (pcbs (for_range 0 n (halt_close_fd a) s) b)"
  "length (argbuf (pcbs (for_range 0 n (halt_close_fd a) s) b)) = length (argbuf (pcbs s b))"
  "parent_process_number (pcbs (for_range 0 n (halt_close_fd a) s) b) = parent_process_number (pcbs s b)"
  "used_slots (for_range 0 n (halt_close_fd a) s) = used_slots s"
proof (induction n)
  case (Suc n)
  { case 1 then show ?case
      using keeps_table_trans [OF Suc.IH(1) halt_close_fd_keeps(1)] by (simp add: for_range_Suc) }
  { case 2 then show ?case using Suc.IH(2) by (simp add: for_range_Suc halt_close_fd_keeps) }
  { case 3 then show ?case using Suc.IH(3) by (simp add: for_range_Suc halt_close_fd_keeps) }
  { case 4 then show ?case using Suc.IH(4) by (simp add: for_range_Suc halt_close_fd_keeps) }
qed simp_all

text \<open>\<open>halt\<close> up to where it looks for the parent: the block of the ending process no longer counts.\<close>

definition halted :: "'a fs_state_scheme \<Rightarrow> 'a fs_state_scheme" where
  "halted s =
     (let s = buf_clear s; cur_pcb = pcb_of_term (now_term_id s) s;
          s = update_term (now_term_id s) (\<lambda>t. t\<lparr>cur_pcb_id :=
                c_rem (parent_process_number (pcbs s cur_pcb)) (int MAX_PCB_MASK_LEN)\<rparr>) s;
          pn = unat (word_of_int (process_number (pcbs s cur_pcb)) :: byte);
          s = set_mask (pn div MAX_PCB_MASK_LEN) (pn mod MAX_PCB_MASK_LEN) 0 s
      in for_range 0 MAX_FILE_NUM (halt_close_fd cur_pcb) s)"

lemma halt_halted:
  "halt lits fr status s =
     (let cur_pcb = pcb_of_term (now_term_id s) s; s1 = halted s
      in if parent_process_number (pcbs s cur_pcb) = -1 then do {
           (s2, n) \<leftarrow> printf (exec_conv_at fr) (lits ''Halting the last shell is not allowed!\<newline>'') (exec_args_at fr) s1;
           r \<leftarrow> execute lits fr (lits ''shell'') s2;
           case r of Returns _ s3 \<Rightarrow> Some (halt_to_parent status cur_pcb s3) | _ \<Rightarrow> Some r
         }
         else Some (halt_to_parent status cur_pcb s1))"
proof -
  obtain kb where kb: "buf_clear s = s\<lparr>key_buf := kb, key_buf_idx := 0\<rparr>" using buf_clear_shape by blast
  have a: "pcb_of_term (now_term_id s) (buf_clear s) = pcb_of_term (now_term_id s) s" "now_term_id (buf_clear s) = now_term_id s"
      "pcbs (buf_clear s) = pcbs s"
    by (simp_all add: kb pcb_of_term_def)
  have m: "pcbs (set_mask t i v x) = pcbs x" "pcbs (update_term t f x) = pcbs x"
    for t i v f and x :: "'a fs_state_scheme" by (simp_all add: set_mask_def update_term_def)
  show ?thesis
    unfolding halt_def halted_def Let_def a halt_close_loop_keeps(3) m ..
qed

lemma halted_keeps:
  assumes "live s" and "args_ok s"
  shows "live (halted s)" "args_ok (halted s)"
proof -
  obtain kb where kb: "buf_clear s = s\<lparr>key_buf := kb, key_buf_idx := 0\<rparr>" using buf_clear_shape by blast
  let ?a = "pcb_of_term (now_term_id s) s"
  let ?pn = "unat (word_of_int (process_number (pcbs s ?a)) :: byte)"
  define s1 where "s1 = set_mask (?pn div 4) (?pn mod 4) 0 (update_term (now_term_id s)
    (\<lambda>t. t\<lparr>cur_pcb_id := c_rem (parent_process_number (pcbs s ?a)) 4\<rparr>) (buf_clear s))"
  have a: "pcb_of_term (now_term_id s) (buf_clear s) = ?a" "now_term_id (buf_clear s) = now_term_id s" "pcbs (buf_clear s) = pcbs s"
      "PCB_mask (buf_clear s) = PCB_mask s"
    by (simp_all add: kb pcb_of_term_def)
  have h: "halted s = for_range 0 8 (halt_close_fd ?a) s1"
    by (simp add: halted_def Let_def a s1_def MAX_PCB_MASK_LEN_def MAX_FILE_NUM_def)
  have s1: "pcbs s1 = pcbs s" "used_slots s1 = used_slots s - {(?pn div 4, ?pn mod 4)}"
    by (auto simp: s1_def set_mask_def a used_slots_def split: if_splits)
  show "args_ok (halted s)" using assms(2) by (simp add: args_ok_def h halt_close_loop_keeps s1)
  have used: "used_slots (halted s) = used_slots s1" by (simp add: h halt_close_loop_keeps)
  show "live (halted s)"
  proof (rule live_keeps [OF assms(1)])
    show "used_slots (halted s) \<subseteq> used_slots s" by (auto simp: used s1)
    fix t i assume u: "(t, i) \<in> used_slots (halted s)"
    have old: "(t, i) \<in> used_slots s" "(t, i) \<noteq> (?pn div 4, ?pn mod 4)" using u by (auto simp: used s1)
    have "slot_pcb t i \<noteq> ?a"
    proof
      assume e: "slot_pcb t i = ?a"
      have b: "t < 3" "i < 4" using old(1) by (simp_all add: used_slots_def)
      have "process_number (pcbs s ?a) = int (i + 4 * t)"
        using assms(1) old(1) unfolding live_def e [symmetric] by blast
      then have "?pn = nat (int (i + 4 * t))"
        using b by (simp only: unsigned_of_int) (simp add: take_bit_int_eq_self)
      then have "?pn = i + 4 * t" by (simp only: nat_int)
      then show False using old(2) b by simp
    qed
    then show "keeps_table (pcbs s (slot_pcb t i)) (pcbs (halted s) (slot_pcb t i))"
      using halt_close_loop_keeps(1) [of "slot_pcb t i" ?a s1 8] by (simp add: h s1)
  qed
qed

lemma execute_keeps:
  assumes "execute lits fr command s = Some (To_User e s')" and "live s" and "args_ok s"
  shows "live s'" "args_ok s'"
proof -
  obtain i n a where x: "i < 4" "n = int (i + 4 * cur_term_id s)" "a = pcb_at n" "(cur_term_id s, i) \<notin> used_slots s"
      "used_slots s' = insert (cur_term_id s, i) (used_slots s)" "process_number (pcbs s' a) = n" "fd_inv (pcbs s' a)"
      "argbuf (pcbs s' a) = load (mem s') (fileargs_at fr) 100" "\<forall>b. b \<noteq> a \<longrightarrow> pcbs s' b = pcbs s b"
    using execute_process [OF assms(1) assms(3) [unfolded args_ok_def]] by blast
  have c: "cur_term_id s < 3" using x(5) by (auto simp: used_slots_def)
  have a: "a = slot_pcb (cur_term_id s) i" by (simp add: x(2,3) slot_pcb_def)
  show "args_ok s'" using assms(3) x(8,9) by (metis args_ok_def length_load)
  show "live s'"
    unfolding live_def
  proof (intro allI impI)
    fix t j assume u: "(t, j) \<in> used_slots s'"
    show "process_number (pcbs s' (slot_pcb t j)) = int (j + 4 * t) \<and> fd_inv (pcbs s' (slot_pcb t j))"
    proof (cases "(t, j) = (cur_term_id s, i)")
      case True
      then show ?thesis using x(2,6,7) a by simp
    next
      case False
      then have old: "(t, j) \<in> used_slots s" using u x(5) by blast
      have "slot_pcb t j \<noteq> a" using slot_pcb_inj [OF old c x(1)] False a by auto
      then show ?thesis using x(9) old assms(2) by (simp add: live_def)
    qed
  qed
qed

section \<open>From the start on\<close>

definition same_tables :: "'a proc_state_scheme \<Rightarrow> 'a proc_state_scheme \<Rightarrow> bool" where
  "same_tables s s' \<longleftrightarrow> PCB_mask s' = PCB_mask s \<and> (\<forall>a. process_number (pcbs s' a) = process_number (pcbs s a)
     \<and> length (argbuf (pcbs s' a)) = length (argbuf (pcbs s a))
     \<and> (\<forall>fd. flags (fds (pcbs s' a) fd) = flags (fds (pcbs s a) fd) \<and> optable (fds (pcbs s' a) fd) = optable (fds (pcbs s a) fd)))"

text \<open>
  The calls that touch slots and tables, by any process and in any order, and whatever else runs
  between them without touching either: programs, the other system calls, interrupts. \<open>execute\<close>
  and \<open>halt\<close> count when they enter a program or go back to one.
\<close>

inductive tables_step :: "'a fs_state_scheme \<Rightarrow> 'a fs_state_scheme \<Rightarrow> bool" where
  opens: "sys_open fr f s = Some (r, s') \<Longrightarrow> tables_step s s'"
| closes: "sys_close fd s = (r, s') \<Longrightarrow> tables_step s s'"
| enters: "execute lits fx command s = Some (To_User e s') \<Longrightarrow> tables_step s s'"
| halts: "halt lits fx status s = Some (To_Parent v frame_at stack_at s') \<Longrightarrow> parent_process_number (now_pcb s) \<noteq> -1
    \<Longrightarrow> tables_step s s'"
| restarts: "halt lits fx status s = Some (To_User e s') \<Longrightarrow> tables_step s s'"
| elsewhere: "same_tables s s' \<Longrightarrow> tables_step s s'"

text \<open>Reading, writing, \<open>getargs\<close> and \<open>vidmap\<close> are among what touches neither, if the interrupts that come while they wait are.\<close>

lemma same_tables_refl [simp]: "same_tables s s"
  by (simp add: same_tables_def)

lemma same_tables_trans: "same_tables s t \<Longrightarrow> same_tables t u \<Longrightarrow> same_tables s u"
  by (simp add: same_tables_def)

lemma tables_same: "tables s' = tables s \<Longrightarrow> same_tables s s'"
  by (simp add: tables_def same_tables_def)

lemma same_tables_update_pcb:
  assumes "\<And>p. process_number (g p) = process_number p \<and> argbuf (g p) = argbuf p
    \<and> (\<forall>fd. flags (fds (g p) fd) = flags (fds p fd) \<and> optable (fds (g p) fd) = optable (fds p fd))"
  shows "same_tables s (update_pcb a g s)"
  using assms by (simp add: same_tables_def)

lemma wait_while_same:
  fixes s :: "'a proc_state_scheme"
  assumes "\<forall>h \<in> set irqs. \<forall>s s'. h s = Some s' \<longrightarrow> same_tables s s'"
  shows "wait_while c irqs s = Some s' \<Longrightarrow> same_tables s s'"
  using assms
proof (induction irqs arbitrary: s)
  case (Cons h irqs)
  show ?case
  proof (cases "c s")
    case True
    then obtain t where t: "h s = Some t" "wait_while c irqs t = Some s'" using Cons.prems(1) by (auto simp: bind_eq_Some_conv)
    have "same_tables s t" using Cons.prems(2) t(1) by simp
    moreover have "same_tables t s'" using Cons.IH [OF t(2)] Cons.prems(2) by simp
    ultimately show ?thesis by (rule same_tables_trans)
  qed (use Cons.prems(1) in simp)
qed (simp split: if_splits)

lemma buf_clear_tables [simp]: "tables (buf_clear s) = tables s"
proof -
  obtain kb where "buf_clear s = s\<lparr>key_buf := kb, key_buf_idx := 0\<rparr>" using buf_clear_shape by blast
  then show ?thesis by (simp add: tables_def)
qed

lemma sys_write_same:
  assumes "sys_write fr fd buf n s = Some (r, s')"
  shows "same_tables s s'"
proof -
  have "same_tables s s'" if "call_write w fr k buf n s = Some (r, s')" for w k
  proof (cases w)
    case Term_Write
    with that show ?thesis
      by (auto simp: term_write_def Let_def bind_eq_Some_conv dest!: printf_tables intro!: tables_same
          split: if_splits prod.splits)
  next
    case Rtc_Write
    with that show ?thesis
      by (auto simp: rtc_write_def Let_def intro!: same_tables_update_pcb split: if_splits)
  qed (use that in simp_all)
  then show ?thesis using assms by (auto simp: sys_write_def split: if_splits)
qed

lemma sys_read_same:
  assumes "sys_read irqs fd buf n s = Some (r, s')"
    and irqs: "\<forall>h \<in> set irqs. \<forall>s s'. h s = Some s' \<longrightarrow> same_tables s s'"
  shows "same_tables s s'"
proof -
  have "same_tables s s'" if c: "call_read w irqs k buf n s = Some (r, s')" for w k
  proof (cases w)
    case Term_Read
    have sti: "same_tables s (sti s)" by (rule tables_same) simp
    show ?thesis
    proof (cases "buf = 0")
      case False
      then obtain t where w: "wait_while (\<lambda>s. enter_state (now_term s) = 0) irqs (sti s) = Some t"
        using c Term_Read by (cases "wait_while (\<lambda>s. enter_state (now_term s) = 0) irqs (sti s)") (simp_all add: term_read_def)
      then have "tables s' = tables t"
        using c Term_Read False
        by (cases "term_read_copy (key_buf t) buf n 0 (mem t)") (auto simp: term_read_def Let_def)
      note t = w this
      show ?thesis
        using same_tables_trans [OF sti same_tables_trans [OF wait_while_same [OF irqs t(1)] tables_same [OF t(2)]]] .
    qed (use c Term_Read sti in \<open>simp add: term_read_def\<close>)
  next
    case Rtc_Read
    let ?a = "pcb_of_term (now_term_id s) (sti s)"
    have 1: "same_tables s (update_pcb ?a (\<lambda>p. p\<lparr>rtc_counter := 1024 div rtc_freq p\<rparr>) (sti s))"
      by (rule same_tables_trans [OF tables_same same_tables_update_pcb]) simp_all
    have "wait_while (\<lambda>s. rtc_counter (pcbs s ?a) > 0) irqs
        (update_pcb ?a (\<lambda>p. p\<lparr>rtc_counter := 1024 div rtc_freq p\<rparr>) (sti s)) = Some s'"
      using c Rtc_Read by (auto simp: rtc_read_def Let_def bind_eq_Some_conv split: if_splits)
    from wait_while_same [OF irqs this] 1 show ?thesis by (rule same_tables_trans [rotated])
  next
    case Dir_Read
    with c show ?thesis
      by (auto simp: dir_read_def Let_def bind_eq_Some_conv tables_def intro!: tables_same split: if_splits)
  next
    case File_Read
    have "tables (snd (read_data ino off buf len s)) = tables s" for ino off len
      using read_data_frame [of ino off buf len s] by auto
    then have read: "same_tables s (update_pcb a (update_fd k (\<lambda>f. f\<lparr>file_position := file_position f + x\<rparr>)) (snd (read_data ino off buf len s)))"
      for a x ino off len
      by (rule same_tables_trans [OF tables_same same_tables_update_pcb]) (simp add: update_fd_def)
    have "snd (file_read k buf n s) = s'" using c File_Read by simp
    then show ?thesis by (auto simp: file_read_def Let_def case_prod_beta read split: if_splits)
  qed (use c in simp)
  then show ?thesis using assms(1) by (auto simp: sys_read_def split: if_splits)
qed

lemma getargs_same: "getargs buf n s = Some (r, s') \<Longrightarrow> same_tables s s'"
  by (auto simp: getargs_def Let_def intro!: tables_same for_range_keeps [where P = "\<lambda>t. tables t = tables s"] split: if_splits)

lemma vidmap_same: "same_tables s (snd (vidmap a s))"
  by (auto simp: vidmap_def syscall_video_mapping_def Let_def tables_def set_page_dir_def
      set_page_video_tab_def flush_def intro!: tables_same)

lemma same_tables_keeps:
  assumes "same_tables s s'" and "live s" and "args_ok s"
  shows "live s' \<and> args_ok s'"
proof
  have u: "used_slots s' = used_slots s" using assms(1) by (simp add: same_tables_def used_slots_def)
  have k: "keeps_table (pcbs s a) (pcbs s' a)" for a using assms(1) by (simp add: same_tables_def keeps_table_def)
  show "live s'" by (rule live_keeps [OF assms(2)]) (simp_all add: u k)
  show "args_ok s'" using assms(1,3) by (simp add: same_tables_def args_ok_def)
qed

lemma sys_open_keeps:
  assumes "sys_open fr f s = Some (r, s')" and "live s" and "args_ok s"
  shows "live s' \<and> args_ok s'"
proof
  have b: "used_slots s' = used_slots s" "argbuf (pcbs s' a) = argbuf (pcbs s a)" for a
    using sys_open_block [OF assms(1)] by blast+
  show "args_ok s'" using assms(3) b(2) by (simp add: args_ok_def)
  show "live s'"
  proof (rule live_keeps [OF assms(2)])
    show "used_slots s' \<subseteq> used_slots s" by (simp add: b)
    fix t i assume "(t, i) \<in> used_slots s'"
    then have "fd_inv (pcbs s (slot_pcb t i))" using assms(2) b(1) by (simp add: live_def)
    then show "keeps_table (pcbs s (slot_pcb t i)) (pcbs s' (slot_pcb t i))"
      by (intro sys_open_keeps_table [OF assms(1)]) (simp_all add: fd_inv_def fd_used_def)
  qed
qed

lemma sys_close_keeps:
  assumes "live s" and "args_ok s"
  shows "live (snd (sys_close fd s)) \<and> args_ok (snd (sys_close fd s))"
proof
  show "live (snd (sys_close fd s))"
    by (rule live_keeps [OF assms(1)]) (simp_all add: sys_close_keeps_table)
  show "args_ok (snd (sys_close fd s))"
    using assms(2) sys_close_keeps_table(1) by (metis args_ok_def keeps_table_def)
qed

lemma halt_keeps:
  assumes "live s" and "args_ok s"
  shows "halt lits fx status s = Some (To_User e s') \<Longrightarrow> live s' \<and> args_ok s'"
    and "halt lits fx status s = Some (To_Parent v frame_at stack_at s') \<Longrightarrow> parent_process_number (now_pcb s) \<noteq> -1
      \<Longrightarrow> live s' \<and> args_ok s'"
proof -
  note h = halted_keeps [OF assms]
  assume "halt lits fx status s = Some (To_User e s')"
  then obtain s2 n x where 2: "printf (exec_conv_at fx) (lits ''Halting the last shell is not allowed!\<newline>'') (exec_args_at fx) (halted s) = Some (s2, n)"
      "execute lits fx (lits ''shell'') s2 = Some x"
      "(case x of Returns _ s3 \<Rightarrow> Some (halt_to_parent status (pcb_of_term (now_term_id s) s) s3) | _ \<Rightarrow> Some x) = Some (To_User e s')"
    by (auto simp: halt_halted Let_def halt_to_parent_def bind_eq_Some_conv split: if_splits)
  have "x = To_User e s'" using 2(3) by (cases x) (simp_all add: halt_to_parent_def Let_def)
  note 2 = 2(1,2) [unfolded this]
  have "pcbs s2 = pcbs (halted s)" "used_slots s2 = used_slots (halted s)"
    using printf_tables(1) [OF 2(1)] by (simp_all add: used_slots_def tables_def)
  then show "live s' \<and> args_ok s'" using execute_keeps [OF 2(2)] h by (simp add: live_def args_ok_def)
next
  note h = halted_keeps [OF assms]
  assume p: "halt lits fx status s = Some (To_Parent v frame_at stack_at s')" "parent_process_number (now_pcb s) \<noteq> -1"
  then have "pcbs s' = pcbs (halted s)" "PCB_mask s' = PCB_mask (halted s)"
    by (auto simp: halt_halted Let_def halt_to_parent_def)
  then show "live s' \<and> args_ok s'" using h by (simp add: live_def args_ok_def used_slots_def)
qed

lemma tables_step_keeps:
  assumes "tables_step s s'" and "live s \<and> args_ok s"
  shows "live s' \<and> args_ok s'"
  using assms
proof (cases rule: tables_step.cases)
  case (opens fr f r)
  then show ?thesis using sys_open_keeps assms(2) by blast
next
  case (closes fd r)
  then show ?thesis using sys_close_keeps [of s fd] assms(2) by simp
next
  case (enters lits fx command e)
  then show ?thesis using execute_keeps assms(2) by blast
next
  case (halts lits fx status v frame_at stack_at)
  then show ?thesis using halt_keeps(2) assms(2) by blast
next
  case (restarts lits fx status e)
  then show ?thesis using halt_keeps(1) assms(2) by blast
next
  case elsewhere
  then show ?thesis using same_tables_keeps assms(2) by blast
qed

lemma tables_reachable:
  assumes "tables_step\<^sup>*\<^sup>* s0 s" and "used_slots s0 = {}" and "\<forall>a. length (argbuf (pcbs s0 a)) = 100"
  shows "live s \<and> args_ok s"
  using assms(1)
proof (induction rule: rtranclp_induct)
  case base
  show ?case using assms(2,3) by (simp add: live_def args_ok_def)
next
  case (step s s')
  show ?case by (rule tables_step_keeps [OF step.hyps(2) step.IH])
qed

text \<open>C21: From a start with no slot taken, and after any sequence of \<open>open\<close>, \<open>close\<close>, \<open>execute\<close> and
  \<open>halt\<close>, with anything between them that leaves slots and tables alone, the control block of every
  slot in use holds the slot's process number and a well-formed descriptor table: standard input
  and output are open and are the terminal's, and every flag is 0 or 1. So \<open>open\<close> in a process with
  a slot fails or returns the first free descriptor, never 0 or 1. An \<open>execute\<close> that fails after its
  slot is taken, which the code then never releases, is not among the steps.\<close>

theorem descriptor_invariant:
  assumes "used_slots s0 = {}" and "\<forall>a. length (argbuf (pcbs s0 a)) = 100" and "tables_step\<^sup>*\<^sup>* s0 s"
  shows "(t, i) \<in> used_slots s \<Longrightarrow> process_number (pcbs s (pcb_at (int (i + 4 * t)))) = int (i + 4 * t)
      \<and> fd_inv (pcbs s (pcb_at (int (i + 4 * t))))
      \<and> (pcb_of_term (now_term_id s) s = pcb_at (int (i + 4 * t)) \<longrightarrow> sys_open fr f s = Some (r, s')
        \<longrightarrow> r = -1 \<or> 2 \<le> r \<and> r < 8 \<and> flags (fds (now_pcb s) (nat r)) = 0 \<and> (\<forall>j < nat r. flags (fds (now_pcb s) j) \<noteq> 0))"
proof (intro conjI impI)
  assume u: "(t, i) \<in> used_slots s"
  have "live s" using tables_reachable [OF assms(3,1,2)] ..
  with u show "process_number (pcbs s (pcb_at (int (i + 4 * t)))) = int (i + 4 * t)"
    and inv: "fd_inv (pcbs s (pcb_at (int (i + 4 * t))))" by (simp_all add: live_def slot_pcb_def)
  assume "pcb_of_term (now_term_id s) s = pcb_at (int (i + 4 * t))" and o: "sys_open fr f s = Some (r, s')"
  then have std: "flags (fds (now_pcb s) 0) \<noteq> 0" "flags (fds (now_pcb s) 1) \<noteq> 0" using inv by (simp_all add: fd_inv_def)
  have two: "2 \<le> k" if "flags (fds (now_pcb s) k) = 0" for k
    using that std by (cases "k = 0"; cases "k = 1") auto
  show "r = -1 \<or> 2 \<le> r \<and> r < 8 \<and> flags (fds (now_pcb s) (nat r)) = 0 \<and> (\<forall>j < nat r. flags (fds (now_pcb s) j) \<noteq> 0)"
    using sys_open_frame(3) [OF o] two by (force simp: fd_used_def)
qed

text \<open>From boot, with the first terminal running: a program is executed, and then tries to close its
  standard output.\<close>

definition booted :: fs_state where
  "booted = (fs_boot exec_mem)\<lparr>now_term_id := 0\<rparr>"

lemma booted_simps [simp]:
  "mem booted = exec_mem" "cur_term_id booted = 0" "used_slots booted = {}" "pcbs booted a = no_pcb" "img_ok booted"
  by (simp_all add: booted_def used_slots_def img_ok_def)

theorem descriptor_invariant_witness:
  "\<exists>e s'. execute (\<lambda>_. 0) example_frame 0x300000 booted = Some (To_User e s')
    \<and> used_slots s' = {(0, 0)} \<and> fd_inv (pcbs (snd (sys_close 1 s')) (pcb_at 0)) \<and> \<not> fd_inv (pcbs booted (pcb_at 0))"
proof -
  obtain e s' where x: "execute (\<lambda>_. 0) example_frame 0x300000 booted = Some (To_User e s')"
    using exec_example_runs [of booted "\<lambda>_. 0"] by auto
  have args: "\<forall>a. length (argbuf (pcbs booted a)) = 100" by (simp add: no_pcb_def)
  obtain i where i: "i < 4" "\<forall>j < i. (0, j) \<in> used_slots booted" "used_slots s' = insert (0, i) (used_slots booted)"
    using execute_process [OF x args] by auto
  then have u: "used_slots s' = {(0, 0)}" by (cases "i = 0") auto
  have "tables_step\<^sup>*\<^sup>* booted (snd (sys_close 1 s'))"
    using tables_step.enters [OF x] tables_step.closes [of 1 s'] by (metis prod.collapse r_into_rtranclp rtranclp.rtrancl_into_rtrancl)
  from descriptor_invariant [OF _ args this, of 0 0] have "fd_inv (pcbs (snd (sys_close 1 s')) (pcb_at 0))"
    by (simp add: sys_close_keeps_table u)
  moreover have "\<not> fd_inv (pcbs booted (pcb_at 0))" by (simp add: fd_inv_def no_pcb_def)
  ultimately show ?thesis using x u by blast
qed

end
