(* ===== verification/Isolation.thy ===== *)
theory Isolation
  imports Process
begin

text \<open>
  Where the processes live: every process number has its own control block and kernel stack inside
  the kernel's page, and its own frame for user space above it. The two ways in which the code finds
  a control block, by the process number and by the stack pointer, agree.
\<close>

lemma pcb_from_nat:
  assumes "n < 12"
  shows "get_pcb_from_id (of_nat n) = of_nat (0x800000 - (n + 1) * 0x2000)"
proof -
  have "of_nat (0x800000 - (n + 1) * 0x2000) = (of_nat 0x800000 - of_nat ((n + 1) * 0x2000) :: u32)"
    by (rule of_nat_diff) (use assms in simp)
  then show ?thesis using get_pcb_from_id_eq [of n] assms by (simp add: add.commute)
qed

lemma unat_pcb_from_nat: "n < 12 \<Longrightarrow> unat (get_pcb_from_id (of_nat n)) = 0x800000 - (n + 1) * 0x2000"
  unfolding pcb_from_nat by (rule unat_of_nat_u32) simp

lemma run_between:
  assumes "x \<in> run a n" and "unat (a :: u32) + n \<le> 4294967296"
  shows "unat a \<le> unat x" "unat x < unat a + n"
proof -
  obtain i where i: "i < n" "x = a + of_nat i" using assms(1) by blast
  have "a + of_nat i = of_nat (unat a + i)" by simp
  then have "unat x = unat a + i" using i assms(2) unat_of_nat_u32 [of "unat a + i"] by simp
  then show "unat a \<le> unat x" "unat x < unat a + n" using i(1) by simp_all
qed

lemma in_run_between:
  assumes "unat a \<le> unat x" and "unat x < unat (a :: u32) + n"
  shows "x \<in> run a n"
proof (rule image_eqI)
  show "x = a + of_nat (unat x - unat a)" using assms(1) by (simp add: of_nat_diff)
  show "unat x - unat a \<in> {..<n}" using assms by (simp add: less_diff_conv2)
qed

lemma user_frame_nat:
  assumes "n < 12"
  shows "unat (0x800000 + of_nat n * 0x400000 + v mod 0x400000 :: u32) = 0x800000 + n * 0x400000 + unat v mod 0x400000"
proof -
  let ?r = "unat v mod 0x400000"
  have "?r < 4294967296" by (rule order_less_trans [of _ "0x400000"]) simp_all
  then have "v mod 0x400000 = of_nat ?r" by (simp add: word_unat_eq_iff unat_mod)
  then have e: "0x800000 + of_nat n * 0x400000 + v mod 0x400000 = of_nat (0x800000 + n * 0x400000 + ?r)" by simp
  have "?r < 0x400000" by simp
  then have "0x800000 + n * 0x400000 + ?r < 4294967296" using assms by linarith
  then show ?thesis unfolding e by (rule unat_of_nat_u32)
qed

text \<open>The mask on the stack pointer rounds it down to a multiple of 8 KB.\<close>

lemma mask_8k: "unat (x AND 0xFFFFE000 :: u32) = unat x div 8192 * 8192"
proof -
  have m: "(0xFFFFE000 :: u32) = NOT (mask 13)" by (simp add: mask_eq_exp_minus_1)
  have "x AND 0xFFFFE000 = push_bit 13 (drop_bit 13 x)"
    unfolding m by (rule bit_word_eqI) (auto simp: bit_simps)
  moreover have "unat x div 8192 * 8192 < 4294967296"
    by (rule order_le_less_trans [of _ "unat x"]) simp_all
  ultimately show ?thesis
    by (simp add: push_bit_eq_mult drop_bit_eq_div unat_word_ariths unat_div)
qed

lemma stack_pcb:
  assumes "n < 12" and "esp s \<in> run (get_pcb_from_id (of_nat n)) 0x2000"
  shows "get_cur_pcb s = get_pcb_from_id (of_nat n)"
proof -
  let ?a = "get_pcb_from_id (of_nat n)"
  have u: "unat ?a = (1023 - n) * 8192" using unat_pcb_from_nat [OF assms(1)] assms(1) by (simp add: algebra_simps)
  have "unat ?a \<le> unat (esp s)" "unat (esp s) < unat ?a + 8192"
    using run_between [OF assms(2)] u by simp_all
  then have "unat (esp s) div 8192 = 1023 - n" unfolding u by (intro div_nat_eqI) simp_all
  then show ?thesis using u by (simp add: get_cur_pcb_def word_unat_eq_iff mask_8k)
qed

section \<open>Properties\<close>

text \<open>C4: The processes do not share memory. The control block and the kernel stack of each of the
  twelve process numbers lie within the kernel's 4 MB page, clear of every other's; anywhere on its own
  kernel stack a process finds the control block that its number leads to. The frame that user
  addresses from 128 MB to 132 MB have under one process number lies between 8 MB and 56 MB, above the
  kernel's page, and no such address of one process is an address of another.\<close>

theorem processes_apart:
  assumes "n < 12" "k < 12" "n \<noteq> k"
    and "esp s \<in> run (get_pcb_from_id (of_nat n)) 0x2000" and "v div 0x400000 = 32" "w div 0x400000 = 32"
    and "translate (pcb_mapping 0x8000000 (0x800000 + of_nat n * 0x400000) s) v = Some x"
    and "translate (pcb_mapping 0x8000000 (0x800000 + of_nat k * 0x400000) t) w = Some y"
  shows "run (get_pcb_from_id (of_nat n)) 0x2000 \<subseteq> run 0x400000 0x400000
    \<and> run (get_pcb_from_id (of_nat n)) 0x2000 \<inter> run (get_pcb_from_id (of_nat k)) 0x2000 = {}
    \<and> get_cur_pcb s = get_pcb_from_id (of_nat n)
    \<and> 0x800000 \<le> unat (phys x) \<and> unat (phys x) < 0x800000 + 12 * 0x400000 \<and> phys x \<noteq> phys y"
proof (intro conjI)
  let ?a = "get_pcb_from_id (of_nat n)" and ?b = "get_pcb_from_id (of_nat k)"
  have u: "unat ?a = 0x800000 - (n + 1) * 0x2000" "unat ?b = 0x800000 - (k + 1) * 0x2000"
    by (rule unat_pcb_from_nat [OF assms(1)], rule unat_pcb_from_nat [OF assms(2)])
  show "run ?a 0x2000 \<subseteq> run 0x400000 0x400000"
  proof
    fix z assume "z \<in> run ?a 0x2000"
    from run_between [OF this] have "unat ?a \<le> unat z" "unat z < unat ?a + 0x2000" using u(1) by simp_all
    then show "z \<in> run 0x400000 0x400000" by (intro in_run_between) (use u(1) assms(1) in simp_all)
  qed
  have "n < k \<or> k < n" using assms(3) by linarith
  then show "run ?a 0x2000 \<inter> run ?b 0x2000 = {}"
    by (intro runs_apart) (use u assms(1,2) in auto)
  show "get_cur_pcb s = ?a" by (rule stack_pcb [OF assms(1,4)])
  have x: "phys x = 0x800000 + of_nat n * 0x400000 + v mod 0x400000"
    using user_page_translate [OF assms(5), of "int n" s] assms(7) by simp
  have y: "phys y = 0x800000 + of_nat k * 0x400000 + w mod 0x400000"
    using user_page_translate [OF assms(6), of "int k" t] assms(8) by simp
  note ux = user_frame_nat [OF assms(1), of v] and uy = user_frame_nat [OF assms(2), of w]
  have r: "unat v mod 0x400000 < 0x400000" "unat w mod 0x400000 < 0x400000" by simp_all
  show "0x800000 \<le> unat (phys x)" "unat (phys x) < 0x800000 + 12 * 0x400000"
    unfolding x ux using assms(1) r(1) by linarith+
  have "unat (phys x) \<noteq> unat (phys y)"
    unfolding x y ux uy using assms(3) r by linarith
  then show "phys x \<noteq> phys y" by auto
qed

theorem processes_apart_witness:
  "get_cur_pcb ((proc_boot (\<lambda>_. 0))\<lparr>esp := 0x7FFF00\<rparr>) = get_pcb_from_id 0
    \<and> (\<exists>x y. translate (pcb_mapping 0x8000000 0x800000 (proc_boot (\<lambda>_. 0))) 0x8000000 = Some x
          \<and> translate (pcb_mapping 0x8000000 0xC00000 (proc_boot (\<lambda>_. 0))) 0x8000004 = Some y \<and> phys x \<noteq> phys y)"
proof -
  let ?t = "proc_boot (\<lambda>_. 0)"
  let ?s = "?t\<lparr>esp := 0x7FFF00\<rparr>"
  have a: "unat (get_pcb_from_id (of_nat 0)) = 0x7FE000" using unat_pcb_from_nat [of 0] by simp
  have e: "esp ?s \<in> run (get_pcb_from_id (of_nat 0)) 0x2000" by (rule in_run_between) (use a in simp_all)
  have v: "(0x8000000 :: addr) div 0x400000 = 32" "(0x8000004 :: addr) div 0x400000 = 32" by simp_all
  have x: "translate (pcb_mapping 0x8000000 (0x800000 + of_nat 0 * 0x400000) ?s) 0x8000000
      = Some \<lparr>phys = 0x800000, user = True, writable = True\<rparr>"
    using user_page_translate [OF v(1), of 0 ?s] by simp
  have y: "translate (pcb_mapping 0x8000000 (0x800000 + of_nat 1 * 0x400000) ?t) 0x8000004
      = Some \<lparr>phys = 0xC00004, user = True, writable = True\<rparr>"
    using user_page_translate [OF v(2), of 1 ?t] by simp
  have "translate (pcb_mapping 0x8000000 0x800000 ?t) = translate (pcb_mapping 0x8000000 0x800000 ?s)"
    by (rule translate_cong) (simp_all add: pcb_mapping_def Let_def set_page_dir_def flush_def)
  then show ?thesis
    using processes_apart [OF _ _ _ e v x y] x y by simp
qed

end
