(* ===== verification/Output.thy ===== *)
theory Output
  imports Keyboard
begin

text \<open>
  Plain text on the terminal: a format without a percent sign is put character by character,
  and so \<open>term_write\<close> shows what it is given. The user programs' output rests on this.
\<close>

context char_sink begin

lemma format_loop_plain:
  "ok s \<Longrightarrow> text_at (mem s) (dev s) a xs \<Longrightarrow> 0x25 \<notin> set xs
    \<Longrightarrow> format_loop put conv a args s = Some (a + of_nat (length xs), fold put xs s)"
proof (induction xs arbitrary: a s)
  case Nil
  then show ?case by (simp add: format_loop.simps [of put conv a])
next
  case (Cons x xs)
  have "text_at (mem (put x s)) (dev s) b ys" if "text_at (mem s) (dev s) b ys" for b ys
    using that by (induction ys arbitrary: b) (simp_all add: put_mem Cons.prems(1))
  then have "format_loop put conv (a + 1) args (put x s) = Some (a + 1 + of_nat (length xs), fold put xs (put x s))"
    using Cons.prems by (intro Cons.IH) (simp_all add: put_ok put_dev)
  with Cons.prems show ?case by (simp add: format_loop.simps [of put conv a] add.assoc)
qed

end

lemma run_head: "a \<in> run a (Suc n)"
  by (rule image_eqI [of _ _ 0]) simp_all

lemma text_at_cstr: "cstr m a xs \<Longrightarrow> run a (Suc (length xs)) \<inter> D = {} \<Longrightarrow> text_at m D a xs"
proof (induction xs arbitrary: a)
  case Nil
  then show ?case using run_head [of a 0] by (simp add: cstr_Nil) blast
next
  case (Cons x xs)
  have "run (a + 1) (Suc (length xs)) \<subseteq> run a (Suc (length (x # xs)))"
    using run_subset [of 1 "Suc (length xs)" "Suc (length (x # xs))" a] by simp
  moreover have "a \<in> run a (Suc (length (x # xs)))" by (rule run_head)
  ultimately show ?case using Cons by (simp add: cstr_Cons) blast
qed

lemma printf_plain:
  assumes "cursor_ok s" and "cstr (mem s) a xs" and "run a (Suc (length xs)) \<inter> page VIDEO = {}" and "0x25 \<notin> set xs"
  shows "printf conv a args s = Some (fold putc xs s, of_nat (length xs))"
  using shown_sink.format_loop_plain [OF assms(1) text_at_cstr [OF assms(2,3)] assms(4)] by (simp add: printf_def)

lemma fold_putc:
  assumes "cursor_ok s"
  shows "cursor_ok (fold putc xs s)" "shown (fold putc xs s) = fold (shown_put s) xs (shown s)"
    "a \<notin> page VIDEO \<Longrightarrow> mem (fold putc xs s) a = mem s a"
  using shown_sink.emits_fold [OF assms, of "{}" xs] by (auto simp: shown_sink.emits_def fold_colour)

lemma console_only_fold_putc [simp]: "console_only s (fold putc xs t) = console_only s t"
  by (induction xs arbitrary: t) simp_all

section \<open>\<open>term_write\<close>\<close>

text \<open>Its copy is the first loop of \<open>strncpy\<close>.\<close>

lemma term_write_copy_strncpy: "term_write_copy temp buf len i m = prod.swap (strncpy_copy m temp buf (nat len) i)"
proof (induction temp buf len i m rule: term_write_copy.induct)
  case (1 temp buf len i m)
  then show ?case
    by (subst term_write_copy.simps, subst strncpy_copy.simps) (auto simp del: fun_upd_apply)
qed

lemma term_write_copy_eq:
  assumes "disjoint temp (nat len) buf (nat len)" and "len < 4294967296"
  shows "term_write_copy temp buf len 0 m
    = (length (str_prefix m buf (nat len)), store m temp (str_prefix m buf (nat len)))"
  using strncpy_copy_store [OF assms(1), of 0 m] assms(2) by (simp add: term_write_copy_strncpy)

lemma fmt_spec_plain: "0x25 \<notin> set xs \<Longrightarrow> fmt_spec str None xs vs = Some xs"
  by (induction xs) auto

lemma term_write_printf:
  assumes "now_term_id s = cur_term_id s" and "buf \<noteq> 0" and "len < 2147483648" and xs: "str_prefix (mem s) buf (nat len) = xs"
    and apart: "run temp (Suc (nat len)) \<inter> run buf (nat len) = {}"
  defines "m \<equiv> store (mem s) temp (xs @ [0])"
  shows "term_write temp conv args buf len s
      = map_option (\<lambda>(s, n). (int (length xs), s)) (printf conv temp args (s\<lparr>mem := m\<rparr>))"
    "cstr m temp xs" "length xs \<le> nat len"
proof -
  have le: "length xs \<le> nat len" "length xs < 4294967296"
    using assms(3) xs length_takeWhile_le [of "\<lambda>b. b \<noteq> 0" "load (mem s) buf (nat len)"]
    by (auto simp: str_prefix_def)
  have "disjoint temp (nat len) buf (nat len)" by (rule disjoint_runs [OF apart]) simp_all
  then have copy: "term_write_copy temp buf len 0 (mem s) = (length xs, store (mem s) temp xs)"
    using term_write_copy_eq [of temp len buf "mem s"] assms(3) by (simp add: xs)
  have m: "(store (mem s) temp xs)(temp + of_nat (length xs) := 0) = m"
    using store_append [of xs "[0]" "mem s" temp] le(2) by (simp add: m_def)
  have "0 \<notin> set xs" using xs by (auto simp: str_prefix_def dest: set_takeWhileD)
  then show "cstr m temp xs" unfolding m_def using le(2) by (rule cstr_store)
  show "term_write temp conv args buf len s
      = map_option (\<lambda>(s, n). (int (length xs), s)) (printf conv temp args (s\<lparr>mem := m\<rparr>))"
    using assms(1,2) by (simp add: term_write_def copy m map_option_case split: option.split)
  show "length xs \<le> nat len" by (rule le(1))
qed

lemma term_write_eq:
  assumes "cursor_ok s" and "now_term_id s = cur_term_id s" and "buf \<noteq> 0" and "len < 2147483648"
    and xs: "str_prefix (mem s) buf (nat len) = xs" "0x25 \<notin> set xs"
    and apart: "run temp (Suc (nat len)) \<inter> run buf (nat len) = {}" "run temp (Suc (nat len)) \<inter> page VIDEO = {}"
  shows "term_write temp conv args buf len s
    = Some (int (length xs), fold putc xs (s\<lparr>mem := store (mem s) temp (xs @ [0])\<rparr>))"
proof -
  note w = term_write_printf [OF assms(2-4) xs(1) apart(1)]
  let ?m = "store (mem s) temp (xs @ [0])"
  have "run temp (Suc (length xs)) \<subseteq> run temp (Suc (nat len))"
    using run_subset [of 0 "Suc (length xs)" "Suc (nat len)" temp] w(3) by simp
  then have "run temp (Suc (length xs)) \<inter> page VIDEO = {}" using apart(2) by blast
  then have "printf conv temp args (s\<lparr>mem := ?m\<rparr>) = Some (fold putc xs (s\<lparr>mem := ?m\<rparr>), of_nat (length xs))"
    using assms(1) w(2) xs(2) by (intro printf_plain) simp_all
  then show ?thesis by (simp add: w(1))
qed


text \<open>C26: Writing to the terminal on display passes the bytes of the buffer up to the first NUL to
  \<open>printf\<close> as its format, and returns their number. Without a percent sign among them the screen shows
  exactly these bytes; with one it shows what the format means with the words \<open>vs\<close> that
  happen to lie on the stack as arguments. Only the screen, the copy and, with a percent sign, the buffer
  of the conversions are written.\<close>

theorem term_write_shows:
  assumes "cursor_ok s" and "now_term_id s = cur_term_id s" and "buf \<noteq> 0" and "len < 2147483648"
    and "str_prefix (mem s) buf (nat len) = xs"
    and "run temp (Suc (nat len)) \<inter> run buf (nat len) = {}" and "run temp (Suc (nat len)) \<inter> page VIDEO = {}"
    and "copied = store (mem s) temp (xs @ [0])" and "D = page VIDEO \<union> run conv 64"
    and "0x25 \<notin> set xs \<and> out = xs
      \<or> run conv 64 \<inter> (page VIDEO \<union> run temp (Suc (nat len))) = {} \<and> strings_at copied D str \<and> stack_args copied D args vs
        \<and> fmt_spec str None xs vs = Some out"
  shows "\<exists>s'. term_write temp conv args buf len s = Some (int (length xs), s')
    \<and> shown s' = fold (shown_put s) out (shown s) \<and> cursor_ok s'
    \<and> (\<forall>a. a \<notin> page VIDEO \<union> run temp (Suc (nat len)) \<union> (if 0x25 \<in> set xs then run conv 64 else {}) \<longrightarrow> mem s' a = mem s a)"
proof -
  let ?s = "s\<lparr>mem := copied\<rparr>"
  note w = term_write_printf [OF assms(2-6), folded assms(8)]
  have sub: "run temp (Suc (length xs)) \<subseteq> run temp (Suc (nat len))"
    using run_subset [of 0 "Suc (length xs)" "Suc (nat len)" temp] w(3) by simp
  have kept: "mem ?s a = mem s a" if "a \<notin> run temp (Suc (nat len))" for a
    using store_outside_run [of a temp "xs @ [0]" "mem s"] sub that by (auto simp: assms(8))
  then have sh: "shown ?s = shown s" using assms(7) by (intro shown_upd) auto
  show ?thesis
  proof (cases "0x25 \<in> set xs")
    case False
    have "out = xs"
      using assms(10) False fmt_spec_plain [OF False, of str vs] by auto
    then show ?thesis
      using term_write_eq [OF assms(1-5) False assms(6,7)] fold_putc [where s = ?s and xs = xs] assms(1) kept False sh
      by (auto simp: assms(8))
  next
    case True
    then have f: "run conv 64 \<inter> page VIDEO = {}" "run conv 64 \<inter> run temp (Suc (nat len)) = {}" "strings_at (mem ?s) D str"
        "stack_args (mem ?s) D args vs" "fmt_spec str None xs vs = Some out"
      using assms(10) by auto
    have ok: "cursor_ok ?s" using assms(1) by simp
    have "run temp (Suc (length xs)) \<inter> D = {}" unfolding assms(9) using sub assms(7) f(2) by blast
    then have t: "text_at (mem ?s) D temp xs" using text_at_cstr w(2) by simp
    obtain s' where s': "printf conv temp args ?s = Some (s', of_nat (length xs))" "shown_sink.emits (run conv 64) ?s out s'"
      using printf_emits [OF ok f(1) assms(9) f(3) t f(4,5)] by blast
    then have "shown s' = fold (shown_put s) out (shown s)" "cursor_ok s'"
        "\<forall>a. a \<notin> page VIDEO \<union> run conv 64 \<longrightarrow> mem s' a = mem ?s a"
      using sh by (auto simp: shown_sink.emits_def fold_colour)
    then show ?thesis using s'(1) w(1) kept True by auto
  qed
qed

text \<open>"a%%" in the program's page, written to the first terminal: it shows "a%".\<close>

definition percent_typed :: console_state where
  "percent_typed = (console_boot ((\<lambda>_. 0)(0x8048000 := 0x61, 0x8048001 := 0x25, 0x8048002 := 0x25)))\<lparr>now_term_id := 0\<rparr>"

theorem term_write_shows_witness:
  "\<exists>s'. term_write 0x7FF000 0x7FE000 0x7FD000 0x8048000 3 percent_typed = Some (3, s')
    \<and> shown s' = fold (shown_put percent_typed) [0x61, 0x25] (shown percent_typed) \<and> cursor_ok s'"
proof -
  have p: "str_prefix (mem percent_typed) 0x8048000 (nat 3) = [0x61, 0x25, 0x25]"
    by (simp add: str_prefix_def load_def upt_rec percent_typed_def)
  have ap: "run 0x7FF000 (Suc (nat 3)) \<inter> run 0x8048000 (nat 3) = {}" "run 0x7FF000 (Suc (nat 3)) \<inter> page VIDEO = {}"
      "run 0x7FE000 64 \<inter> page VIDEO = {}" "run 0x7FE000 64 \<inter> run 0x7FF000 (Suc (nat 3)) = {}"
    by (rule runs_apart; simp add: VIDEO_def)+
  have c: "cursor_ok percent_typed" "now_term_id percent_typed = cur_term_id percent_typed"
    by (simp_all add: percent_typed_def cursor_ok_def)
  have "run 0x7FE000 64 \<inter> (page VIDEO \<union> run 0x7FF000 (Suc (nat 3))) = {} \<and> strings_at m D (\<lambda>_. None) \<and> stack_args m D 0x7FD000 []
      \<and> fmt_spec (\<lambda>_. None) None [0x61, 0x25, 0x25] [] = Some [0x61, 0x25]" for m D
    by (simp add: Int_Un_distrib ap(3,4) [simplified] strings_at_def)
  from term_write_shows [OF c _ _ p ap(1,2) refl refl disjI2 [OF this]] show ?thesis by auto
qed

end
