(* ===== verification/User_Support.thy ===== *)
theory User_Support
  imports Lib_String Machine
begin

text \<open>
  The support library of the user programs (\<open>syscalls/ece391support.c\<close>) and the system call
  wrappers (\<open>syscalls/ece391syscall.S\<close>). A user program runs over a \<open>user_env\<close>:
  \<open>int80\<close> is the effect of \<open>INT 0x80\<close> with the call's number in \<open>EAX\<close> and its arguments in
  \<open>EBX\<close>, \<open>ECX\<close> and \<open>EDX\<close>, up to the instruction after it, and \<open>ro_data\<close> gives the address
  of a string literal of the program's image. The state is any one with a memory, so the
  programs run unchanged on the kernel's.
\<close>

section \<open>Strings\<close>

partial_function (option) ece391_strlen_loop :: "mem \<Rightarrow> addr \<Rightarrow> u32 \<Rightarrow> u32 option" where
  "ece391_strlen_loop m s len = (if m s \<noteq> 0 then ece391_strlen_loop m (s + 1) (len + 1) else Some len)"

definition ece391_strlen :: "mem \<Rightarrow> addr \<Rightarrow> u32 option" where
  "ece391_strlen m s = ece391_strlen_loop m s 0"

partial_function (option) ece391_strcpy :: "mem \<Rightarrow> addr \<Rightarrow> addr \<Rightarrow> mem option" where
  "ece391_strcpy m dst src =
     (let b = m src; m = m(dst := b)
      in if b \<noteq> 0 then ece391_strcpy m (dst + 1) (src + 1) else Some m)"

partial_function (option) ece391_strcmp :: "mem \<Rightarrow> addr \<Rightarrow> addr \<Rightarrow> int option" where
  "ece391_strcmp m s1 s2 =
     (if m s1 = m s2 then if m s1 = 0 then Some 0 else ece391_strcmp m (s1 + 1) (s2 + 1)
      else Some (uint (m s1) - uint (m s2)))"

partial_function (option) ece391_strncmp_loop :: "mem \<Rightarrow> addr \<Rightarrow> addr \<Rightarrow> u32 \<Rightarrow> int option" where
  "ece391_strncmp_loop m s1 s2 n =
     (if m s1 = m s2
      then if m s1 = 0 \<or> n - 1 = 0 then Some 0
           else ece391_strncmp_loop m (s1 + 1) (s2 + 1) (n - 1)
      else Some (uint (m s1) - uint (m s2)))"

definition ece391_strncmp :: "mem \<Rightarrow> addr \<Rightarrow> addr \<Rightarrow> u32 \<Rightarrow> int option" where
  "ece391_strncmp m s1 s2 n = (if n = 0 then Some 0 else ece391_strncmp_loop m s1 s2 n)"

function ece391_strrev_loop :: "mem \<Rightarrow> addr \<Rightarrow> int \<Rightarrow> int \<Rightarrow> mem" where
  "ece391_strrev_loop m s beg end =
     (if beg < end then
        let tmp = m (s + word_of_int end);
            m = m(s + word_of_int end := m (s + word_of_int beg));
            m = m(s + word_of_int beg := tmp)
        in ece391_strrev_loop m s (beg + 1) (end - 1)
      else m)"
  by pat_completeness auto
termination
  by (relation "measure (\<lambda>(m, s, beg, end). nat (end - beg))") auto

declare ece391_strrev_loop.simps [simp del]

definition ece391_strrev :: "mem \<Rightarrow> addr \<Rightarrow> mem option" where
  "ece391_strrev m s = do {
     len \<leftarrow> ece391_strlen m s;
     let end = sint (len - 1) in if end \<le> 0 then Some m else Some (ece391_strrev_loop m s 0 end)
   }"

text \<open>As in the kernel's \<open>itoa\<close>, an index past \<open>lookup[]\<close> and a division by 0 are \<open>None\<close>.\<close>

definition ece391_lookup :: "byte list" where
  "ece391_lookup = lit ''0123456789ABCDEFGHIJKLMNOPQRSTUVWXYZ'' @ [0]"

partial_function (option)
  ece391_itoa_loop :: "mem \<Rightarrow> addr \<Rightarrow> u32 \<Rightarrow> u32 \<Rightarrow> (mem \<times> addr) option" where
  "ece391_itoa_loop m newbuf newval radix =
     (if newval > 0
      then if radix = 0 then None
           else let i = unat (newval mod radix)
                in if i \<ge> length ece391_lookup then None
                   else ece391_itoa_loop (m(newbuf := ece391_lookup ! i)) (newbuf + 1) (newval div radix) radix
      else Some (m, newbuf))"

definition ece391_itoa :: "mem \<Rightarrow> u32 \<Rightarrow> addr \<Rightarrow> u32 \<Rightarrow> mem option" where
  "ece391_itoa m value buf radix =
     (if value = 0 then Some (m(buf := 0x30, buf + 1 := 0))
      else do {
        (m, newbuf) \<leftarrow> ece391_itoa_loop m buf value radix;
        ece391_strrev (m(newbuf := 0)) buf
      })"

section \<open>System calls\<close>

text \<open>
  The wrappers load the number and up to three arguments; where a call takes fewer, the
  registers hold what is on the stack, which the calls ignore, and the model loads 0.
\<close>

record 's user_env =
  int80 :: "u32 \<Rightarrow> u32 \<Rightarrow> u32 \<Rightarrow> u32 \<Rightarrow> 's \<Rightarrow> (u32 \<times> 's) option"
  ro_data :: "string \<Rightarrow> addr"

definition DO_CALL :: "'s user_env \<Rightarrow> u32 \<Rightarrow> u32 \<Rightarrow> u32 \<Rightarrow> u32 \<Rightarrow> 's \<Rightarrow> (int \<times> 's) option" where
  "DO_CALL E number b c d s = do { (r, s) \<leftarrow> int80 E number b c d s; Some (sint r, s) }"

definition ece391_halt :: "'s user_env \<Rightarrow> byte \<Rightarrow> 's \<Rightarrow> (int \<times> 's) option" where
  "ece391_halt E status s = DO_CALL E 1 (ucast status) 0 0 s"
definition ece391_execute :: "'s user_env \<Rightarrow> addr \<Rightarrow> 's \<Rightarrow> (int \<times> 's) option" where
  "ece391_execute E command s = DO_CALL E 2 command 0 0 s"
definition ece391_read :: "'s user_env \<Rightarrow> int \<Rightarrow> addr \<Rightarrow> int \<Rightarrow> 's \<Rightarrow> (int \<times> 's) option" where
  "ece391_read E fd buf nbytes s = DO_CALL E 3 (word_of_int fd) buf (word_of_int nbytes) s"
definition ece391_write :: "'s user_env \<Rightarrow> int \<Rightarrow> addr \<Rightarrow> int \<Rightarrow> 's \<Rightarrow> (int \<times> 's) option" where
  "ece391_write E fd buf nbytes s = DO_CALL E 4 (word_of_int fd) buf (word_of_int nbytes) s"
definition ece391_open :: "'s user_env \<Rightarrow> addr \<Rightarrow> 's \<Rightarrow> (int \<times> 's) option" where
  "ece391_open E filename s = DO_CALL E 5 filename 0 0 s"
definition ece391_close :: "'s user_env \<Rightarrow> int \<Rightarrow> 's \<Rightarrow> (int \<times> 's) option" where
  "ece391_close E fd s = DO_CALL E 6 (word_of_int fd) 0 0 s"
definition ece391_getargs :: "'s user_env \<Rightarrow> addr \<Rightarrow> int \<Rightarrow> 's \<Rightarrow> (int \<times> 's) option" where
  "ece391_getargs E buf nbytes s = DO_CALL E 7 buf (word_of_int nbytes) 0 s"
definition ece391_vidmap :: "'s user_env \<Rightarrow> addr \<Rightarrow> 's \<Rightarrow> (int \<times> 's) option" where
  "ece391_vidmap E screen_start s = DO_CALL E 8 screen_start 0 0 s"
definition ece391_set_handler :: "'s user_env \<Rightarrow> int \<Rightarrow> addr \<Rightarrow> 's \<Rightarrow> (int \<times> 's) option" where
  "ece391_set_handler E signum handler s = DO_CALL E 9 (word_of_int signum) handler 0 s"
definition ece391_sigreturn :: "'s user_env \<Rightarrow> 's \<Rightarrow> (int \<times> 's) option" where
  "ece391_sigreturn E s = DO_CALL E 10 0 0 0 s"

definition ece391_fdputs ::
  "'a machine_scheme user_env \<Rightarrow> int \<Rightarrow> addr \<Rightarrow> 'a machine_scheme \<Rightarrow> 'a machine_scheme option" where
  "ece391_fdputs E fd a s = do {
     len \<leftarrow> ece391_strlen (mem s) a;
     (r, s) \<leftarrow> ece391_write E fd a (sint len) s;
     Some s
   }"

text \<open>A literal put on the standard output, the call every program makes.\<close>

abbreviation say :: "'a machine_scheme user_env \<Rightarrow> string \<Rightarrow> 'a machine_scheme \<Rightarrow> 'a machine_scheme option" where
  "say E msg \<equiv> ece391_fdputs E 1 (ro_data E msg)"

section \<open>The library is the kernel's\<close>

text \<open>The user's loops advance the pointer, the kernel's an index.\<close>

lemma ece391_strlen_loop_shift:
  assumes "ece391_strlen_loop m p len = Some r"
  shows "strlen_loop m (p - len) len = Some r"
proof (induction m p len r rule: ece391_strlen_loop.raw_induct)
  case (1 loop m s len r)
  show ?case using 1(2) 1(1) [of m "s + 1" "len + 1" r]
    by (subst strlen_loop.simps) (simp split: if_splits)
qed (rule assms)

lemma strlen_loop_shift:
  assumes "strlen_loop m s len = Some r"
  shows "ece391_strlen_loop m (s + len) len = Some r"
proof (induction m s len r rule: strlen_loop.raw_induct)
  case (1 loop m s len r)
  show ?case using 1(2) 1(1) [of m s "len + 1" r]
    by (subst ece391_strlen_loop.simps) (simp split: if_splits add: add.assoc)
qed (rule assms)

lemma option_eqI: "(\<And>r. x = Some r \<longleftrightarrow> y = Some r) \<Longrightarrow> x = y"
  by (metis not_None_eq)

lemma ece391_strlen_eq: "ece391_strlen = strlen"
  unfolding fun_eq_iff
proof (intro allI option_eqI)
  fix m s r show "ece391_strlen m s = Some r \<longleftrightarrow> strlen m s = Some r"
    using ece391_strlen_loop_shift [of m s 0 r] strlen_loop_shift [of m s 0 r]
    by (auto simp: ece391_strlen_def strlen_def)
qed

lemma ece391_strcpy_shift:
  assumes "ece391_strcpy m d a = Some r"
  shows "strcpy_loop m (d - i) (a - i) i = Some r"
proof (induction m d a r arbitrary: i rule: ece391_strcpy.raw_induct)
  case (1 loop m d a r)
  show ?case using 1(2) 1(1) [of "m(d := m a)" "d + 1" "a + 1" r "i + 1"]
    by (subst strcpy_loop.simps) (simp add: Let_def del: fun_upd_apply split: if_splits)
qed (rule assms)

lemma strcpy_loop_shift:
  assumes "strcpy_loop m d a i = Some r"
  shows "ece391_strcpy m (d + i) (a + i) = Some r"
proof (induction m d a i r rule: strcpy_loop.raw_induct)
  case (1 loop m d a i r)
  show ?case using 1(2) 1(1) [of "m(d + i := m (a + i))" d a "i + 1" r]
    by (subst ece391_strcpy.simps) (simp add: Let_def add.assoc del: fun_upd_apply split: if_splits)
qed (rule assms)

lemma ece391_strcpy_eq: "ece391_strcpy = strcpy"
  unfolding fun_eq_iff
proof (intro allI option_eqI)
  fix m d a r show "ece391_strcpy m d a = Some r \<longleftrightarrow> strcpy m d a = Some r"
    using ece391_strcpy_shift [of m d a r 0] strcpy_loop_shift [of m d a 0 r] by (auto simp: strcpy_def)
qed

lemma ece391_strrev_loop_eq: "ece391_strrev_loop m s b e = strrev_loop m s b e"
proof (induction m s b e rule: ece391_strrev_loop.induct)
  case (1 m s b e)
  show ?case
  proof (cases "b < e")
    case True
    from 1 [OF this refl refl refl] show ?thesis
      using True by (simp only: ece391_strrev_loop.simps [of m s b e] strrev_loop.simps [of m s b e] Let_def if_True)
  next
    case False
    then show ?thesis by (simp add: ece391_strrev_loop.simps [of m s b e] strrev_loop.simps [of m s b e])
  qed
qed

lemma ece391_strrev_eq: "ece391_strrev = strrev"
  by (simp add: fun_eq_iff ece391_strrev_def strrev_def ece391_strlen_eq Let_def ece391_strrev_loop_eq
      strrev_loop.simps split: option.split Option.bind_split)

lemma ece391_itoa_loop_to:
  assumes "ece391_itoa_loop m b v radix = Some r"
  shows "itoa_loop m b v radix = Some r"
proof (induction m b v radix r rule: ece391_itoa_loop.raw_induct)
  case (1 loop m b v radix r)
  show ?case using 1(2) 1(1) by (subst itoa_loop.simps)
    (auto simp add: Let_def word_greater_zero_iff itoa_lookup_def ece391_lookup_def split: if_splits)
qed (rule assms)

lemma itoa_loop_to:
  assumes "itoa_loop m b v radix = Some r"
  shows "ece391_itoa_loop m b v radix = Some r"
proof (induction m b v radix r rule: itoa_loop.raw_induct)
  case (1 loop m b v radix r)
  show ?case using 1(2) 1(1) by (subst ece391_itoa_loop.simps)
    (auto simp add: Let_def word_greater_zero_iff itoa_lookup_def ece391_lookup_def split: if_splits)
qed (rule assms)

lemma ece391_itoa_eq: "ece391_itoa = itoa"
proof -
  have "ece391_itoa_loop m b v radix = itoa_loop m b v radix" for m b v radix
    by (rule option_eqI) (use ece391_itoa_loop_to itoa_loop_to in blast)
  then show ?thesis by (simp add: fun_eq_iff ece391_itoa_def itoa_def ece391_strrev_eq)
qed

lemma uint_inj [simp]: "uint x = uint y \<longleftrightarrow> x = y"
  by (simp add: word_uint_eq_iff)

lemma uint_zero [simp]: "uint x = 0 \<longleftrightarrow> x = 0"
  by (simp add: word_uint_eq_iff)

text \<open>The comparisons take the difference of unsigned characters, the kernel's of signed ones.\<close>

text \<open>Two characters at the first place where the strings differ, or any two equal ones when they do not.\<close>

definition first_difference :: "mem \<Rightarrow> addr \<Rightarrow> addr \<Rightarrow> nat \<Rightarrow> byte \<Rightarrow> byte \<Rightarrow> bool" where
  "first_difference m s1 s2 n x y \<longleftrightarrow> (if str_prefix m s1 n = str_prefix m s2 n then x = y
     else \<exists>i < n. load m s1 i = load m s2 i \<and> 0 \<notin> set (load m s1 i) \<and> x = m (s1 + of_nat i) \<and> y = m (s2 + of_nat i) \<and> x \<noteq> y)"

lemma ece391_strncmp_loop_total:
  "n = of_nat (Suc k) \<Longrightarrow> Suc k < 4294967296 \<Longrightarrow> load m s1 i = load m s2 i \<Longrightarrow> 0 \<notin> set (load m s1 i) \<Longrightarrow>
    \<exists>x y. ece391_strncmp_loop m (s1 + of_nat i) (s2 + of_nat i) n = Some (uint x - uint y)
      \<and> strncmp_loop m s1 s2 (i + Suc k) i = sint x - sint y
      \<and> (x = y \<or> (\<exists>j < i + Suc k. load m s1 j = load m s2 j \<and> 0 \<notin> set (load m s1 j) \<and> x = m (s1 + of_nat j) \<and> y = m (s2 + of_nat j)))"
proof (induction k arbitrary: n i)
  case 0
  let ?a = "m (s1 + of_nat i)" and ?b = "m (s2 + of_nat i)"
  have "ece391_strncmp_loop m (s1 + of_nat i) (s2 + of_nat i) n = Some (uint ?a - uint ?b)"
    using 0 by (subst ece391_strncmp_loop.simps) auto
  moreover have "strncmp_loop m s1 s2 (i + Suc 0) i = sint ?a - sint ?b"
    by (subst strncmp_loop.simps, subst strncmp_loop.simps) auto
  ultimately show ?case using 0(3,4) by (intro exI [of _ ?a] exI [of _ ?b]) auto
next
  case (Suc k)
  have n: "n - 1 = of_nat (Suc k)" "n - 1 \<noteq> 0"
    using Suc.prems(1,2) of_nat_u32_inj [of "Suc k" 0] by simp_all
  let ?a = "m (s1 + of_nat i)" and ?b = "m (s2 + of_nat i)"
  show ?case
  proof (cases "?a = ?b \<and> ?a \<noteq> 0")
    case True
    then have t: "?a = ?b" "?b \<noteq> 0" by auto
    have "ece391_strncmp_loop m (s1 + of_nat i) (s2 + of_nat i) n
        = ece391_strncmp_loop m (s1 + of_nat (Suc i)) (s2 + of_nat (Suc i)) (n - 1)"
      using t n(2) by (subst ece391_strncmp_loop.simps) (simp add: algebra_simps)
    moreover have "strncmp_loop m s1 s2 (i + Suc (Suc k)) i = strncmp_loop m s1 s2 (Suc i + Suc k) (Suc i)"
      using t by (subst strncmp_loop.simps) simp
    moreover have "load m s1 (Suc i) = load m s2 (Suc i)" "0 \<notin> set (load m s1 (Suc i))"
      using t Suc.prems(3,4) by (simp_all add: load_def)
    ultimately show ?thesis using Suc.IH [OF n(1), of "Suc i"] Suc.prems(2) by simp
  next
    case False
    have "ece391_strncmp_loop m (s1 + of_nat i) (s2 + of_nat i) n = Some (uint ?a - uint ?b)"
      using False by (subst ece391_strncmp_loop.simps) auto
    moreover have "strncmp_loop m s1 s2 (i + Suc (Suc k)) i = sint ?a - sint ?b"
      using False by (subst strncmp_loop.simps) auto
    moreover have "\<exists>j < i + Suc (Suc k). load m s1 j = load m s2 j \<and> 0 \<notin> set (load m s1 j) \<and> ?a = m (s1 + of_nat j) \<and> ?b = m (s2 + of_nat j)"
      by (intro exI [of _ i]) (simp add: Suc.prems(3), simp add: Suc.prems(3) [symmetric] Suc.prems(4))
    ultimately show ?thesis by blast
  qed
qed

lemma ece391_strncmp_total:
  "\<exists>x y. ece391_strncmp m s1 s2 n = Some (uint x - uint y) \<and> strncmp m s1 s2 n = sint x - sint y
    \<and> first_difference m s1 s2 (unat n) x y"
proof (cases "n = 0")
  case True
  then show ?thesis
    by (intro exI [of _ 0]) (simp add: ece391_strncmp_def strncmp_def strncmp_loop.simps [of m s1 s2 0 0] first_difference_def str_prefix_def)
next
  case False
  then obtain k where k: "unat n = Suc k" by (metis not0_implies_Suc unat_eq_0)
  moreover have "of_nat (unat n) = n" by simp
  ultimately have "n = of_nat (Suc k)" by simp
  moreover have "Suc k < 4294967296" using k unat_u32_bound [of n] by simp
  ultimately obtain x y where xy: "ece391_strncmp m s1 s2 n = Some (uint x - uint y)" "strncmp m s1 s2 n = sint x - sint y"
      "x = y \<or> (\<exists>j < unat n. load m s1 j = load m s2 j \<and> 0 \<notin> set (load m s1 j) \<and> x = m (s1 + of_nat j) \<and> y = m (s2 + of_nat j))"
    using ece391_strncmp_loop_total [of n k m s1 0 s2] False k by (auto simp: ece391_strncmp_def strncmp_def)
  have "sint x = sint y \<longleftrightarrow> x = y" by (auto intro: signed_word_eqI)
  then have "x = y \<longleftrightarrow> str_prefix m s1 (unat n) = str_prefix m s2 (unat n)"
    using xy(2) strncmp_0_iff [of m s1 s2 n] by simp
  then have "first_difference m s1 s2 (unat n) x y" using xy(3) unfolding first_difference_def by auto
  with xy(1,2) show ?thesis by blast
qed

text \<open>\<open>strcmp\<close> on strings: the first difference decides, with the terminator below every character.\<close>

lemma ece391_strcmp_cstr:
  "cstr m s1 xs \<Longrightarrow> cstr m s2 ys \<Longrightarrow> \<exists>r. ece391_strcmp m s1 s2 = Some r \<and> (r = 0 \<longleftrightarrow> xs = ys)"
proof (induction xs arbitrary: s1 s2 ys)
  case Nil
  then show ?case by (cases ys) (auto simp: cstr_Cons cstr_Nil ece391_strcmp.simps [of m s1 s2])
next
  case (Cons x xs)
  show ?case
  proof (cases ys)
    case Nil
    with Cons.prems show ?thesis by (auto simp: cstr_Cons cstr_Nil ece391_strcmp.simps [of m s1 s2])
  next
    case y: (Cons y ys')
    have c: "m s1 = x" "x \<noteq> 0" "m s2 = y" "cstr m (s1 + 1) xs" "cstr m (s2 + 1) ys'"
      using Cons.prems by (simp_all add: y cstr_Cons)
    show ?thesis using Cons.IH [OF c(4,5)] c(1-3) by (auto simp: y ece391_strcmp.simps [of m s1 s2])
  qed
qed

text \<open>C37: the string functions of the user library are the kernel's: \<open>ece391_strlen\<close>,
  \<open>ece391_strcpy\<close>, \<open>ece391_strrev\<close> and \<open>ece391_itoa\<close> return the same, or run on, on every input,
  and \<open>ece391_strncmp\<close> always returns the difference of the same two characters, the first that
  differ, as the kernel's \<open>strncmp\<close>, but of their unsigned values where the kernel takes the signed ones: the two are zero
  together, and differ in sign for a character from \<open>0x80\<close> on against one below.\<close>

theorem user_strings_agree:
  "ece391_strlen m s = strlen m s \<and> ece391_strcpy m d s = strcpy m d s \<and> ece391_strrev m s = strrev m s
    \<and> ece391_itoa m v s radix = itoa m v s radix
    \<and> (\<exists>x y. first_difference m s d (unat n) x y \<and> ece391_strncmp m s d n = Some (uint x - uint y) \<and> strncmp m s d n = sint x - sint y)"
  using ece391_strncmp_total by (simp add: ece391_strlen_eq ece391_strcpy_eq ece391_strrev_eq ece391_itoa_eq) blast

end
