(* ===== verification/Syscall_Entry.thy ===== *)
theory Syscall_Entry
  imports Process User_Support
begin

text \<open>
  The kernel's side of \<open>INT 0x80\<close>: \<open>syc_handler\<close> of \<open>idt_handler.S\<close> checks the number and
  calls through the jump table. \<open>kenv\<close> has what the calls depend on outside the state: the
  kernel's literals, the addresses of the handlers' local variables, and the interrupts that
  arrive while a call waits, which may depend on the state it starts in.
\<close>

record 'a kenv =
  klits :: "string \<Rightarrow> addr"
  kframe :: frame
  kexec :: exec_frame
  kirqs :: "'a fs_state_scheme \<Rightarrow> 'a irqs"

definition returning :: "(int \<times> 's) option \<Rightarrow> 's outcome option" where
  "returning c = do { (r, s) \<leftarrow> c; Some (Returns r s) }"

definition syc_jumptable ::
  "'a kenv \<Rightarrow> int \<Rightarrow> u32 \<Rightarrow> u32 \<Rightarrow> u32 \<Rightarrow> 'a fs_state_scheme \<Rightarrow> 'a fs_state_scheme outcome option" where
  "syc_jumptable K n b c d s =
     (if n = 1 then halt (klits K) (kexec K) (ucast b) s
      else if n = 2 then execute (klits K) (kexec K) b s
      else if n = 3 then returning (sys_read (kirqs K s) (sint b) c (sint d) s)
      else if n = 4 then returning (sys_write (kframe K) (sint b) c (sint d) s)
      else if n = 5 then returning (sys_open (kframe K) b s)
      else if n = 6 then returning (Some (sys_close (sint b) s))
      else if n = 7 then returning (getargs b (sint c) s)
      else if n = 8 then returning (Some (vidmap b s))
      else if n = 9 then Some (Returns (set_handler (sint b) c) s)
      else Some (Returns sigreturn s))"

definition syc_handler ::
  "'a kenv \<Rightarrow> u32 \<Rightarrow> u32 \<Rightarrow> u32 \<Rightarrow> u32 \<Rightarrow> 'a fs_state_scheme \<Rightarrow> 'a fs_state_scheme outcome option" where
  "syc_handler K eax b c d s =
     (if sint eax < 1 then Some (Returns (-1) s)
      else if sint eax > 10 then Some (Returns (-1) s)
      else syc_jumptable K (sint eax) b c d s)"

text \<open>
  A user program on this kernel. Where a call ends in another program, \<open>resume\<close> is the run
  up to the instruction after the call.
\<close>

definition kernel_env ::
  "'a kenv \<Rightarrow> ('a fs_state_scheme outcome \<Rightarrow> (int \<times> 'a fs_state_scheme) option) \<Rightarrow> (string \<Rightarrow> addr)
    \<Rightarrow> 'a fs_state_scheme user_env" where
  "kernel_env K resume data =
     \<lparr>int80 = (\<lambda>a b c d s. do {
         out \<leftarrow> syc_handler K a b c d s;
         (r, s) \<leftarrow> (case out of Returns r s \<Rightarrow> Some (r, s) | _ \<Rightarrow> resume out);
         Some (word_of_int r, s)
       }),
      ro_data = data\<rparr>"

end
