(* ===== verification/User_Programs.thy ===== *)
theory User_Programs
  imports User_Support Lib_Mem
begin

text \<open>
  The utilities of \<open>syscalls/\<close> over the interface of \<open>User_Support\<close>. A program is a function
  of the environment and of the addresses of its local arrays; it gives the value \<open>main\<close>
  returns and the state then, or \<open>None\<close> where it does not return.
\<close>

type_synonym 'a prog = "'a machine_scheme \<Rightarrow> (int \<times> 'a machine_scheme) option"

definition for_do :: "nat \<Rightarrow> nat \<Rightarrow> (nat \<Rightarrow> 's \<Rightarrow> 's option) \<Rightarrow> 's \<Rightarrow> 's option" where
  "for_do lo hi body s = fold (\<lambda>i so. so \<bind> body i) [lo..<hi] (Some s)"

definition say_return :: "'a machine_scheme user_env \<Rightarrow> string \<Rightarrow> int \<Rightarrow> 'a prog" where
  "say_return E msg r s = do { s \<leftarrow> say E msg s; Some (r, s) }"

section \<open>testprint and hello\<close>

definition testprint_main :: "'a machine_scheme user_env \<Rightarrow> 'a prog" where
  "testprint_main E s = say_return E ''Hello, if this ran, the program was correct. Yay!\<newline>'' 0 s"

definition hello_main :: "'a machine_scheme user_env \<Rightarrow> addr \<Rightarrow> 'a prog" where
  "hello_main E buf s = do {
     s \<leftarrow> say E ''Hi, what's your name? '' s;
     (cnt, s) \<leftarrow> ece391_read E 0 buf 1023 s;
     if cnt = -1 then say_return E ''Can't read name from keyboard.\<newline>'' 3 s
     else do {
       s \<leftarrow> say E ''Hello, '' (poke (buf + word_of_int cnt) 0 s);
       s \<leftarrow> ece391_fdputs E 1 buf s;
       Some (0, s)
     }
   }"

section \<open>ls and cat\<close>

partial_function (option) ls_loop :: "'a machine_scheme user_env \<Rightarrow> int \<Rightarrow> addr \<Rightarrow> 'a prog" where
  "ls_loop E fd buf s = do {
     (cnt, s) \<leftarrow> ece391_read E fd buf 32 s;
     if cnt = 0 then Some (0, s)
     else if cnt = -1 then say_return E ''directory entry read failed\<newline>'' 3 s
     else do {
       (r, s) \<leftarrow> ece391_write E 1 buf (cnt + 1) (poke (buf + word_of_int cnt) 0x0A s);
       if r = -1 then Some (3, s) else ls_loop E fd buf s
     }
   }"

definition ls_main :: "'a machine_scheme user_env \<Rightarrow> addr \<Rightarrow> 'a prog" where
  "ls_main E buf s = do {
     (fd, s) \<leftarrow> ece391_open E (ro_data E ''.'') s;
     if fd = -1 then say_return E ''directory open failed\<newline>'' 2 s else ls_loop E fd buf s
   }"

partial_function (option) cat_loop :: "'a machine_scheme user_env \<Rightarrow> int \<Rightarrow> addr \<Rightarrow> 'a prog" where
  "cat_loop E fd buf s = do {
     (cnt, s) \<leftarrow> ece391_read E fd buf 1024 s;
     if cnt = 0 then Some (0, s)
     else if cnt = -1 then say_return E ''file read failed\<newline>'' 3 s
     else do {
       (r, s) \<leftarrow> ece391_write E 1 buf cnt s;
       if r = -1 then Some (3, s) else cat_loop E fd buf s
     }
   }"

definition cat_main :: "'a machine_scheme user_env \<Rightarrow> addr \<Rightarrow> 'a prog" where
  "cat_main E buf s = do {
     (r, s) \<leftarrow> ece391_getargs E buf 1024 s;
     if r \<noteq> 0 then say_return E ''could not read arguments\<newline>'' 3 s
     else do {
       (fd, s) \<leftarrow> ece391_open E buf s;
       if fd = -1 then say_return E ''file not found\<newline>'' 2 s else cat_loop E fd buf s
     }
   }"

section \<open>The shell\<close>

text \<open>What the shell says of the value a program ended with.\<close>

definition shell_report :: "'a machine_scheme user_env \<Rightarrow> int \<Rightarrow> 'a machine_scheme \<Rightarrow> 'a machine_scheme option" where
  "shell_report E rval s =
     (if rval = -1 then say E ''no such command\<newline>'' s
      else if rval = 256 then say E ''program terminated by exception\<newline>'' s
      else if rval \<noteq> 0 then say E ''program terminated abnormally\<newline>'' s
      else Some s)"

partial_function (option) shell_loop :: "'a machine_scheme user_env \<Rightarrow> addr \<Rightarrow> 'a prog" where
  "shell_loop E buf s = do {
     s \<leftarrow> say E ''391OS> '' s;
     (cnt, s) \<leftarrow> ece391_read E 0 buf 1023 s;
     if cnt = -1 then say_return E ''read from keyboard failed\<newline>'' 3 s
     else
       let cnt = (if cnt > 0 \<and> mem s (buf + word_of_int (cnt - 1)) = 0x0A then cnt - 1 else cnt);
           s = poke (buf + word_of_int cnt) 0 s
       in do {
         c \<leftarrow> ece391_strcmp (mem s) buf (ro_data E ''exit'');
         if c = 0 then Some (0, s)
         else if mem s buf = 0 then shell_loop E buf s
         else do {
           (rval, s) \<leftarrow> ece391_execute E buf s;
           s \<leftarrow> shell_report E rval s;
           shell_loop E buf s
         }
       }
   }"

definition shell_main :: "'a machine_scheme user_env \<Rightarrow> addr \<Rightarrow> 'a prog" where
  "shell_main E buf s = do { s \<leftarrow> say E ''Starting 391 Shell\<newline>'' s; shell_loop E buf s }"

section \<open>counter\<close>

definition counter_line :: "'a machine_scheme user_env \<Rightarrow> addr \<Rightarrow> nat \<Rightarrow> 'a machine_scheme \<Rightarrow> 'a machine_scheme option" where
  "counter_line E buf i s = do {
     m \<leftarrow> ece391_itoa (mem s) (of_nat i + 1) buf 10;
     s \<leftarrow> ece391_fdputs E 1 buf (s\<lparr>mem := m\<rparr>);
     say E ''\<newline>'' s
   }"

definition counter_main :: "'a machine_scheme user_env \<Rightarrow> addr \<Rightarrow> 'a prog" where
  "counter_main E buf s = do {
     s \<leftarrow> say E ''Enter the Test Number: (0): 100, (1): 10000, (2): 100000\<newline>'' s;
     (cnt, s) \<leftarrow> ece391_read E 0 buf 1023 s;
     if cnt = -1 then say_return E ''Can't read the number from keyboard.\<newline>'' 3 s
     else
       let s = poke (buf + word_of_int cnt) 0 s
       in do {
         len \<leftarrow> ece391_strlen (mem s) buf;
         if len > 2 \<or> len = 2 \<and> (mem s buf < 0x30 \<or> mem s buf > 0x32)
         then say_return E ''Wrong Choice!\<newline>'' 0 s
         else
           let limit = (if mem s buf = 0x30 then 100 else if mem s buf = 0x31 then 10000
                      else if mem s buf = 0x32 then 100000 else 0)
           in do { s \<leftarrow> for_do 0 limit (counter_line E buf) s; Some (0, s) }
       }
   }"

section \<open>pingpong\<close>

text \<open>One picture: the world between the walls is cleared, the character drawn at \<open>j\<close>, a tick awaited.\<close>

definition pingpong_draw ::
  "'a machine_scheme user_env \<Rightarrow> addr \<Rightarrow> addr \<Rightarrow> int \<Rightarrow> byte \<Rightarrow> nat \<Rightarrow> 'a machine_scheme \<Rightarrow> 'a machine_scheme option"
  where
  "pingpong_draw E buf garbage rtc_fd curchar j s =
     (let s = for_range 2 78 (\<lambda>i. poke (buf + of_nat i) 0x20) s;
          s = poke (buf + of_nat j) curchar s
      in do {
        s \<leftarrow> ece391_fdputs E 1 buf s;
        (r, s) \<leftarrow> ece391_read E rtc_fd garbage 4 s;
        Some s
      })"

partial_function (option) pingpong_loop ::
  "'a machine_scheme user_env \<Rightarrow> addr \<Rightarrow> addr \<Rightarrow> int \<Rightarrow> byte \<Rightarrow> 'a prog" where
  "pingpong_loop E buf garbage rtc_fd curchar s = do {
     s \<leftarrow> for_do 2 78 (pingpong_draw E buf garbage rtc_fd curchar) s;
     s \<leftarrow> for_do 0 76 (\<lambda>i. pingpong_draw E buf garbage rtc_fd curchar (77 - i)) s;
     pingpong_loop E buf garbage rtc_fd (if curchar = 0x5A then 0x41 else curchar + 1) s
   }"

definition pingpong_main :: "'a machine_scheme user_env \<Rightarrow> addr \<Rightarrow> addr \<Rightarrow> addr \<Rightarrow> 'a prog" where
  "pingpong_main E buf ret_val garbage s =
     (let s = for_range 0 81 (\<lambda>i. poke (buf + of_nat i) 0x20) s;
          s = poke (buf + 80) 0 s;
          s = poke (buf + 79) 0x0A s;
          s = poke (buf + 78) 0x7C s;
          s = poke (buf + 1) 0x7C s
      in do {
        (rtc_fd, s) \<leftarrow> ece391_open E (ro_data E ''rtc'') s;
        (r, s) \<leftarrow> ece391_write E rtc_fd ret_val 4 (s\<lparr>mem := store (mem s) ret_val (dword_bytes 32)\<rparr>);
        pingpong_loop E buf garbage rtc_fd 0x41
          (s\<lparr>mem := store (mem s) ret_val (dword_bytes (word_of_int r))\<rparr>)
      })"

section \<open>grep\<close>

text \<open>The end of the line that starts at \<open>line_end\<close>: at a newline or at \<open>last\<close> (here \<open>lst\<close>).\<close>

function grep_line_end :: "mem \<Rightarrow> addr \<Rightarrow> int \<Rightarrow> int \<Rightarrow> int" where
  "grep_line_end m data lst line_end =
     (if line_end < lst \<and> m (data + word_of_int line_end) \<noteq> 0x0A
      then grep_line_end m data lst (line_end + 1) else line_end)"
  by pat_completeness auto
termination
  by (relation "measure (\<lambda>(m, data, lst, line_end). nat (lst - line_end))") auto

declare grep_line_end.simps [simp del]

definition grep_show :: "'a machine_scheme user_env \<Rightarrow> addr \<Rightarrow> addr \<Rightarrow> 'a machine_scheme \<Rightarrow> 'a machine_scheme option" where
  "grep_show E fname line s = do {
     s \<leftarrow> ece391_fdputs E 1 fname s;
     s \<leftarrow> say E '':'' s;
     s \<leftarrow> ece391_fdputs E 1 line s;
     say E ''\<newline>'' s
   }"

partial_function (option) grep_search ::
  "'a machine_scheme user_env \<Rightarrow> addr \<Rightarrow> u32 \<Rightarrow> addr \<Rightarrow> addr \<Rightarrow> int \<Rightarrow> int \<Rightarrow> int
    \<Rightarrow> 'a machine_scheme \<Rightarrow> 'a machine_scheme option" where
  "grep_search E pat s_len fname data line_start check line_end s =
     (if check < line_end then do {
        c \<leftarrow> (if mem s pat = mem s (data + word_of_int check)
              then ece391_strncmp (mem s) (data + word_of_int check) pat s_len else Some 1);
        if c = 0 then grep_show E fname (data + word_of_int line_start) s
        else grep_search E pat s_len fname data line_start (check + 1) line_end s
      }
      else Some s)"

text \<open>The lines of one buffer; the result is the new \<open>last\<close>.\<close>

partial_function (option) grep_lines ::
  "'a machine_scheme user_env \<Rightarrow> addr \<Rightarrow> u32 \<Rightarrow> addr \<Rightarrow> addr \<Rightarrow> int \<Rightarrow> int \<Rightarrow> int \<Rightarrow> 'a prog" where
  "grep_lines E pat s_len fname data cnt lst line_start s =
     (let line_end = grep_line_end (mem s) data lst line_start
      in if mem s (data + word_of_int line_end) \<noteq> 0x0A \<and> cnt \<noteq> 0 \<and> line_start \<noteq> 0 then do {
           m \<leftarrow> ece391_strcpy ((mem s)(data + word_of_int line_end := 0)) data (data + word_of_int line_start);
           Some (lst - line_start, s\<lparr>mem := m\<rparr>)
         }
         else do {
           s \<leftarrow> grep_search E pat s_len fname data line_start line_start line_end
                  (poke (data + word_of_int line_end) 0 s);
           if line_end + 1 \<ge> lst then Some (0, s)
           else grep_lines E pat s_len fname data cnt lst (line_end + 1) s
         })"

partial_function (option) grep_file ::
  "'a machine_scheme user_env \<Rightarrow> addr \<Rightarrow> u32 \<Rightarrow> addr \<Rightarrow> addr \<Rightarrow> int \<Rightarrow> int \<Rightarrow> 'a prog" where
  "grep_file E pat s_len fname data fd lst s = do {
     (cnt, s) \<leftarrow> ece391_read E fd (data + word_of_int lst) (1024 - lst) s;
     if cnt = -1 then say_return E ''file read failed\<newline>'' (-1) s
     else do {
       (lst, s) \<leftarrow> grep_lines E pat s_len fname data cnt (lst + cnt) 0 s;
       if cnt = 0 then do {
         (r, s) \<leftarrow> ece391_close E fd s;
         if r = -1 then say_return E ''file close failed\<newline>'' (-1) s else Some (0, s)
       }
       else grep_file E pat s_len fname data fd lst s
     }
   }"

definition do_one_file :: "'a machine_scheme user_env \<Rightarrow> addr \<Rightarrow> addr \<Rightarrow> addr \<Rightarrow> 'a prog" where
  "do_one_file E pat fname data s = do {
     s_len \<leftarrow> ece391_strlen (mem s) pat;
     (fd, s) \<leftarrow> ece391_open E fname s;
     if fd = -1 then say_return E ''file open failed\<newline>'' (-1) s
     else grep_file E pat s_len fname data fd 0 s
   }"

partial_function (option) grep_loop ::
  "'a machine_scheme user_env \<Rightarrow> int \<Rightarrow> addr \<Rightarrow> addr \<Rightarrow> addr \<Rightarrow> 'a prog" where
  "grep_loop E fd buf search data s = do {
     (cnt, s) \<leftarrow> ece391_read E fd buf 32 s;
     if cnt = 0 then Some (0, s)
     else if cnt = -1 then say_return E ''directory entry read failed\<newline>'' 3 s
     else if mem s buf = 0x2E then grep_loop E fd buf search data s
     else do {
       (r, s) \<leftarrow> do_one_file E search buf data (poke (buf + word_of_int cnt) 0 s);
       if r \<noteq> 0 then Some (3, s) else grep_loop E fd buf search data s
     }
   }"

definition grep_main :: "'a machine_scheme user_env \<Rightarrow> addr \<Rightarrow> addr \<Rightarrow> addr \<Rightarrow> 'a prog" where
  "grep_main E buf search data s = do {
     (r, s) \<leftarrow> ece391_getargs E search 1024 s;
     if r \<noteq> 0 then say_return E ''could not read argument\<newline>'' 3 s
     else do {
       (fd, s) \<leftarrow> ece391_open E (ro_data E ''.'') s;
       if fd = -1 then say_return E ''directory open failed\<newline>'' 2 s
       else grep_loop E fd buf search data s
     }
   }"

end
