(* ===== verification/Syserr.thy ===== *)
theory Syserr
  imports User_Programs
begin

text \<open>
  The system call test program (\<open>syscalls/ece391syserr.c\<close>): eight tests of calls that have to
  be refused, each printing what it found and returning 0 or 2. \<open>regs\<close> are the registers
  \<open>EBX\<close>, \<open>ECX\<close> and \<open>EDX\<close> at the bare \<open>int $0x80\<close> of \<open>call_sys\<close>.
\<close>

definition NEG_FD :: int where "NEG_FD = -1073741823"
definition BIG_FD :: int where "BIG_FD = 1073741823"
definition BIG_NUM :: int where "BIG_NUM = 1073741823"
definition NEG_NUM :: int where "NEG_NUM = -1073741823"

definition call_sys :: "'s user_env \<Rightarrow> u32 \<times> u32 \<times> u32 \<Rightarrow> int \<Rightarrow> 's \<Rightarrow> (int \<times> 's) option" where
  "call_sys E regs num s = (case regs of (b, c, d) \<Rightarrow> DO_CALL E (word_of_int num) b c d s)"

text \<open>\<open>if (-1 != call) { fail = 2; say }\<close>, and the last lines of a test.\<close>

definition expect_error :: "'a machine_scheme user_env \<Rightarrow> string \<Rightarrow> int \<Rightarrow> int \<Rightarrow> 'a prog" where
  "expect_error E msg fail r s = (if r \<noteq> -1 then say_return E msg 2 s else Some (fail, s))"

definition verdict :: "'a machine_scheme user_env \<Rightarrow> string \<Rightarrow> int \<Rightarrow> 'a prog" where
  "verdict E name fail s =
     (if fail \<noteq> 0 then say_return E (name @ '': FAIL\<newline>'') fail s
      else say_return E (name @ '': PASS\<newline>'') fail s)"

definition err_neg_fd :: "'a machine_scheme user_env \<Rightarrow> addr \<Rightarrow> 'a prog" where
  "err_neg_fd E buf s = do {
     (r, s) \<leftarrow> ece391_read E NEG_FD buf 31 s;
     (fail, s) \<leftarrow> expect_error E ''read fail\<newline>'' 0 r s;
     (r, s) \<leftarrow> ece391_write E NEG_FD buf 31 s;
     (fail, s) \<leftarrow> expect_error E ''write fail\<newline>'' fail r s;
     (r, s) \<leftarrow> ece391_close E NEG_FD s;
     (fail, s) \<leftarrow> expect_error E ''close fail\<newline>'' fail r s;
     verdict E ''err_neg_fd'' fail s
   }"

definition err_big_fd :: "'a machine_scheme user_env \<Rightarrow> addr \<Rightarrow> 'a prog" where
  "err_big_fd E buf s = do {
     (r, s) \<leftarrow> ece391_read E BIG_FD buf 31 s;
     (fail, s) \<leftarrow> expect_error E ''read fail\<newline>'' 0 r s;
     (r, s) \<leftarrow> ece391_write E BIG_FD buf 31 s;
     (fail, s) \<leftarrow> expect_error E ''write fail\<newline>'' fail r s;
     (r, s) \<leftarrow> ece391_close E BIG_FD s;
     (fail, s) \<leftarrow> expect_error E ''close fail\<newline>'' fail r s;
     verdict E ''err_big_fd'' fail s
   }"

definition open_dot :: "'a machine_scheme user_env \<Rightarrow> int \<times> 'a machine_scheme \<Rightarrow> (int \<times> 'a machine_scheme) option" where
  "open_dot E cs = do {
     (r, s) \<leftarrow> ece391_open E (ro_data E ''.'') (snd cs);
     Some (if r = -1 then fst cs + 1 else fst cs, s)
   }"

definition close_fd :: "'a machine_scheme user_env \<Rightarrow> nat \<Rightarrow> 'a machine_scheme \<Rightarrow> 'a machine_scheme option" where
  "close_fd E i s = do { (r, s) \<leftarrow> ece391_close E (int i) s; Some s }"

definition err_open_lots :: "'a machine_scheme user_env \<Rightarrow> 'a prog" where
  "err_open_lots E s = do {
     (cnt, s) \<leftarrow> for_do 0 7 (\<lambda>i. open_dot E) (0, s);
     s \<leftarrow> for_do 2 8 (close_fd E) s;
     if cnt = 1 then say_return E ''err_open_lots: PASS\<newline>'' 0 s
     else say_return E ''err_open_lots: FAIL\<newline>'' 2 s
   }"

definition err_open :: "'a machine_scheme user_env \<Rightarrow> 'a prog" where
  "err_open E s = do {
     (r, s) \<leftarrow> ece391_open E (ro_data E ''helloo'') s;
     (fail, s) \<leftarrow> expect_error E (CHR 0x27 # ''helloo'' @ CHR 0x27 # '' fail\<newline>'') 0 r s;
     (r, s) \<leftarrow> ece391_open E (ro_data E ''shel'') s;
     (fail, s) \<leftarrow> expect_error E (CHR 0x27 # ''shel'' @ CHR 0x27 # '' fail\<newline>'') fail r s;
     (r, s) \<leftarrow> ece391_open E (ro_data E '''') s;
     (fail, s) \<leftarrow> expect_error E ''empty string fail\<newline>'' fail r s;
     verdict E ''err_open'' fail s
   }"

text \<open>One turn of each loop of \<open>err_unopened\<close>, over the flag and the state.\<close>

definition try_close :: "'a machine_scheme user_env \<Rightarrow> nat \<Rightarrow> int \<times> 'a machine_scheme \<Rightarrow> (int \<times> 'a machine_scheme) option" where
  "try_close E i fs = do {
     (r, s) \<leftarrow> ece391_close E (int i) (snd fs);
     expect_error E ''close unopened or invalid fd fail\<newline>'' (fst fs) r s
   }"

definition try_read :: "'a machine_scheme user_env \<Rightarrow> addr \<Rightarrow> nat \<Rightarrow> int \<times> 'a machine_scheme \<Rightarrow> (int \<times> 'a machine_scheme) option" where
  "try_read E buf i fs = do {
     (r, s) \<leftarrow> ece391_read E (int i) buf 31 (snd fs);
     expect_error E ''read from unopened fd fail\<newline>'' (fst fs) r s
   }"

definition try_write :: "'a machine_scheme user_env \<Rightarrow> addr \<Rightarrow> nat \<Rightarrow> int \<times> 'a machine_scheme \<Rightarrow> (int \<times> 'a machine_scheme) option" where
  "try_write E buf i fs = do {
     (r, s) \<leftarrow> ece391_write E (int i) buf 31 (snd fs);
     expect_error E ''write to unopened fd fail\<newline>'' (fst fs) r s
   }"

definition err_unopened :: "'a machine_scheme user_env \<Rightarrow> addr \<Rightarrow> 'a prog" where
  "err_unopened E buf s = do {
     fs \<leftarrow> for_do 0 8 (try_close E) (0, s);
     fs \<leftarrow> for_do 2 8 (try_read E buf) fs;
     (fail, s) \<leftarrow> for_do 2 8 (try_write E buf) fs;
     verdict E ''err_unopened'' fail s
   }"

definition err_vidmap :: "'a machine_scheme user_env \<Rightarrow> 'a prog" where
  "err_vidmap E s = do {
     (r, s) \<leftarrow> ece391_vidmap E 0 s;
     (fail, s) \<leftarrow> expect_error E ''Null pointer fail\<newline>'' 0 r s;
     (r, s) \<leftarrow> ece391_vidmap E 0x400000 s;
     (fail, s) \<leftarrow> expect_error E ''Kernel pointer fail fail\<newline>'' fail r s;
     verdict E ''err_vidmap'' fail s
   }"

definition err_stdin_out :: "'a machine_scheme user_env \<Rightarrow> addr \<Rightarrow> 'a prog" where
  "err_stdin_out E buf s = do {
     (r, s) \<leftarrow> ece391_write E 0 buf 31 s;
     (fail, s) \<leftarrow> expect_error E ''write to stdin fail\<newline>'' 0 r s;
     (r, s) \<leftarrow> ece391_read E 1 buf 31 s;
     (fail, s) \<leftarrow> expect_error E ''read from stdout fail\<newline>'' fail r s;
     verdict E ''err_stdin_out'' fail s
   }"

definition err_syscall_num :: "'a machine_scheme user_env \<Rightarrow> u32 \<times> u32 \<times> u32 \<Rightarrow> 'a prog" where
  "err_syscall_num E regs s = do {
     (r, s) \<leftarrow> call_sys E regs BIG_NUM s;
     (fail, s) \<leftarrow> expect_error E ''syscall 0 fail\<newline>'' 0 r s;
     (r, s) \<leftarrow> call_sys E regs NEG_NUM s;
     (fail, s) \<leftarrow> expect_error E ''big num syscall fail\<newline>'' fail r s;
     (r, s) \<leftarrow> call_sys E regs 0 s;
     (fail, s) \<leftarrow> expect_error E ''neg num syscall fail\<newline>'' fail r s;
     verdict E ''err_syscall_num'' fail s
   }"

definition syserr_all :: "'a machine_scheme user_env \<Rightarrow> u32 \<times> u32 \<times> u32 \<Rightarrow> addr \<Rightarrow> 'a prog" where
  "syserr_all E regs buf s = do {
     (f1, s) \<leftarrow> err_neg_fd E buf s;
     (f2, s) \<leftarrow> err_big_fd E buf s;
     (f3, s) \<leftarrow> err_open_lots E s;
     (f4, s) \<leftarrow> err_open E s;
     (f5, s) \<leftarrow> err_unopened E buf s;
     (f6, s) \<leftarrow> err_vidmap E s;
     (f7, s) \<leftarrow> err_stdin_out E buf s;
     (f8, s) \<leftarrow> err_syscall_num E regs s;
     let fail = f1 + f2 + f3 + f4 + f5 + f6 + f7 + f8
     in if fail \<noteq> 0 then say_return E ''\<newline>Overall Tests: FAIL\<newline>'' fail s
        else say_return E ''\<newline>Overall Tests: PASS\<newline>'' fail s
   }"

definition syserr_main :: "'a machine_scheme user_env \<Rightarrow> u32 \<times> u32 \<times> u32 \<Rightarrow> addr \<Rightarrow> addr \<Rightarrow> 'a prog" where
  "syserr_main E regs test_buf buf s = do {
     s \<leftarrow> say E ''Choose from tests 1-8. 0 to run all: '' s;
     (cnt, s) \<leftarrow> ece391_read E 0 buf 127 s;
     if cnt = -1 then say_return E ''Can't read test #\<newline>'' 2 s
     else
       let select = uint (mem s buf) - 0x30
       in if select = 0 then syserr_all E regs test_buf s
          else if select = 1 then err_neg_fd E test_buf s
          else if select = 2 then err_big_fd E test_buf s
          else if select = 3 then err_open_lots E s
          else if select = 4 then err_open E s
          else if select = 5 then err_unopened E test_buf s
          else if select = 6 then err_vidmap E s
          else if select = 7 then err_stdin_out E test_buf s
          else if select = 8 then err_syscall_num E regs s
          else say_return E ''Invalid test number. Choose from tests 1-8 or 0'' 0 s
   }"

end
