(* ===== verification/User_On_Kernel.thy ===== *)
theory User_On_Kernel
  imports Output Syscall_Entry Syserr
begin

text \<open>
  The user programs on the kernel: \<open>int80\<close> is the kernel's entry. The lemmas about the test
  program are proved over a contract of the calls (\<open>user_output\<close>, \<open>refusing\<close>), which the
  kernel's calls are then shown to keep.
\<close>

section \<open>The contract\<close>

text \<open>The texts of the tests that have to pass.\<close>

definition pass_texts :: "string list" where
  "pass_texts = [''err_neg_fd: PASS\<newline>'', ''err_big_fd: PASS\<newline>'', ''err_unopened: PASS\<newline>'',
     ''err_vidmap: PASS\<newline>'', ''err_stdin_out: PASS\<newline>'', ''err_syscall_num: PASS\<newline>'']"

text \<open>A text of \<open>M\<close> is shown and the state stays \<open>ok\<close>.\<close>

locale user_output =
  fixes E :: "'a machine_scheme user_env"
    and ok :: "'a machine_scheme \<Rightarrow> bool"
    and view :: "'a machine_scheme \<Rightarrow> 'v"
    and vput :: "byte \<Rightarrow> 'v \<Rightarrow> 'v"
    and M :: "string set"
  assumes say: "ok s \<Longrightarrow> msg \<in> M \<Longrightarrow>
    \<exists>s'. say E msg s = Some s' \<and> ok s' \<and> view s' = fold vput (lit msg) (view s)"
begin

definition prints :: "string \<Rightarrow> 'a machine_scheme \<Rightarrow> 'a machine_scheme \<Rightarrow> bool" where
  "prints msg s s' \<longleftrightarrow> ok s' \<and> view s' = fold vput (lit msg) (view s)"

lemma verdict_pass:
  "ok s \<Longrightarrow> name @ '': PASS\<newline>'' \<in> M \<Longrightarrow>
    \<exists>s'. verdict E name 0 s = Some (0, s') \<and> prints (name @ '': PASS\<newline>'') s s'"
  using say [of s "name @ '': PASS\<newline>''"] by (auto simp: verdict_def say_return_def prints_def)

end

lemma expect_error_refused [simp]: "expect_error E msg fail (-1) s = Some (fail, s)"
  by (simp add: expect_error_def)

text \<open>The calls the tests expect to be refused are, and change nothing.\<close>

locale refusing = user_output +
  assumes bad_fd: "ok s \<Longrightarrow> fd \<in> {NEG_FD, BIG_FD} \<union> {2..<8} \<Longrightarrow> ece391_read E fd buf 31 s = Some (-1, s)"
      "ok s \<Longrightarrow> fd \<in> {NEG_FD, BIG_FD} \<union> {2..<8} \<Longrightarrow> ece391_write E fd buf 31 s = Some (-1, s)"
      "ok s \<Longrightarrow> fd \<in> {NEG_FD, BIG_FD} \<union> {0..<8} \<Longrightarrow> ece391_close E fd s = Some (-1, s)"
    and std_fd: "ok s \<Longrightarrow> ece391_write E 0 buf 31 s = Some (-1, s)" "ok s \<Longrightarrow> ece391_read E 1 buf 31 s = Some (-1, s)"
    and bad_pointer: "ok s \<Longrightarrow> a < 0x8000000 \<Longrightarrow> ece391_vidmap E a s = Some (-1, s)"
    and bad_call: "ok s \<Longrightarrow> n \<in> {NEG_NUM, 0, BIG_NUM} \<Longrightarrow> call_sys E regs n s = Some (-1, s)"
begin

lemma tests_pass:
  assumes "ok s"
  shows "''err_neg_fd: PASS\<newline>'' \<in> M \<Longrightarrow> \<exists>s'. err_neg_fd E buf s = Some (0, s') \<and> prints ''err_neg_fd: PASS\<newline>'' s s'"
    and "''err_big_fd: PASS\<newline>'' \<in> M \<Longrightarrow> \<exists>s'. err_big_fd E buf s = Some (0, s') \<and> prints ''err_big_fd: PASS\<newline>'' s s'"
    and "''err_vidmap: PASS\<newline>'' \<in> M \<Longrightarrow> \<exists>s'. err_vidmap E s = Some (0, s') \<and> prints ''err_vidmap: PASS\<newline>'' s s'"
    and "''err_stdin_out: PASS\<newline>'' \<in> M \<Longrightarrow> \<exists>s'. err_stdin_out E buf s = Some (0, s') \<and> prints ''err_stdin_out: PASS\<newline>'' s s'"
    and "''err_syscall_num: PASS\<newline>'' \<in> M \<Longrightarrow> \<exists>s'. err_syscall_num E regs s = Some (0, s') \<and> prints ''err_syscall_num: PASS\<newline>'' s s'"
  using verdict_pass [OF assms, of "''err_neg_fd''"] verdict_pass [OF assms, of "''err_big_fd''"]
    verdict_pass [OF assms, of "''err_vidmap''"] verdict_pass [OF assms, of "''err_stdin_out''"]
    verdict_pass [OF assms, of "''err_syscall_num''"]
  by (simp_all add: err_neg_fd_def err_big_fd_def err_vidmap_def err_stdin_out_def err_syscall_num_def
      bad_fd bad_pointer std_fd bad_call assms)

lemma for_do_same:
  "(\<And>i. i \<in> set [lo..<hi] \<Longrightarrow> body i s = Some s) \<Longrightarrow> for_do lo hi body s = Some s"
  by (induction hi) (auto simp: for_do_def)

lemma unopened_pass:
  assumes "ok s" and "''err_unopened: PASS\<newline>'' \<in> M"
  shows "\<exists>s'. err_unopened E buf s = Some (0, s') \<and> prints ''err_unopened: PASS\<newline>'' s s'"
proof -
  have close: "ece391_close E (int i) s = Some (-1, s)" if "i < 8" for i
    using bad_fd(3) [OF assms(1), of "int i"] that by simp
  have rw: "ece391_read E (int i) buf 31 s = Some (-1, s)" "ece391_write E (int i) buf 31 s = Some (-1, s)"
    if "2 \<le> i" "i < 8" for i
    using bad_fd(1,2) [OF assms(1), of "int i"] that by simp_all
  have "for_do 0 8 (try_close E) (0, s) = Some (0, s)"
    by (rule for_do_same) (simp only: set_upt atLeastLessThan_iff, simp add: try_close_def close)
  moreover have "for_do 2 8 (try_read E buf) (0, s) = Some (0, s)" "for_do 2 8 (try_write E buf) (0, s) = Some (0, s)"
    by (rule for_do_same, simp only: set_upt atLeastLessThan_iff, simp add: try_read_def try_write_def rw)+
  ultimately
  show ?thesis using verdict_pass [OF assms(1), of "''err_unopened''"] assms(2) by (simp add: err_unopened_def)
qed

lemma all_pass:
  assumes "ok s" and "set pass_texts \<subseteq> M" and "i < 6"
  shows "\<exists>s'. ([err_neg_fd E buf, err_big_fd E buf, err_unopened E buf, err_vidmap E,
      err_stdin_out E buf, err_syscall_num E regs] ! i) s = Some (0, s') \<and> prints (pass_texts ! i) s s'"
proof -
  have n: "pass_texts ! 0 = ''err_neg_fd: PASS\<newline>''" "pass_texts ! 1 = ''err_big_fd: PASS\<newline>''"
    "pass_texts ! 2 = ''err_unopened: PASS\<newline>''" "pass_texts ! 3 = ''err_vidmap: PASS\<newline>''"
    "pass_texts ! 4 = ''err_stdin_out: PASS\<newline>''" "pass_texts ! 5 = ''err_syscall_num: PASS\<newline>''"
    "length pass_texts = 6"
    by (simp_all add: pass_texts_def)
  have M: "pass_texts ! i \<in> M" if "i < 6" for i using assms(2) that nth_mem [of i pass_texts] by (auto simp: n(7))
  consider "i = 0" | "i = 1" | "i = 2" | "i = 3" | "i = 4" | "i = 5" using assms(3) by linarith
  then show ?thesis
  proof cases
    case 1 then show ?thesis using tests_pass(1) [OF assms(1)] M [of 0] by (simp add: n)
  next case 2 then show ?thesis using tests_pass(2) [OF assms(1)] M [of 1] n(2) by simp
  next case 3 then show ?thesis using unopened_pass [OF assms(1)] M [of 2] n(3) by simp
  next case 4 then show ?thesis using tests_pass(3) [OF assms(1)] M [of 3] n(4) by simp
  next case 5 then show ?thesis using tests_pass(4) [OF assms(1)] M [of 4] n(5) by simp
  next case 6 then show ?thesis using tests_pass(5) [OF assms(1)] M [of 5] n(6) by simp
  qed
qed

end

section \<open>The kernel keeps it\<close>

text \<open>A result in the range of \<open>int32_t\<close> comes back through the registers unchanged.\<close>

definition int32 :: "int \<Rightarrow> bool" where
  "int32 k \<longleftrightarrow> - 2147483648 \<le> k \<and> k < 2147483648"

lemma int32_sint [simp]: "int32 k \<Longrightarrow> sint (word_of_int k :: u32) = k"
  by (simp add: int32_def)

lemma kernel_read:
  "sys_read (kirqs K s) fd buf n s = Some (r, s') \<Longrightarrow> int32 fd \<Longrightarrow> int32 n \<Longrightarrow> int32 r
    \<Longrightarrow> ece391_read (kernel_env K resume data) fd buf n s = Some (r, s')"
  by (simp add: ece391_read_def DO_CALL_def kernel_env_def syc_handler_def syc_jumptable_def returning_def)

lemma kernel_write:
  "sys_write (kframe K) fd buf n s = Some (r, s') \<Longrightarrow> int32 fd \<Longrightarrow> int32 n \<Longrightarrow> int32 r
    \<Longrightarrow> ece391_write (kernel_env K resume data) fd buf n s = Some (r, s')"
  by (simp add: ece391_write_def DO_CALL_def kernel_env_def syc_handler_def syc_jumptable_def returning_def)

lemma kernel_open:
  "sys_open (kframe K) f s = Some (r, s') \<Longrightarrow> int32 r \<Longrightarrow> ece391_open (kernel_env K resume data) f s = Some (r, s')"
  by (simp add: ece391_open_def DO_CALL_def kernel_env_def syc_handler_def syc_jumptable_def returning_def)

lemma kernel_close:
  "sys_close fd s = (r, s') \<Longrightarrow> int32 fd \<Longrightarrow> int32 r
    \<Longrightarrow> ece391_close (kernel_env K resume data) fd s = Some (r, s')"
  by (simp add: ece391_close_def DO_CALL_def kernel_env_def syc_handler_def syc_jumptable_def returning_def)

lemma kernel_getargs:
  "getargs buf n s = Some (r, s') \<Longrightarrow> int32 n \<Longrightarrow> int32 r
    \<Longrightarrow> ece391_getargs (kernel_env K resume data) buf n s = Some (r, s')"
  by (simp add: ece391_getargs_def DO_CALL_def kernel_env_def syc_handler_def syc_jumptable_def returning_def)

lemma kernel_set_handler: "ece391_set_handler (kernel_env K resume data) n h s = Some (-1, s)"
  by (simp add: ece391_set_handler_def DO_CALL_def kernel_env_def syc_handler_def syc_jumptable_def returning_def set_handler_def)

lemma kernel_vidmap:
  "vidmap a s = (r, s') \<Longrightarrow> int32 r \<Longrightarrow> ece391_vidmap (kernel_env K resume data) a s = Some (r, s')"
  by (simp add: ece391_vidmap_def DO_CALL_def kernel_env_def syc_handler_def syc_jumptable_def returning_def)

lemma kernel_bad_call:
  "int32 n \<Longrightarrow> n < 1 \<or> n > 10 \<Longrightarrow> call_sys (kernel_env K resume data) regs n s = Some (-1, s)"
  by (auto simp: call_sys_def DO_CALL_def kernel_env_def syc_handler_def split: prod.split)

section \<open>Texts on the standard output\<close>

lemma console_only_proc:
  fixes s :: "'a fs_state_scheme"
  assumes "console_only s s'"
  shows "pcbs s' = pcbs s" "now_pcb s' = now_pcb s" "colour s' = colour s"
proof -
  show p: "pcbs s' = pcbs s" using assms unfolding console_only_def by (drule_tac arg_cong [of _ _ pcbs]) simp
  show "now_pcb s' = now_pcb s" "colour s' = colour s"
    using console_only_frame [OF assms] by (simp_all add: p pcb_of_term_def)
qed

text \<open>
  The displayed terminal's process, with the standard descriptors; the literals of \<open>M\<close> are in
  its image, clear of the screen and of the kernel stack where \<open>term_write\<close> copies them.
\<close>

definition literal_at :: "addr set \<Rightarrow> mem \<Rightarrow> addr \<Rightarrow> byte list \<Rightarrow> bool" where
  "literal_at W m a xs \<longleftrightarrow> a \<noteq> 0 \<and> cstr m a xs \<and> length xs \<le> 100 \<and> 0x25 \<notin> set xs \<and> run a (Suc (length xs)) \<inter> W = {}"

definition user_ok :: "'a kenv \<Rightarrow> (string \<Rightarrow> addr) \<Rightarrow> string set \<Rightarrow> byte \<Rightarrow> 'a fs_state_scheme \<Rightarrow> bool" where
  "user_ok K data M k s \<longleftrightarrow> cursor_ok s \<and> now_term_id s = cur_term_id s \<and> colour s = k \<and> fd_inv (now_pcb s)
     \<and> run (temp_buf_at (kframe K)) 101 \<inter> page VIDEO = {}
     \<and> (\<forall>msg \<in> M. literal_at (page VIDEO \<union> run (temp_buf_at (kframe K)) 101) (mem s) (data msg) (lit msg))"

lemma literal_at_cong:
  assumes l: "literal_at W m a xs" and m: "\<And>x. x \<notin> W \<Longrightarrow> m' x = m x"
  shows "literal_at W m' a xs"
proof -
  have "x \<notin> W" if "x \<in> run a (Suc (length xs))" for x using l that unfolding literal_at_def by blast
  then have "cstr m' a xs = cstr m a xs" using m by (intro cstr_cong) simp
  then show ?thesis using l by (simp add: literal_at_def)
qed

lemma user_okD:
  assumes "user_ok K data M k s"
  shows "cursor_ok s" "now_term_id s = cur_term_id s" "colour s = k" "fd_inv (now_pcb s)"
    "run (temp_buf_at (kframe K)) 101 \<inter> page VIDEO = {}"
    "msg \<in> M \<Longrightarrow> literal_at (page VIDEO \<union> run (temp_buf_at (kframe K)) 101) (mem s) (data msg) (lit msg)"
  using assms unfolding user_ok_def by blast+

lemma user_ok_console:
  assumes "user_ok K data M k s" and "console_only s s'" and "cursor_ok s'"
    and "\<And>x. x \<notin> page VIDEO \<union> run (temp_buf_at (kframe K)) 101 \<Longrightarrow> mem s' x = mem s x"
  shows "user_ok K data M k s'"
  unfolding user_ok_def console_only_proc(2,3) [OF assms(2)]
  unfolding console_only_frame [OF assms(2)]
proof (intro conjI ballI)
  fix msg assume "msg \<in> M"
  then have "literal_at (page VIDEO \<union> run (temp_buf_at (kframe K)) 101) (mem s) (data msg) (lit msg)"
    by (rule user_okD [OF assms(1)])
  then show "literal_at (page VIDEO \<union> run (temp_buf_at (kframe K)) 101) (mem s') (data msg) (lit msg)"
    using assms(4) by (rule literal_at_cong)
qed (rule assms(3) user_okD [OF assms(1)])+

text \<open>A text written to the standard output.\<close>

lemma stdout_write:
  assumes "fd_inv (now_pcb s)"
  shows "sys_write fr 1 a n s = (if a = 0 then Some (-1, s) else term_write (temp_buf_at fr) (conv_at fr) (args_at fr) a n s)"
  using assms by (simp add: sys_write_def MAX_FILE_NUM_def fd_inv_def stdout_fop_def)

lemma fdputs_shows:
  assumes ok: "user_ok K data M k s" and a: "literal_at (page VIDEO \<union> run (temp_buf_at (kframe K)) 101) (mem s) a xs"
  shows "\<exists>s'. ece391_fdputs (kernel_env K resume data) 1 a s = Some s' \<and> user_ok K data M k s'
    \<and> shown s' = fold (vga_put (0x20, k) (\<lambda>c. (c, k))) xs (shown s) \<and> console_only s s'
    \<and> (\<forall>x. x \<notin> page VIDEO \<union> run (temp_buf_at (kframe K)) 101 \<longrightarrow> mem s' x = mem s x)"
proof -
  let ?t = "temp_buf_at (kframe K)" and ?n = "int (length xs)"
  define s1 where "s1 = s\<lparr>mem := store (mem s) ?t (xs @ [0])\<rparr>"
  have o: "cursor_ok s" "now_term_id s = cur_term_id s" "colour s = k" "fd_inv (now_pcb s)" "run ?t 101 \<inter> page VIDEO = {}"
    by (rule user_okD [OF ok])+
  have l: "a \<noteq> 0" "cstr (mem s) a xs" "length xs \<le> 100" "0x25 \<notin> set xs" "run a (Suc (length xs)) \<inter> (page VIDEO \<union> run ?t 101) = {}"
    using a by (simp_all add: literal_at_def)
  have sub: "run ?t (Suc (nat ?n)) \<subseteq> run ?t 101" "run a (nat ?n) \<subseteq> run a (Suc (length xs))"
    using run_subset [of 0 "Suc (nat ?n)" 101 ?t] run_subset [of 0 "nat ?n" "Suc (length xs)" a] l(3) by simp_all
  have "run ?t (Suc (nat ?n)) \<inter> run a (nat ?n) = {}" "run ?t (Suc (nat ?n)) \<inter> page VIDEO = {}"
    using sub l(5) o(5) by blast+
  then have "term_write ?t (conv_at (kframe K)) (args_at (kframe K)) a ?n s = Some (?n, fold putc xs s1)"
    using term_write_eq [OF o(1,2) l(1), of ?n xs ?t] l(3,4) str_prefix_cstr [OF l(2), of "nat ?n"] by (simp add: s1_def)
  then have "sys_write (kframe K) 1 a ?n s = Some (?n, fold putc xs s1)" using l(1) by (simp add: stdout_write o(4))
  then have "ece391_write (kernel_env K resume data) 1 a ?n s = Some (?n, fold putc xs s1)"
    using l(3) by (intro kernel_write) (simp_all add: int32_def)
  moreover have "sint (of_nat (length xs) :: u32) = ?n" using sint_of_int_u32 [of ?n] l(3) by simp
  ultimately have puts: "ece391_fdputs (kernel_env K resume data) 1 a s = Some (fold putc xs s1)"
    using strlen_cstr [OF l(2)] by (simp add: ece391_fdputs_def ece391_strlen_eq)
  have m1: "mem s1 x = mem s x" if "x \<notin> run ?t 101" for x
    using that sub(1) store_outside_run [of x ?t "xs @ [0]" "mem s"] by (auto simp: s1_def)
  have "\<forall>x \<in> page VIDEO. store (mem s) ?t (xs @ [0]) x = mem s x" using m1 o(5) by (simp add: s1_def) blast
  then have "shown s1 = shown s" unfolding s1_def by (rule shown_upd)
  then have s1: "cursor_ok s1" "shown s1 = shown s" "colour s1 = k" "console_only s s1"
    using o(1,3) by (simp_all add: s1_def)
  have f: "cursor_ok (fold putc xs s1)" "shown (fold putc xs s1) = fold (vga_put (0x20, k) (\<lambda>c. (c, k))) xs (shown s)"
    using fold_putc(1,2) [OF s1(1), of xs] s1 by simp_all
  have m: "mem (fold putc xs s1) x = mem s x" if "x \<notin> page VIDEO \<union> run ?t 101" for x
    using fold_putc(3) [OF s1(1), of x xs] m1 that by simp
  have c: "console_only s (fold putc xs s1)" using s1(4) by simp
  show ?thesis using puts f m c user_ok_console [OF ok c f(1) m] by blast
qed

definition fresh :: "pcb \<Rightarrow> bool" where
  "fresh p \<longleftrightarrow> (\<forall>fd. 2 \<le> fd \<longrightarrow> fd < 8 \<longrightarrow> flags (fds p fd) = 0)"

lemmas io_defs = NEG_FD_def BIG_FD_def NEG_NUM_def BIG_NUM_def int32_def MAX_FILE_NUM_def

interpretation kernel_user: refusing "kernel_env K resume data" "\<lambda>s. user_ok K data M k s \<and> fresh (now_pcb s)" shown
    "vga_put (0x20, k) (\<lambda>c. (c, k))" M for K resume data M k
proof unfold_locales
  let ?E = "kernel_env K resume data" and ?ok = "\<lambda>s. user_ok K data M k s \<and> fresh (now_pcb s)"
  fix s :: "'a fs_state_scheme" and msg buf a fd n regs
  assume ok: "?ok s"
  have std: "fd_inv (now_pcb s)" by (rule user_okD [of K data M k]) (use ok in blast)
  have free: "flags (fds (now_pcb s) (nat fd)) = 0" if "2 \<le> fd" "fd < 8" for fd :: int
    using ok that by (auto simp: fresh_def)
  show "\<exists>s'. say ?E msg s = Some s' \<and> ?ok s' \<and> shown s' = fold (vga_put (0x20, k) (\<lambda>c. (c, k))) (lit msg) (shown s)"
    if m: "msg \<in> M"
  proof -
    obtain s' where s': "ece391_fdputs ?E 1 (data msg) s = Some s'" "user_ok K data M k s'"
      "shown s' = fold (vga_put (0x20, k) (\<lambda>c. (c, k))) (lit msg) (shown s)" "console_only s s'"
      using fdputs_shows [of K data M k s "data msg" "lit msg" resume] user_okD(6) [of K data M k s msg] ok m by blast
    then have "fresh (now_pcb s')" using ok console_only_proc(2) [OF s'(4)] by simp
    moreover have "ro_data ?E msg = data msg" by (simp add: kernel_env_def)
    ultimately show ?thesis using s' by simp
  qed
  show "ece391_read ?E fd buf 31 s = Some (-1, s)" if "fd \<in> {NEG_FD, BIG_FD} \<union> {2..<8}"
    by (rule kernel_read) (use that free in \<open>auto simp: sys_read_def io_defs\<close>)
  show "ece391_write ?E fd buf 31 s = Some (-1, s)" if "fd \<in> {NEG_FD, BIG_FD} \<union> {2..<8}"
    by (rule kernel_write) (use that free in \<open>auto simp: sys_write_def io_defs\<close>)
  show "ece391_close ?E fd s = Some (-1, s)" if "fd \<in> {NEG_FD, BIG_FD} \<union> {0..<8}"
    by (rule kernel_close) (use that free in \<open>auto simp: sys_close_def io_defs Let_def\<close>)
  show "ece391_write ?E 0 buf 31 s = Some (-1, s)"
    by (rule kernel_write) (use std in \<open>simp_all add: sys_write_def io_defs fd_inv_def stdin_fop_def operation_error_def\<close>)
  show "ece391_read ?E 1 buf 31 s = Some (-1, s)"
    by (rule kernel_read) (use std in \<open>simp_all add: sys_read_def io_defs fd_inv_def stdout_fop_def operation_error_def\<close>)
  show "ece391_vidmap ?E a s = Some (-1, s)" if "a < 0x8000000"
    by (rule kernel_vidmap) (use that in \<open>simp_all add: vidmap_def int32_def\<close>)
  show "call_sys ?E regs n s = Some (-1, s)" if "n \<in> {NEG_NUM, 0, BIG_NUM}"
    by (rule kernel_bad_call) (use that in \<open>auto simp: io_defs\<close>)
qed

section \<open>The test program passes\<close>

text \<open>C24: on this kernel the test program's calls with descriptors out of range, not open or of
  the wrong direction, with pointers outside the program's page, and with numbers outside the jump
  table are all refused: in a process that has opened nothing, each of these six tests returns 0
  and shows its "PASS" on the displayed terminal.\<close>

theorem syserr_tests_pass:
  assumes "user_ok K data (set pass_texts) k s" and "fresh (now_pcb s)" and "E = kernel_env K resume data"
    and "t = pass_texts ! i" and "i < 6"
  shows "\<exists>s'. ([err_neg_fd E buf, err_big_fd E buf, err_unopened E buf, err_vidmap E,
      err_stdin_out E buf, err_syscall_num E regs] ! i) s = Some (0, s')
    \<and> shown s' = fold (vga_put (0x20, k) (\<lambda>c. (c, k))) (lit t) (shown s)"
  using kernel_user.all_pass [of K data "set pass_texts" k s i resume buf regs] assms
  by (simp add: kernel_user.prints_def) blast

text \<open>Texts laid out in slots of 32 bytes.\<close>

definition slots :: "addr \<Rightarrow> byte list list \<Rightarrow> mem" where
  "slots base ts x = (let d = unat (x - base) in if d < 32 * length ts then pad_to 32 (ts ! (d div 32)) ! (d mod 32) else 0)"

lemma slots_cstr:
  assumes "i < length ts" and "length (ts ! i) < 32" and "0 \<notin> set (ts ! i)" and "32 * length ts < 4294967296"
  shows "cstr (slots base ts) (base + of_nat (32 * i)) (ts ! i)"
proof -
  have at: "slots base ts (base + of_nat (32 * i) + of_nat j) = pad_to 32 (ts ! i) ! j" if "j < 32" for j
  proof -
    have "base + of_nat (32 * i) + of_nat j - base = of_nat (32 * i + j)" by simp
    moreover have "32 * i + j < 32 * length ts" using assms(1) that by simp
    ultimately have "unat (base + of_nat (32 * i) + of_nat j - base) = 32 * i + j"
      using assms(4) unat_of_nat_u32 [of "32 * i + j"] by simp
    then show ?thesis using that \<open>32 * i + j < 32 * length ts\<close> by (simp add: slots_def Let_def del: mult_Suc_right)
  qed
  have "load (slots base ts) (base + of_nat (32 * i)) (length (ts ! i)) = ts ! i"
    using assms(2) by (intro nth_equalityI) (simp_all add: at [simplified] pad_to_def nth_append)
  then show ?thesis using assms(2,3) at [of "length (ts ! i)"] by (simp add: cstr_def pad_to_def nth_append)
qed

definition slot_of :: "string list \<Rightarrow> addr \<Rightarrow> string \<Rightarrow> addr" where
  "slot_of ts base t = base + of_nat (32 * length (takeWhile (\<lambda>u. u \<noteq> t) ts))"

lemma slot_literal:
  assumes "t \<in> set ts" and "\<forall>t \<in> set ts. length t < 32 \<and> 0 \<notin> set (lit t) \<and> 0x25 \<notin> set (lit t)"
    and "unat base + 32 * length ts \<le> 4294967296" and "0x800000 \<le> unat base"
    and W: "\<forall>x \<in> W. unat x < 0x800000"
  shows "literal_at W (slots base (map lit ts)) (slot_of ts base t) (lit t)"
proof -
  let ?i = "length (takeWhile (\<lambda>u. u \<noteq> t) ts)"
  have i: "?i < length ts" "ts ! ?i = t"
  proof -
    show lt: "?i < length ts"
      using assms(1) length_takeWhile_le [of "\<lambda>u. u \<noteq> t" ts] takeWhile_eq_all_conv [of "\<lambda>u. u \<noteq> t" ts]
      by (metis order_le_imp_less_or_eq takeWhile_eq_take take_all_iff order_refl)
    show "ts ! ?i = t" using nth_length_takeWhile [OF lt] by blast
  qed
  have t: "length (lit t) < 32" "0 \<notin> set (lit t)" "0x25 \<notin> set (lit t)" using assms(1,2) by (simp_all add: lit_def)
  have u: "unat (slot_of ts base t) = unat base + 32 * ?i"
    using i(1) assms(3) by (simp add: slot_of_def unat_word_ariths unat_of_nat)
  have "cstr (slots base (map lit ts)) (slot_of ts base t) (lit t)"
    using slots_cstr [of ?i "map lit ts" base] i t assms(3,4) by (simp add: slot_of_def)
  moreover have "0x800000 \<le> unat x" if x: "x \<in> run (slot_of ts base t) (Suc (length (lit t)))" for x
  proof -
    obtain j where j: "j < Suc (length (lit t))" "x = slot_of ts base t + of_nat j" using x by blast
    then have "unat x = unat (slot_of ts base t) + j"
      using u t(1) i(1) assms(3) by (simp add: unat_word_ariths unat_of_nat)
    then show ?thesis using u assms(4) by simp
  qed
  moreover have "slot_of ts base t \<noteq> 0" using u assms(4) by auto
  ultimately show ?thesis using t(1,3) W unfolding literal_at_def by fastforce
qed

definition example_kenv :: "unit kenv" where
  "example_kenv = \<lparr>klits = (\<lambda>_. 0), kframe = \<lparr>temp_buf_at = 0x7FF000, conv_at = 0x7FE000, args_at = 0x7FD000, dentry_at = 0x7FC000\<rparr>,
     kexec = example_frame, kirqs = (\<lambda>_. [])\<rparr>"

definition on_display :: "mem \<Rightarrow> fs_state" where
  "on_display m = (shell_boot m)\<lparr>now_term_id := 0\<rparr>"

lemma example_area: "x \<in> page VIDEO \<union> run 0x7FF000 101 \<Longrightarrow> unat x < 0x800000"
  by (auto simp: VIDEO_def unat_word_ariths unat_of_nat)

lemma on_display_cursor: "cursor_ok (on_display m)" "cursor_ok (shell_boot m)"
  by (simp_all add: on_display_def shell_boot_def cursor_ok_def fs_boot_def proc_boot_def kbd_boot_def
      console_boot_def paging_boot_def pic_boot_def pic_state.defs paging_state.defs console_state.defs
      kbd_state.defs proc_state.defs fs_state.defs)

lemma on_display_ok:
  assumes "\<forall>t \<in> set ts. length t < 32 \<and> 0 \<notin> set (lit t) \<and> 0x25 \<notin> set (lit t)" and "length ts < 1000"
  shows "user_ok example_kenv (slot_of ts 0x8050000) (set ts) 0xD (on_display (slots 0x8050000 (map lit ts)))"
    "fresh (now_pcb (on_display (slots 0x8050000 (map lit ts))))"
proof -
  have "run 0x7FF000 101 \<inter> page VIDEO = {}" by (rule runs_apart) (simp_all add: VIDEO_def)
  moreover have "\<forall>t \<in> set ts. literal_at (page VIDEO \<union> run 0x7FF000 101) (slots 0x8050000 (map lit ts)) (slot_of ts 0x8050000 t) (lit t)"
    using slot_literal [OF _ assms(1), of _ "0x8050000"] assms(2) example_area by simp
  ultimately show "user_ok example_kenv (slot_of ts 0x8050000) (set ts) 0xD (on_display (slots 0x8050000 (map lit ts)))"
    using std_pcb_ok on_display_cursor by (simp add: user_ok_def example_kenv_def on_display_def attrib_of_def)
  show "fresh (now_pcb (on_display (slots 0x8050000 (map lit ts))))" by (simp add: fresh_def on_display_def std_pcb_def no_pcb_def)
qed

lemma pass_texts_ok: "\<forall>t \<in> set pass_texts. length t < 32 \<and> 0 \<notin> set (lit t) \<and> 0x25 \<notin> set (lit t)"
  by (simp add: pass_texts_def)

theorem syserr_tests_pass_witness:
  "\<exists>s'. err_vidmap (kernel_env example_kenv (\<lambda>_. None) (slot_of pass_texts 0x8050000))
      (on_display (slots 0x8050000 (map lit pass_texts))) = Some (0, s')"
proof -
  have "length pass_texts < 1000" by (simp add: pass_texts_def)
  note ok = on_display_ok [OF pass_texts_ok this]
  show ?thesis using syserr_tests_pass [OF ok(1) ok(2) refl refl, where i = 3 and resume = "\<lambda>_. None"] by auto
qed

end
