(* ===== verification/Execute.thy ===== *)
theory Execute
  imports Exec_Example
begin

text \<open>
  \<open>execute\<close> succeeds: on a well-formed image, a command that names an executable file, with a free
  process slot, enters the program with its image loaded and its arguments kept for \<open>getargs\<close>.
\<close>

section \<open>A file in the image\<close>

definition dir_area :: "'a fs_state_scheme \<Rightarrow> addr set" where
  "dir_area s = (\<Union>i<63. run (dentry_addr s (of_nat i)) 40)"

definition image_area :: "'a fs_state_scheme \<Rightarrow> mem \<Rightarrow> u32 \<Rightarrow> addr set" where
  "image_area s m ino = dir_area s \<union> file_area s m ino"

definition holds_file :: "'a fs_state_scheme \<Rightarrow> mem \<Rightarrow> byte list \<Rightarrow> u32 \<Rightarrow> bool" where
  "holds_file s m name ino \<longleftrightarrow> dir_ok s m \<and> inode_ok s m ino
     \<and> (\<exists>i. find (\<lambda>i. dentry_name s m i = name) [0..<63] = Some i \<and> dentry_inode m (dentry_addr s (of_nat i)) = ino)"

lemma dentry_same:
  assumes "\<And>x. x \<in> dir_area s \<Longrightarrow> m' x = m x" and "i < 63"
  shows "dentry_filetype m' (dentry_addr s (of_nat i)) = dentry_filetype m (dentry_addr s (of_nat i))"
    "dentry_inode m' (dentry_addr s (of_nat i)) = dentry_inode m (dentry_addr s (of_nat i))"
    "dentry_name s m' i = dentry_name s m i"
proof -
  let ?a = "dentry_addr s (of_nat i)"
  have same: "m' x = m x" if "x \<in> run ?a 40" for x
    by (rule assms(1)) (use that assms(2) in \<open>unfold dir_area_def, blast\<close>)
  have in32: "run ?a 32 \<subseteq> run ?a 40" and in4: "run (?a + 32) 4 \<subseteq> run ?a 40" "run (?a + 36) 4 \<subseteq> run ?a 40"
    using run_subset [of 0 32 40 ?a] run_subset [of 32 4 40 ?a] run_subset [of 36 4 40 ?a] by simp_all
  show "dentry_filetype m' ?a = dentry_filetype m ?a" "dentry_inode m' ?a = dentry_inode m ?a"
    unfolding dentry_filetype_def dentry_inode_def using in4 by (auto intro!: load32_cong same)
  show "dentry_name s m' i = dentry_name s m i"
    unfolding dentry_name_def using in32 by (intro str_prefix_cong same) blast
qed

lemma holds_file_cong:
  assumes "\<And>x. x \<in> image_area s m ino \<Longrightarrow> m' x = m x" and "holds_file s m name ino"
  shows "holds_file s m' name ino" "file_content s m' ino = file_content s m ino"
    "image_area s m' ino = image_area s m ino"
    "find (\<lambda>i. dentry_name s m' i = name) [0..<63] = find (\<lambda>i. dentry_name s m i = name) [0..<63]"
    "i < 63 \<Longrightarrow> dentry_filetype m' (dentry_addr s (of_nat i)) = dentry_filetype m (dentry_addr s (of_nat i))"
proof -
  have fa: "m' x = m x" if "x \<in> file_area s m ino" for x by (rule assms(1)) (simp add: image_area_def that)
  have da: "m' x = m x" if "x \<in> dir_area s" for x by (rule assms(1)) (simp add: image_area_def that)
  have ok: "dir_ok s m" "inode_ok s m ino" using assms(2) by (simp_all add: holds_file_def)
  note fc = file_content_cong [OF fa ok(2)]
  note ds = dentry_same [where s = s and m' = m' and m = m, OF da]
  show "file_content s m' ino = file_content s m ino" by (rule fc(1))
  show "image_area s m' ino = image_area s m ino" by (simp add: image_area_def fc(3))
  have d: "dir_ok s m'" using ok(1) ds(1) by (simp add: dir_ok_def)
  show f: "find (\<lambda>i. dentry_name s m' i = name) [0..<63] = find (\<lambda>i. dentry_name s m i = name) [0..<63]"
    using ds(3) by (intro find_cong) auto
  show "i < 63 \<Longrightarrow> dentry_filetype m' (dentry_addr s (of_nat i)) = dentry_filetype m (dentry_addr s (of_nat i))"
    by (rule ds(1))
  have "dentry_inode m' (dentry_addr s (of_nat i)) = dentry_inode m (dentry_addr s (of_nat i))"
    if "find (\<lambda>i. dentry_name s m i = name) [0..<63] = Some i" for i
    using that by (intro ds(2)) (auto simp: find_Some_iff)
  with f show "holds_file s m' name ino" using assms(2) fc(2) d by (auto simp: holds_file_def)
qed

text \<open>The image does not depend on the rest of the state.\<close>

lemma image_frame:
  assumes "inodeblk s' = inodeblk s" "first_datablk s' = first_datablk s" "bootblk s' = bootblk s" "fs_dentry s' = fs_dentry s"
  shows "holds_file s' = holds_file s" "file_content s' = file_content s" "image_area s' = image_area s"
proof -
  have d: "dentry_addr s' = dentry_addr s" using assms(4) by (simp add: dentry_addr_def fun_eq_iff)
  then show "holds_file s' = holds_file s" "file_content s' = file_content s" "image_area s' = image_area s"
    using fs_frame [OF assms(1-3)]
    by (simp_all add: holds_file_def image_area_def dir_area_def dir_ok_def dentry_name_def fun_eq_iff)
qed

text \<open>Looking the file up and reading it, into memory clear of the image.\<close>

lemma holds_file_entry:
  assumes "holds_file s (mem s) name ino" and "cstr (mem s) fname name" "name \<noteq> []" "length name \<le> 32"
    and "fname \<noteq> 0" "d \<noteq> 0" and "run d 40 \<inter> image_area s (mem s) ino = {}"
  obtains m i where "read_dentry_by_name fname d s = Some (0, s\<lparr>mem := m\<rparr>)" "dentry_inode m d = ino"
    "\<And>x. x \<notin> run d 40 \<Longrightarrow> m x = mem s x" "find (\<lambda>i. dentry_name s (mem s) i = name) [0..<63] = Some i"
    "dentry_filetype m d = dentry_filetype (mem s) (dentry_addr s (of_nat i))"
proof -
  obtain i where i: "find (\<lambda>i. dentry_name s (mem s) i = name) [0..<63] = Some i"
      "dentry_inode (mem s) (dentry_addr s (of_nat i)) = ino" and dir: "dir_ok s (mem s)"
    using assms(1) by (auto simp: holds_file_def)
  then have i63: "i < 63" by (auto simp: find_Some_iff)
  obtain xs where xs: "cstr (mem s) (dentry_addr s (of_nat i)) xs" "length xs \<le> 35" by (rule dir_ok_name [OF dir i63])
  have "run d 40 \<inter> run (dentry_addr s (of_nat i)) 40 = {}"
    using assms(7) i63 unfolding image_area_def dir_area_def by blast
  then obtain m where m: "copy_dentry d (dentry_addr s (of_nat i)) (mem s) = Some m"
      "dentry_inode m d = dentry_inode (mem s) (dentry_addr s (of_nat i))" "\<And>x. x \<notin> run d 40 \<Longrightarrow> m x = mem s x"
      "dentry_filetype m d = dentry_filetype (mem s) (dentry_addr s (of_nat i))"
    using copy_dentry_eq [OF xs] by blast
  then have "read_dentry_by_name fname d s = Some (0, s\<lparr>mem := m\<rparr>)"
    using read_dentry_by_name_find [OF dir assms(2-6)] i(1) by simp
  then show thesis using that m i by simp
qed

lemma holds_file_lookup:
  assumes "holds_file s (mem s) name ino" and "cstr (mem s) fname name" "name \<noteq> []" "length name \<le> 32"
    and "fname \<noteq> 0" "d \<noteq> 0" and "run d 40 \<inter> image_area s (mem s) ino = {}"
  obtains m where "read_dentry_by_name fname d s = Some (0, s\<lparr>mem := m\<rparr>)" "dentry_inode m d = ino"
    "\<And>x. x \<notin> run d 40 \<Longrightarrow> m x = mem s x"
  using holds_file_entry [OF assms] by metis

lemma holds_file_read:
  assumes "holds_file s (mem s) name ino" and "run buf (unat len) \<inter> image_area s (mem s) ino = {}"
    and "unat len < 2147483648" "buf \<noteq> 0"
  shows "read_data ino 0 buf len s = (let out = take (unat len) (file_content s (mem s) ino)
    in (int (length out), s\<lparr>mem := store (mem s) buf out\<rparr>))"
  using read_data_eq [of s ino buf len 0] assms by (simp add: holds_file_def image_area_def Int_Un_distrib)

section \<open>The memory \<open>execute\<close> works in\<close>

fun apart :: "addr set list \<Rightarrow> bool" where
  "apart [] = True"
| "apart (A # As) \<longleftrightarrow> (\<forall>B \<in> set As. A \<inter> B = {}) \<and> apart As"

lemma apart_nth: "apart As \<Longrightarrow> i < j \<Longrightarrow> j < length As \<Longrightarrow> As ! i \<inter> As ! j = {}"
proof (induction As arbitrary: i j)
  case (Cons A As)
  obtain j' where j: "j = Suc j'" "j' < length As" using Cons.prems by (cases j) auto
  show ?case
  proof (cases i)
    case 0
    then show ?thesis using Cons.prems(1) j by auto
  next
    case (Suc i')
    then show ?thesis using Cons.IH [of i' j'] Cons.prems j by simp
  qed
qed simp

text \<open>
  The command, the local arrays, the image and the program's place at \<open>0x08048000\<close> do not overlap.
\<close>

definition exec_areas :: "exec_frame \<Rightarrow> addr \<Rightarrow> nat \<Rightarrow> addr set \<Rightarrow> nat \<Rightarrow> addr set list" where
  "exec_areas fr command n I k =
     [run command n, run (filename_at fr) 32, run (fileargs_at fr) 100, run (headerbuf_at fr) 40,
      run (magicnumber_at fr) 4, run (loader_at fr) 40, run (magic_dentry_at fr) 40, I, run 0x08048000 k]"

definition exec_memory :: "exec_frame \<Rightarrow> addr \<Rightarrow> nat \<Rightarrow> addr set \<Rightarrow> nat \<Rightarrow> bool" where
  "exec_memory fr command n I k \<longleftrightarrow> apart (exec_areas fr command n I k)
     \<and> 0 \<notin> {command, filename_at fr, headerbuf_at fr, loader_at fr, magic_dentry_at fr}"

lemma exec_areas_apart:
  assumes "exec_memory fr command n I k" and "i < j" "j < 9"
  shows "exec_areas fr command n I k ! i \<inter> exec_areas fr command n I k ! j = {}"
  by (rule apart_nth) (use assms in \<open>simp_all add: exec_memory_def exec_areas_def\<close>)

lemma exec_memory_apart:
  assumes "exec_memory fr command n I k"
  shows "run (filename_at fr) 32 \<inter> run command n = {}" "run (fileargs_at fr) 100 \<inter> run command n = {}"
    "run (magicnumber_at fr) 4 \<inter> run command n = {}" "run (filename_at fr) 32 \<inter> run (fileargs_at fr) 100 = {}"
    "run (filename_at fr) 32 \<inter> run (headerbuf_at fr) 40 = {}" "run (fileargs_at fr) 100 \<inter> run (headerbuf_at fr) 40 = {}"
    "run (filename_at fr) 32 \<inter> run (magicnumber_at fr) 4 = {}" "run (fileargs_at fr) 100 \<inter> run (magicnumber_at fr) 4 = {}"
    "run (headerbuf_at fr) 40 \<inter> run (magicnumber_at fr) 4 = {}"
    "run (filename_at fr) 32 \<inter> run (loader_at fr) 40 = {}" "run (fileargs_at fr) 100 \<inter> run (loader_at fr) 40 = {}"
    "run (headerbuf_at fr) 40 \<inter> run (loader_at fr) 40 = {}"
    "run (filename_at fr) 32 \<inter> run (magic_dentry_at fr) 40 = {}" "run (fileargs_at fr) 100 \<inter> run (magic_dentry_at fr) 40 = {}"
    "run (magicnumber_at fr) 4 \<inter> run (magic_dentry_at fr) 40 = {}"
    "run (filename_at fr) 32 \<inter> I = {}" "run (fileargs_at fr) 100 \<inter> I = {}" "run (headerbuf_at fr) 40 \<inter> I = {}"
    "run (magicnumber_at fr) 4 \<inter> I = {}" "run (loader_at fr) 40 \<inter> I = {}" "run (magic_dentry_at fr) 40 \<inter> I = {}"
    "run (fileargs_at fr) 100 \<inter> run 0x08048000 k = {}" "run (headerbuf_at fr) 40 \<inter> run 0x08048000 k = {}"
    "I \<inter> run 0x08048000 k = {}"
  using exec_areas_apart [OF assms, of 0 1] exec_areas_apart [OF assms, of 0 2] exec_areas_apart [OF assms, of 0 4]
    exec_areas_apart [OF assms, of 1 2] exec_areas_apart [OF assms, of 1 3] exec_areas_apart [OF assms, of 2 3]
    exec_areas_apart [OF assms, of 1 4] exec_areas_apart [OF assms, of 2 4] exec_areas_apart [OF assms, of 3 4]
    exec_areas_apart [OF assms, of 1 5] exec_areas_apart [OF assms, of 2 5] exec_areas_apart [OF assms, of 3 5]
    exec_areas_apart [OF assms, of 1 6] exec_areas_apart [OF assms, of 2 6] exec_areas_apart [OF assms, of 4 6]
    exec_areas_apart [OF assms, of 1 7] exec_areas_apart [OF assms, of 2 7] exec_areas_apart [OF assms, of 3 7]
    exec_areas_apart [OF assms, of 4 7] exec_areas_apart [OF assms, of 5 7] exec_areas_apart [OF assms, of 6 7]
    exec_areas_apart [OF assms, of 2 8] exec_areas_apart [OF assms, of 3 8] exec_areas_apart [OF assms, of 7 8]
  unfolding exec_areas_def nth_Cons_numeral nth_Cons_0 nth_Cons_Suc One_nat_def by (simp_all add: Int_commute)

section \<open>Up to the process number\<close>

text \<open>A write to \<open>A\<close> leaves what is apart from it.\<close>

lemma off_write: "\<forall>x. x \<notin> A \<longrightarrow> m' x = m x \<Longrightarrow> A \<inter> B = {} \<Longrightarrow> x \<in> B \<Longrightarrow> m' x = m x"
  by blast

lemma off_writes:
  "\<forall>x. x \<notin> A \<longrightarrow> x \<notin> A' \<longrightarrow> m' x = m x \<Longrightarrow> A \<inter> B = {} \<Longrightarrow> A' \<inter> B = {} \<Longrightarrow> x \<in> B \<Longrightarrow> m' x = m x"
  by blast

text \<open>The command, the file it names in the image, and room for both.\<close>

definition runs_command :: "exec_frame \<Rightarrow> addr \<Rightarrow> byte list \<Rightarrow> byte list \<Rightarrow> u32 \<Rightarrow> 'a fs_state_scheme \<Rightarrow> bool" where
  "runs_command fr command name args ino s \<longleftrightarrow>
     (\<exists>p q. cstr (mem s) command (replicate p 0x20 @ name @ replicate q 0x20 @ args)
       \<and> p + length name \<le> 32 \<and> (args = [] \<or> hd args \<noteq> 0x20 \<and> q \<noteq> 0)
       \<and> exec_memory fr command (Suc (p + length name + q + length args)) (image_area s (mem s) ino)
           (length (file_content s (mem s) ino)))
     \<and> name \<noteq> [] \<and> 0x20 \<notin> set name \<and> 0 \<notin> set name \<and> length name < 32 \<and> length args \<le> 100
     \<and> holds_file s (mem s) name ino
     \<and> take 4 (file_content s (mem s) ino) = [0x7F, 0x45, 0x4C, 0x46] \<and> 28 \<le> length (file_content s (mem s) ino)"

lemma execute_to_program:
  assumes r: "runs_command fr command name args ino s"
    and n: "\<And>m. PCB_process_number (s\<lparr>mem := m\<rparr>) = Some (k, t m)" "k \<noteq> -1"
  obtains m where "execute lits fr command s = load_program fr k (t m)"
    "cstr m (filename_at fr) name" "load m (fileargs_at fr) 100 = args @ replicate (100 - length args) 0"
    "load m (headerbuf_at fr) 28 = take 28 (file_content s (mem s) ino)"
    "\<And>x. x \<in> image_area s (mem s) ino \<Longrightarrow> m x = mem s x"
proof -
  let ?F = "filename_at fr" and ?G = "fileargs_at fr" and ?H = "headerbuf_at fr" and ?M = "magicnumber_at fr"
  let ?D = "magic_dentry_at fr" and ?I = "image_area s (mem s) ino" and ?c = "file_content s (mem s) ino"
  let ?magic = "[0x7F, 0x45, 0x4C, 0x46] :: byte list"
  obtain p q where cmd: "cstr (mem s) command (replicate p 0x20 @ name @ replicate q 0x20 @ args)"
      "p + length name \<le> 32" "args = [] \<or> hd args \<noteq> 0x20 \<and> q \<noteq> 0"
      "exec_memory fr command (Suc (p + length name + q + length args)) ?I (length ?c)"
      and nm: "name \<noteq> []" "0x20 \<notin> set name" "0 \<notin> set name" "length name < 32" "length args \<le> 100"
      and h: "holds_file s (mem s) name ino" "take 4 ?c = ?magic" "28 \<le> length ?c"
    using r by (auto simp: runs_command_def)
  note ap = exec_memory_apart [OF cmd(4)]
  note pa = ap [THEN trans [OF Int_commute]]
  have nz: "command \<noteq> 0" "?F \<noteq> 0" "?H \<noteq> 0" "?D \<noteq> 0" using cmd(4) by (simp_all add: exec_memory_def)
  define m0 where "m0 = store (mem s) ?M ?magic"
  have m0: "\<forall>x. x \<notin> run ?M 4 \<longrightarrow> m0 x = mem s x"
    using store_outside_run [of _ ?M ?magic "mem s"] by (simp add: eval_nat_numeral m0_def)
  have g0: "load m0 ?M 4 = ?magic" by (simp add: m0_def load_store)
  have c0: "cstr m0 command (replicate p 0x20 @ name @ replicate q 0x20 @ args)"
  proof (rule cstr_agree [OF cmd(1)], intro ballI)
    fix x assume "x \<in> run command (Suc (length (replicate p 0x20 @ name @ replicate q 0x20 @ args)))"
    then have "x \<in> run command (Suc (p + length name + q + length args))" by (simp add: add.assoc del: image_iff)
    from off_write [OF m0 ap(3) this] show "m0 x = mem s x" .
  qed
  obtain m where m: "parse_args fr command m0 = Some (Some m)"
      "load m ?F 32 = name @ replicate (32 - length name) 0" "load m ?G 100 = args @ replicate (100 - length args) 0"
      "\<forall>x. x \<notin> run ?F 32 \<longrightarrow> x \<notin> run ?G 100 \<longrightarrow> m x = m0 x"
    using parse_args_eq [OF c0 nm(1,2) cmd(2,3) nm(5) ap(4,1,2)] by (elim exE conjE) (rule that)
  have n1: "cstr m ?F name" by (rule cstr_of_load [OF m(2)]) (use nm in simp_all)
  have g1: "load m ?M 4 = ?magic"
    unfolding g0 [symmetric] by (rule load_cong, rule off_writes [OF m(4) ap(7,8)])
  have i1: "m x = mem s x" if "x \<in> ?I" for x
    using off_writes [OF m(4) ap(16,17) that] off_write [OF m0 ap(19) that] by simp
  let ?S = "\<lambda>m. s\<lparr>mem := m\<rparr>"
  note fr = image_frame [of "?S m'" s for m', simplified]
  have h1: "holds_file (?S m) (mem (?S m)) name ino" and c1: "file_content s m ino = ?c" and ia1: "image_area s m ino = ?I"
    using holds_file_cong [OF i1 h(1)] by (simp_all add: fr)
  obtain m2 where m2: "read_dentry_by_name ?F ?D (?S m) = Some (0, ?S m2)" "dentry_inode m2 ?D = ino"
      "\<forall>x. x \<notin> run ?D 40 \<longrightarrow> m2 x = m x"
    by (rule holds_file_lookup [OF h1 _ nm(1) _ nz(2,4)]) (use n1 nm(4) ap(21) in \<open>simp_all add: fr ia1\<close>)
  have i2: "m2 x = mem s x" if "x \<in> ?I" for x using off_write [OF m2(3) ap(21) that] i1 [OF that] by simp
  have h2: "holds_file (?S m2) (mem (?S m2)) name ino" and c2: "file_content s m2 ino = ?c" and ia2: "image_area s m2 ino = ?I"
    using holds_file_cong [OF i2 h(1)] by (simp_all add: fr)
  define m3 where "m3 = store m2 ?H (take 40 ?c)"
  have rd: "read_data ino 0 ?H 40 (?S m2) = (int (length (take 40 ?c)), ?S m3)"
    using holds_file_read [OF h2, of ?H 40] ap(18) nz(3) by (simp add: fr c2 ia2 m3_def)
  have sub: "run ?H (length (take 40 ?c)) \<subseteq> run ?H 40" by (rule image_mono) auto
  have o3: "\<forall>x. x \<notin> run ?H 40 \<longrightarrow> m3 x = m2 x"
    unfolding m3_def using sub by (blast intro: store_outside_run)
  have "load m3 ?H (length (take 40 ?c)) = take 40 ?c" by (simp add: m3_def load_store)
  then have hd: "load m3 ?H k = take k ?c" if "k \<le> 28" for k
    using that h(3) load_take [of k "length (take 40 ?c)" m3 ?H] by (simp add: min_def)
  have g3: "load m3 ?M 4 = ?magic"
    unfolding g1 [symmetric] using off_write [OF o3 ap(9)] off_write [OF m2(3) pa(15)] by (intro load_cong) simp
  have f3: "load m3 ?F 32 = load m ?F 32"
    using off_write [OF o3 pa(5)] off_write [OF m2(3) pa(13)] by (intro load_cong) simp
  have n3: "cstr m3 ?F name" by (rule cstr_of_load [OF f3 [unfolded m(2)]]) (use nm in simp_all)
  have a3: "load m3 ?G 100 = load m ?G 100"
    using off_write [OF o3 pa(6)] off_write [OF m2(3) pa(14)] by (intro load_cong) simp
  have i3: "m3 x = mem s x" if "x \<in> ?I" for x using off_write [OF o3 ap(18) that] i2 [OF that] by simp
  have "strncmp m3 ?H ?M 4 = 0"
    using hd [of 4] g3 h(2) by (simp add: strncmp_0_iff str_prefix_def)
  then have "execute lits fr command s = load_program fr k (t m3)"
    using nz(1) m(1) m2(1,2) rd n(1) [of m3] n(2) by (simp add: execute_def Let_def m0_def)
  then show thesis using that [of m3] n3 a3 m(3) hd [of 28] i3 by simp
qed

section \<open>From the process number on\<close>

definition elf_entry :: "byte list \<Rightarrow> u32" where
  "elf_entry c = push_bit 24 (ucast (c ! 27)) OR push_bit 16 (ucast (c ! 26)) OR push_bit 8 (ucast (c ! 25)) OR ucast (c ! 24)"

lemma entry_point_load: "load m a 28 = take 28 c \<Longrightarrow> 28 \<le> length c \<Longrightarrow> entry_point m a = elf_entry c"
proof -
  assume l: "load m a 28 = take 28 c" "28 \<le> length c"
  have "m (a + of_nat i) = c ! i" if "i < 28" for i
    using arg_cong [OF l(1), of "\<lambda>xs. xs ! i"] that by simp
  from this [of 24] this [of 25] this [of 26] this [of 27] show ?thesis by (simp add: entry_point_def elf_entry_def)
qed

lemma pcb_mapping_fs [simp]:
  "inodeblk (pcb_mapping va p s) = inodeblk s" "first_datablk (pcb_mapping va p s) = first_datablk s"
  "bootblk (pcb_mapping va p s) = bootblk s" "fs_dentry (pcb_mapping va p s) = fs_dentry s"
  by (simp_all add: pcb_mapping_def Let_def set_page_dir_def flush_def)

lemma load_program_loads:
  assumes h: "holds_file s (mem s) name ino" and n: "cstr (mem s) (filename_at fr) name" "name \<noteq> []" "length name \<le> 32"
    and args: "load (mem s) (fileargs_at fr) 100 = as" and c: "c = file_content s (mem s) ino" "28 \<le> length c"
    and head: "load (mem s) (headerbuf_at fr) 28 = take 28 c"
    and mm: "exec_memory fr command i (image_area s (mem s) ino) (length c)"
    and buf: "\<forall>a. length (argbuf (pcbs s a)) = 100" and k: "0 \<le> k" "k < 12"
  obtains s' where "load_program fr k s = Some (To_User (elf_entry c) s')" "load (mem s') 0x08048000 (length c) = c"
    "argbuf (pcbs s' (pcb_at k)) = as" "terms s' = (terms s)(cur_term_id s := (terms s (cur_term_id s))\<lparr>cur_pcb_id := k mod 4\<rparr>)"
    "now_term_id s' = now_term_id s" "cur_tss_byte0 (pcbs s' (pcb_at k)) = 0"
proof -
  note ap = exec_memory_apart [OF mm] and pa = exec_memory_apart [OF mm, THEN trans [OF Int_commute]]
  have nz: "filename_at fr \<noteq> 0" "loader_at fr \<noteq> 0" using mm by (simp_all add: exec_memory_def)
  let ?I = "image_area s (mem s) ino"
  define s1 where "s1 = pcb_mapping 0x8000000 (0x800000 + word_of_int k * 0x400000) s"
  let ?S = "\<lambda>m. s1\<lparr>mem := m\<rparr>"
  have s1: "mem s1 = mem s" "cur_term_id s1 = cur_term_id s" "terms s1 = terms s" "pcbs s1 = pcbs s" "now_term_id s1 = now_term_id s"
    by (simp_all add: s1_def)
  note fr = image_frame [of s1 s, simplified s1_def pcb_mapping_fs, OF refl refl refl refl, folded s1_def]
  note frS = image_frame [of "?S m'" s for m', simplified s1_def, simplified, folded s1_def]
  obtain m where m: "read_dentry_by_name (filename_at fr) (loader_at fr) s1 = Some (0, ?S m)" "dentry_inode m (loader_at fr) = ino"
      "\<forall>x. x \<notin> run (loader_at fr) 40 \<longrightarrow> m x = mem s x"
    by (rule holds_file_lookup [of s1 name ino "filename_at fr" "loader_at fr"])
      (use h n nz ap(20) in \<open>simp_all add: fr s1\<close>)
  have i: "m x = mem s x" if "x \<in> ?I" for x using off_write [OF m(3) ap(20) that] .
  have h1: "holds_file (?S m) (mem (?S m)) name ino" and c1: "file_content s m ino = c" and ia: "image_area s m ino = ?I"
    using holds_file_cong [OF i h] by (simp_all add: frS c(1))
  have len: "unat (inode_size (?S m) m ino) = length c" "length c < 2147483648"
  proof -
    show u: "unat (inode_size (?S m) m ino) = length c"
      by (simp add: s1_def inode_size_def file_size_def c1 [symmetric])
    show "length c < 2147483648" using h by (auto simp: holds_file_def inode_ok_def c(1))
  qed
  define m5 where "m5 = store m 0x08048000 c"
  have rd: "read_data ino 0 0x08048000 (inode_size (?S m) m ino) (?S m) = (int (length c), ?S m5)"
    using holds_file_read [OF h1, of "0x08048000" "inode_size (?S m) m ino"] pa(24) len by (simp add: frS c1 ia m5_def)
  have o5: "\<forall>x. x \<notin> run 0x08048000 (length c) \<longrightarrow> m5 x = m x"
    unfolding m5_def by (blast intro: store_outside_run)
  have g5: "load m5 (fileargs_at fr) 100 = as"
    unfolding args [symmetric] using off_write [OF o5 pa(22)] off_write [OF m(3) pa(11)] by (intro load_cong) simp
  have sub: "run (headerbuf_at fr) 28 \<subseteq> run (headerbuf_at fr) 40" by (rule image_mono) auto
  have "load m5 (headerbuf_at fr) 28 = take 28 c"
    unfolding head [symmetric]
  proof (rule load_cong)
    fix x assume "x \<in> run (headerbuf_at fr) 28"
    then have x: "x \<in> run (headerbuf_at fr) 40" using sub by blast
    show "m5 x = mem s x" using off_write [OF o5 pa(23) x] off_write [OF m(3) pa(12) x] by simp
  qed
  then have e: "entry_point m5 (headerbuf_at fr) = elf_entry c" using c(2) by (rule entry_point_load)
  let ?a = "0x800000 - (word_of_int k + 1) * 0x2000 :: addr"
  have cp: "create_pcb k (fileargs_at fr) (?S m5) = update_pcb ?a (new_pcb k (fileargs_at fr) (?S m5))
      (update_term (cur_term_id s) (\<lambda>t. t\<lparr>cur_pcb_id := k mod 4\<rparr>) (?S m5))"
    using create_pcb_eq [of "?S m5" k "fileargs_at fr"] buf by (simp add: s1)
  let ?s' = "(flush ((create_pcb k (fileargs_at fr) (?S m5))\<lparr>tss_esp0 := 0x800000 - word_of_int k * 0x2000 - 4, tss_ss0 := 0x18\<rparr>))
      \<lparr>interrupt_halt_flag := 0, iflag := True\<rparr>"
  have "load_program fr k s = Some (To_User (elf_entry c) ?s')"
    using m(1,2) rd by (simp add: load_program_def Let_def s1_def [symmetric] flush_def)
      (simp add: cp e)
  moreover have "load m5 0x08048000 (length c) = c" using len(2) by (simp add: m5_def load_store)
  ultimately show thesis
    using that [of ?s'] by (simp add: cp flush_def pcb_at_def new_pcb_def g5 s1 update_term_def)
qed

text \<open>\<open>getargs\<close> on the arguments kept in the control block.\<close>

lemma for_range_copy: "length xs \<le> 4294967296 \<Longrightarrow>
    for_range 0 (length xs) (\<lambda>i m. m(a + of_nat i := xs ! i)) m = store m a xs"
proof (induction xs rule: rev_induct)
  case (snoc x xs)
  have "for_range 0 (length xs) (\<lambda>i m. m(a + of_nat i := (xs @ [x]) ! i)) m
      = for_range 0 (length xs) (\<lambda>i m. m(a + of_nat i := xs ! i)) m"
    unfolding for_range_def by (intro fold_cong) (auto simp: nth_append)
  then show ?case using snoc store_append [of xs "[x]" m a] by (simp add: for_range_Suc del: fun_upd_apply)
qed simp

lemma getargs_eq:
  assumes "argbuf (now_pcb t) = args @ replicate (100 - length args) 0" "0 \<notin> set args" "length args \<le> 100"
    "cur_tss_byte0 (now_pcb t) = 0"
  shows "getargs buf n t = Some (if args = [] \<or> n \<le> int (length args) then (-1, t)
    else (0, t\<lparr>mem := store (mem t) buf (args @ [0])\<rparr>))"
proof -
  let ?bytes = "argbuf (now_pcb t) @ [cur_tss_byte0 (now_pcb t)]"
  have z: "takeWhile (\<lambda>b. b \<noteq> 0) (replicate n 0 @ [0 :: byte]) = []" for n by (cases n) simp_all
  have "b \<noteq> 0" if "b \<in> set args" for b using assms(2) that by metis
  then have "takeWhile (\<lambda>b. b \<noteq> 0) ?bytes = args"
    using takeWhile_append2 [of args "\<lambda>b. b \<noteq> 0" "replicate (100 - length args) 0 @ [0]"]
    by (simp add: assms(1,4) z)
  then have l: "length (takeWhile (\<lambda>b. b \<noteq> 0) ?bytes) = length args" "length args \<noteq> length ?bytes"
    using assms(1,3) by simp_all
  have b: "?bytes ! i = args ! i" if "i < length args" for i using that by (simp add: assms(1) nth_append)
  have "for_range 0 (length args) (\<lambda>i. poke (buf + of_nat i) (?bytes ! i)) t
      = for_range 0 (length args) (\<lambda>i. poke (buf + of_nat i) (args ! i)) t"
    unfolding for_range_def by (intro fold_cong) (simp_all add: b)
  also have "\<dots> = t\<lparr>mem := store (mem t) buf args\<rparr>"
    using for_range_copy [of args buf "mem t"] assms(3)
      for_range_mem [of "\<lambda>i. poke (buf + of_nat i) (args ! i)" t "\<lambda>i m. m(buf + of_nat i := args ! i)"]
    by (simp add: poke_def)
  finally have "poke (buf + of_nat (length args)) 0 (for_range 0 (length args) (\<lambda>i. poke (buf + of_nat i) (?bytes ! i)) t)
      = t\<lparr>mem := store (mem t) buf (args @ [0])\<rparr>"
    using store_append [of args "[0]" "mem t" buf] assms(3) by (simp add: poke_def)
  then show ?thesis using l by (simp add: getargs_def Let_def)
qed

section \<open>Properties\<close>

text \<open>A free slot: the first one of the displayed terminal, with at most five processes running.\<close>

definition slot_free :: "'a proc_state_scheme \<Rightarrow> nat \<Rightarrow> bool" where
  "slot_free s i \<longleftrightarrow> cur_term_id s < 3 \<and> i < 4 \<and> PCB_mask s (cur_term_id s) i = 0
     \<and> (\<forall>j < i. PCB_mask s (cur_term_id s) j \<noteq> 0) \<and> card (used_slots s) < 6"

lemma execute_runs:
  assumes r: "runs_command fr command name args ino s" and f: "slot_free s i" and b: "\<forall>a. length (argbuf (pcbs s a)) = 100"
  defines "c \<equiv> file_content s (mem s) ino" and "k \<equiv> int i + int (cur_term_id s) * 4"
  obtains s' where "execute lits fr command s = Some (To_User (elf_entry c) s')" "load (mem s') 0x08048000 (length c) = c"
    "argbuf (pcbs s' (pcb_at k)) = args @ replicate (100 - length args) 0"
    "terms s' = (terms s)(cur_term_id s := (terms s (cur_term_id s))\<lparr>cur_pcb_id := k mod 4\<rparr>)"
    "now_term_id s' = now_term_id s" "cur_tss_byte0 (pcbs s' (pcb_at k)) = 0"
proof -
  let ?t = "\<lambda>m. set_mask (cur_term_id s) i 1 (s\<lparr>mem := m\<rparr>)"
  have sl: "cur_term_id s < 3" "i < 4" "PCB_mask s (cur_term_id s) i = 0" "\<forall>j < i. PCB_mask s (cur_term_id s) j \<noteq> 0"
      "card (used_slots s) < 6" using f by (simp_all add: slot_free_def)
  have n: "PCB_process_number (s\<lparr>mem := m\<rparr>) = Some (k, ?t m)" for m
    using PCB_process_number_found [of "s\<lparr>mem := m\<rparr>" i] sl by (simp add: k_def used_slots_def)
  have k: "0 \<le> k" "k < 12" "k \<noteq> -1" using sl(1,2) by (auto simp: k_def)
  obtain m where m: "execute lits fr command s = load_program fr k (?t m)" "cstr m (filename_at fr) name"
      "load m (fileargs_at fr) 100 = args @ replicate (100 - length args) 0" "load m (headerbuf_at fr) 28 = take 28 c"
      "\<And>x. x \<in> image_area s (mem s) ino \<Longrightarrow> m x = mem s x"
    using execute_to_program [OF r n k(3)] unfolding c_def by metis
  have h: "holds_file s (mem s) name ino" "28 \<le> length c" "name \<noteq> []" "length name \<le> 32"
    using r by (simp_all add: runs_command_def c_def)
  obtain n where mm: "exec_memory fr command n (image_area s (mem s) ino) (length c)"
    using r unfolding runs_command_def c_def by blast
  have t: "mem (?t m) = m" "cur_term_id (?t m) = cur_term_id s" "terms (?t m) = terms s" "pcbs (?t m) = pcbs s"
      "now_term_id (?t m) = now_term_id s" by simp_all
  have fr: "holds_file (?t m) = holds_file s" "file_content (?t m) = file_content s" "image_area (?t m) = image_area s"
    by (rule image_frame; simp add: set_mask_def)+
  note hc = holds_file_cong [OF m(5) h(1)]
  show thesis
    by (rule load_program_loads [of "?t m" name ino fr _ c command n k])
      (use m(1,2,3,4) hc h mm k b that in \<open>simp_all add: t fr c_def\<close>)
qed

text \<open>C3: \<open>execute\<close> succeeds when it should: the command names, after any leading spaces, a file of the
  image that starts with the ELF magic number and has a whole header, a slot is free, and the arrays
  do not overlap. Then the program is entered at the address in its header, and the whole
  file has been loaded at \<open>0x08048000\<close>.\<close>

theorem execute_runs_program:
  assumes "runs_command fr command name args ino s" and "slot_free s i" and "\<forall>a. length (argbuf (pcbs s a)) = 100"
  defines "c \<equiv> file_content s (mem s) ino"
  shows "\<exists>s'. execute lits fr command s = Some (To_User (elf_entry c) s') \<and> load (mem s') 0x08048000 (length c) = c"
  using execute_runs [OF assms(1-3)] unfolding c_def by metis

text \<open>C2: The arguments of the command are what the new process reads with \<open>getargs\<close>: the text after the
  name and the spaces that follow it, to the end of the command, NUL-terminated. It is refused, with
  nothing written, if there are none or the buffer is too short for them and the NUL.\<close>

theorem arguments_roundtrip:
  assumes "runs_command fr command name args ino s" and "slot_free s i" and "\<forall>a. length (argbuf (pcbs s a)) = 100"
    and "now_term_id s = cur_term_id s"
  shows "\<exists>e s'. execute lits fr command s = Some (To_User e s')
    \<and> (\<forall>buf n. getargs buf n s' = Some (if args = [] \<or> n \<le> int (length args) then (-1, s')
         else (0, s'\<lparr>mem := store (mem s') buf (args @ [0])\<rparr>)))"
proof -
  let ?k = "int i + int (cur_term_id s) * 4"
  obtain e s' where s': "execute lits fr command s = Some (To_User e s')"
      "argbuf (pcbs s' (pcb_at ?k)) = args @ replicate (100 - length args) 0"
      "terms s' = (terms s)(cur_term_id s := (terms s (cur_term_id s))\<lparr>cur_pcb_id := ?k mod 4\<rparr>)"
      "now_term_id s' = now_term_id s" "cur_tss_byte0 (pcbs s' (pcb_at ?k)) = 0"
    by (rule execute_runs [OF assms(1-3)]) blast
  have k: "0 \<le> ?k" "?k < 256" "?k mod 4 = int i" using assms(2) by (auto simp: slot_free_def)
  have "pcb_of_term (now_term_id s') s' = pcb_at ?k"
    using get_pcb_at [OF k(1,2)] k(3) assms(4) by (simp add: pcb_of_term_def s'(3,4) MAX_PCB_MASK_LEN_def)
  moreover have "0 \<notin> set args" "length args \<le> 100"
    using assms(1) by (auto simp: runs_command_def cstr_def)
  ultimately have "getargs buf n s' = Some (if args = [] \<or> n \<le> int (length args) then (-1, s')
         else (0, s'\<lparr>mem := store (mem s') buf (args @ [0])\<rparr>))" for buf n
    using s'(2,5) by (intro getargs_eq) simp_all
  with s'(1) show ?thesis by blast
qed

text \<open>The example image with the command "abc hi", run from the displayed terminal.\<close>

lemma apart_mono: "list_all2 (\<subseteq>) As Bs \<Longrightarrow> apart Bs \<Longrightarrow> apart As"
proof (induction rule: list_all2_induct)
  case (Cons A As B Bs)
  have "A \<inter> A' = {}" if A': "A' \<in> set As" for A'
  proof -
    obtain i where i: "i < length As" "A' = As ! i" using A' by (auto simp: in_set_conv_nth)
    then have "A' \<subseteq> Bs ! i" "Bs ! i \<in> set Bs" using Cons.hyps(2) by (auto simp: list_all2_conv_all_nth)
    then show ?thesis using Cons.hyps(1) Cons.prems by fastforce
  qed
  then show ?case using Cons by simp
qed simp

lemma exec_memory_mono: "exec_memory fr command n J k \<Longrightarrow> I \<subseteq> J \<Longrightarrow> exec_memory fr command n I k"
  using apart_mono [of "exec_areas fr command n I k" "exec_areas fr command n J k"]
  by (simp only: exec_memory_def exec_areas_def list_all2_Cons list_all2_Nil order_refl simp_thms)

definition exec_args_mem :: mem where
  "exec_args_mem = exec_mem(0x300003 := 0x20, 0x300004 := 0x68, 0x300005 := 0x69)"

definition exec_args_boot :: fs_state where
  "exec_args_boot = (shell_boot exec_args_mem)\<lparr>now_term_id := 0\<rparr>"

lemma exec_args_boot_simps [simp]:
  "mem exec_args_boot = exec_args_mem" "cur_term_id exec_args_boot = 0" "now_term_id exec_args_boot = 0"
  "pcbs exec_args_boot a = std_pcb" "PCB_mask exec_args_boot = (\<lambda>_ _. 0)"
  by (simp_all add: exec_args_boot_def shell_boot_def fun_eq_iff)

lemma exec_args_img: "img_ok exec_args_boot"
  by (auto simp: exec_args_boot_def img_ok_def shell_boot_def exec_args_mem_def)

lemma example_image_area:
  assumes "fs_dentry s = 0x100040" "file_area s m ino = run 0x101000 4096 \<union> run 0x102000 4096"
  shows "image_area s m ino \<subseteq> run 0x100000 12288"
proof -
  have d: "run (dentry_addr s (of_nat i)) 40 \<subseteq> run 0x100000 12288" if "i < 63" for i
  proof -
    have a: "dentry_addr s (of_nat i) = 0x100000 + of_nat (64 + 64 * i)" by (simp add: dentry_addr_def assms(1))
    show ?thesis unfolding a by (rule run_subset) (use that in simp)
  qed
  have i: "image_area s m ino = (\<Union>i<63. run (dentry_addr s (of_nat i)) 40) \<union> (run 0x101000 4096 \<union> run 0x102000 4096)"
    by (simp only: image_area_def dir_area_def assms(2))
  have "run 0x101000 4096 \<subseteq> run 0x100000 12288" "run 0x102000 4096 \<subseteq> run 0x100000 12288"
    using run_subset [of 4096 4096 12288 "0x100000"] run_subset [of 8192 4096 12288 "0x100000"] by simp_all
  then show ?thesis unfolding i by (intro Un_least UN_least d) simp_all
qed

lemma exec_args_area: "image_area exec_args_boot exec_args_mem 0 \<subseteq> run 0x100000 12288"
  using img_file(3) [OF exec_args_img] by (intro example_image_area) (simp_all add: exec_args_boot_def shell_boot_def)

lemma exec_args_command: "runs_command example_frame 0x300000 [0x61, 0x62, 0x63] [0x68, 0x69] 0 exec_args_boot"
proof -
  let ?s = exec_args_boot and ?J = "run 0x100000 12288"
  have f: "file_content ?s exec_args_mem 0 = exec_file" "inode_ok ?s exec_args_mem 0" "dir_ok ?s exec_args_mem"
    using img_file [OF exec_args_img] img_dir_ok [OF exec_args_img] by simp_all
  have "dentry_addr ?s (of_nat 0) = 0x100040" using exec_args_img by (simp add: dentry_addr_def img_ok_def)
  moreover have "dentry_inode exec_args_mem 0x100040 = 0"
    by (simp add: dentry_inode_def load32_def exec_args_mem_def exec_mem_def fs_example_mem_def)
  ultimately have h: "holds_file ?s exec_args_mem [0x61, 0x62, 0x63] 0"
    using f(2,3) img_find [OF exec_args_img] by (auto simp: holds_file_def)
  have cmd: "cstr exec_args_mem 0x300000 (replicate 0 0x20 @ [0x61, 0x62, 0x63] @ replicate 1 0x20 @ [0x68, 0x69])"
    by (simp add: cstr_def load_def upt_rec) (simp add: exec_args_mem_def exec_mem_def fs_example_mem_def)
  have "exec_memory example_frame 0x300000 (Suc (0 + length [0x61, 0x62, 0x63 :: byte] + 1 + length [0x68, 0x69 :: byte])) ?J 28"
    unfolding exec_memory_def exec_areas_def example_frame_simps apart.simps list.set ball_simps
    by (intro conjI TrueI; (rule runs_apart)?; simp)
  then have "exec_memory example_frame 0x300000 (Suc (0 + length [0x61, 0x62, 0x63 :: byte] + 1 + length [0x68, 0x69 :: byte]))
      (image_area ?s exec_args_mem 0) (length exec_file)"
    using exec_memory_mono [OF _ exec_args_area] exec_file_magic(1) by simp
  with cmd h f(1) exec_file_magic show ?thesis
    unfolding runs_command_def by (intro conjI exI [of _ 0] exI [of _ 1]) simp_all
qed

lemma exec_args_slot: "slot_free exec_args_boot 0"
  by (simp add: slot_free_def used_slots_def)

lemma exec_args_argbuf: "\<forall>a. length (argbuf (pcbs exec_args_boot a)) = 100"
  by (simp add: std_pcb_def no_pcb_def)

theorem execute_runs_program_witness:
  "\<exists>s'. execute (\<lambda>_. 0) example_frame 0x300000 exec_args_boot = Some (To_User 0x08048000 s')
    \<and> load (mem s') 0x08048000 28 = exec_file"
proof -
  have f: "file_content exec_args_boot exec_args_mem 0 = exec_file" using img_file(4) [OF exec_args_img] by simp
  have "elf_entry exec_file = 0x08048000"
    by (simp add: elf_entry_def exec_file_def) (simp add: exec_mem_def fs_example_mem_def)
  then show ?thesis
    using execute_runs_program [OF exec_args_command exec_args_slot exec_args_argbuf, of "\<lambda>_. 0"] exec_file_magic(1)
    by (simp add: f)
qed

theorem arguments_roundtrip_witness:
  "\<exists>e s'. execute (\<lambda>_. 0) example_frame 0x300000 exec_args_boot = Some (To_User e s')
    \<and> getargs 0x8001000 1024 s' = Some (0, s'\<lparr>mem := store (mem s') 0x8001000 [0x68, 0x69, 0]\<rparr>)"
proof -
  have "now_term_id exec_args_boot = cur_term_id exec_args_boot" by simp
  from arguments_roundtrip [OF exec_args_command exec_args_slot exec_args_argbuf this, of "\<lambda>_. 0"]
  obtain e s' where "execute (\<lambda>_. 0) example_frame 0x300000 exec_args_boot = Some (To_User e s')"
      and g: "\<And>buf n. getargs buf n s' = Some (if [0x68, 0x69 :: byte] = [] \<or> n \<le> int (length [0x68, 0x69 :: byte]) then (-1, s')
         else (0, s'\<lparr>mem := store (mem s') buf ([0x68, 0x69] @ [0])\<rparr>))"
    by blast
  moreover have "getargs 0x8001000 1024 s' = Some (0, s'\<lparr>mem := store (mem s') 0x8001000 [0x68, 0x69, 0]\<rparr>)"
    by (simp add: g)
  ultimately show ?thesis by blast
qed

end
