(* ===== verification/Kernel_Calls.thy ===== *)
theory Kernel_Calls
  imports User_On_Kernel Execute
begin

text \<open>
  The system calls of a user program that succeed, as the program sees them: opening a name of the
  directory and writing text to the standard output. The programs' own theories build on them.
\<close>

text \<open>Where \<open>term_write\<close> copies what it is given.\<close>

abbreviation copy_area :: "'a kenv \<Rightarrow> addr set" where
  "copy_area K \<equiv> run (temp_buf_at (kframe K)) 1025"

section \<open>Opening\<close>

lemma kernel_opens:
  fixes K :: "'a kenv" and s :: "'a fs_state_scheme"
  assumes dir: "dir_ok s (mem s)" and i: "find (\<lambda>i. dentry_name s (mem s) i = name) [0..<63] = Some i"
    and t: "dentry_filetype (mem s) (dentry_addr s (of_nat i)) = t" "t = 1 \<or> t = 2"
    and nm: "cstr (mem s) fname name" "name \<noteq> []" "length name \<le> 32" and nz: "fname \<noteq> 0" "dentry_at (kframe K) \<noteq> 0"
    and ap: "run (dentry_at (kframe K)) 40 \<inter> dir_area s = {}" and o: "fd_inv (now_pcb s)" "fresh (now_pcb s)"
  defines "a \<equiv> pcb_of_term (now_term_id s) s"
    and "f \<equiv> \<lambda>d. d\<lparr>flags := 1, file_position := 0,
      inode := if t = 2 then dentry_inode (mem s) (dentry_addr s (of_nat i)) else 0, optable := if t = 2 then file_fop else dir_fop\<rparr>"
  obtains m where "ece391_open (kernel_env K resume data) fname s = Some (2, update_pcb a (update_fd 2 f) (s\<lparr>mem := m\<rparr>))"
    "\<forall>x. x \<notin> run (dentry_at (kframe K)) 40 \<longrightarrow> m x = mem s x"
proof -
  let ?d = "dentry_at (kframe K)" and ?e = "dentry_addr s (of_nat i)"
  have i63: "i < 63" using i by (auto simp: find_Some_iff)
  obtain xs where xs: "cstr (mem s) ?e xs" "length xs \<le> 35" by (rule dir_ok_name [OF dir i63])
  have "run ?d 40 \<inter> run ?e 40 = {}" using ap i63 unfolding dir_area_def by blast
  then obtain m where m: "copy_dentry ?d ?e (mem s) = Some m" "dentry_filetype m ?d = t"
      "dentry_inode m ?d = dentry_inode (mem s) ?e" "\<forall>x. x \<notin> run ?d 40 \<longrightarrow> m x = mem s x"
    using copy_dentry_eq [OF xs] t(1) by blast
  define s0 where "s0 = s\<lparr>mem := m\<rparr>"
  have rd: "read_dentry_by_name fname ?d s = Some (0, s0)"
    using read_dentry_by_name_find [OF dir nm nz] i m(1) by (simp add: s0_def)
  have "flags (fds (pcbs s a) 2) = 0" using o(2) by (simp add: fresh_def a_def)
  then have "find_free_fd a 0 s0 = (2, fd_take a 2 s0)"
    using o(1) by (intro find_free_fd_first) (auto simp: fd_used_def s0_def a_def fd_inv_def less_2_cases_iff)
  moreover have ms: "mem (fd_take a 2 s0) = m" by (simp add: fd_take_def s0_def)
  ultimately have "sys_open (kframe K) fname s = Some (open_as t (dentry_inode (mem s) ?e) a 2 fname (fd_take a 2 s0))"
    using rd m(2,3) by (simp add: sys_open_def Let_def a_def [symmetric] MAX_FILE_NUM_def)
  moreover have "open_as t (dentry_inode (mem s) ?e) a 2 fname (fd_take a 2 s0) = (2, update_pcb a (update_fd 2 f) s0)"
    using t(2)
  proof
    assume "t = 1"
    then show ?thesis by (simp only: open_as_simps(2)) (simp add: fd_take_def update_pcb_def update_fd_def f_def)
  next
    assume "t = 2"
    then show ?thesis by (simp only: open_as_simps(3)) (simp add: fd_take_def update_pcb_def update_fd_def f_def)
  qed
  ultimately have "sys_open (kframe K) fname s = Some (2, update_pcb a (update_fd 2 f) s0)" by (simp only:)
  then have "ece391_open (kernel_env K resume data) fname s = Some (2, update_pcb a (update_fd 2 f) s0)"
    by (rule kernel_open) (simp add: int32_def)
  then show thesis unfolding s0_def using m(4) by (rule that)
qed

section \<open>Writing text\<close>

lemma write_shows_in:
  fixes K :: "'a kenv" and s :: "'a fs_state_scheme"
  defines "W \<equiv> \<lambda>n. run (temp_buf_at (kframe K)) (Suc n)"
  assumes o: "cursor_ok s" "now_term_id s = cur_term_id s" "colour s = k" "fd_inv (now_pcb s)" and b: "buf \<noteq> 0"
    and out: "load (mem s) buf (length out) = out" "length out \<le> 1024" "0 \<notin> set out" "0x25 \<notin> set out"
    and ap: "W (length out) \<inter> run buf (length out) = {}" "W (length out) \<inter> page VIDEO = {}"
  obtains s1 where "ece391_write (kernel_env K resume data) 1 buf (int (length out)) s = Some (int (length out), s1)"
    "cursor_ok s1" "console_only s s1" "shown s1 = fold (vga_put (0x20, k) (\<lambda>c. (c, k))) out (shown s)"
    "\<forall>x. x \<notin> W (length out) \<union> page VIDEO \<longrightarrow> mem s1 x = mem s x"
proof -
  let ?t = "temp_buf_at (kframe K)" and ?n = "int (length out)"
  define s1 where "s1 = s\<lparr>mem := store (mem s) ?t (out @ [0])\<rparr>"
  have ap': "run ?t (Suc (nat ?n)) \<inter> run buf (nat ?n) = {}" "run ?t (Suc (nat ?n)) \<inter> page VIDEO = {}"
    using ap by (simp_all only: nat_int W_def)
  have pre: "str_prefix (mem s) buf (nat ?n) = out"
    using out(1,3) by (simp add: str_prefix_def takeWhile_eq_all_conv) metis
  have "term_write ?t (conv_at (kframe K)) (args_at (kframe K)) buf ?n s = Some (?n, fold putc out s1)"
    unfolding s1_def by (rule term_write_eq [OF o(1,2) b _ pre out(4) ap']) (use out(2) in simp)
  then have wr: "ece391_write (kernel_env K resume data) 1 buf ?n s = Some (?n, fold putc out s1)"
    using b out(2) by (intro kernel_write) (simp_all add: int32_def stdout_write o(4))
  have m1: "mem s1 x = mem s x" if "x \<notin> W (length out)" for x
    using that store_outside_run [of x ?t "out @ [0]" "mem s"] by (auto simp: s1_def W_def)
  have "\<forall>x \<in> page VIDEO. store (mem s) ?t (out @ [0]) x = mem s x" using m1 ap(2) by (simp add: s1_def) blast
  then have "shown s1 = shown s" unfolding s1_def by (rule shown_upd)
  then have s1: "cursor_ok s1" "shown s1 = shown s" "colour s1 = k" "console_only s s1"
    using o(1,3) by (simp_all add: s1_def cursor_ok_def)
  have f: "cursor_ok (fold putc out s1)" "shown (fold putc out s1) = fold (vga_put (0x20, k) (\<lambda>c. (c, k))) out (shown s)"
    using fold_putc(1,2) [OF s1(1), of out] s1 by simp_all
  have "mem (fold putc out s1) x = mem s x" if "x \<notin> W (length out) \<union> page VIDEO" for x
    using fold_putc(3) [OF s1(1), of x out] m1 that by simp
  moreover have "console_only s (fold putc out s1)" using s1(4) by simp
  ultimately show thesis using that wr f by blast
qed

lemma write_shows:
  fixes K :: "'a kenv" and s :: "'a fs_state_scheme"
  assumes o: "cursor_ok s" "now_term_id s = cur_term_id s" "colour s = k" "fd_inv (now_pcb s)" and b: "buf \<noteq> 0"
    and out: "load (mem s) buf (length out) = out" "length out \<le> 1024" "0 \<notin> set out" "0x25 \<notin> set out"
    and ap: "copy_area K \<inter> run buf (length out) = {}" "copy_area K \<inter> page VIDEO = {}"
  obtains s1 where "ece391_write (kernel_env K resume data) 1 buf (int (length out)) s = Some (int (length out), s1)"
    "cursor_ok s1" "console_only s s1" "shown s1 = fold (vga_put (0x20, k) (\<lambda>c. (c, k))) out (shown s)"
    "\<forall>x. x \<notin> copy_area K \<union> page VIDEO \<longrightarrow> mem s1 x = mem s x"
proof -
  have sub: "run (temp_buf_at (kframe K)) (Suc (length out)) \<subseteq> copy_area K" by (rule image_mono) (use out(2) in auto)
  then have ap': "run (temp_buf_at (kframe K)) (Suc (length out)) \<inter> run buf (length out) = {}"
      "run (temp_buf_at (kframe K)) (Suc (length out)) \<inter> page VIDEO = {}"
    using ap by blast+
  obtain s1 where s1: "ece391_write (kernel_env K resume data) 1 buf (int (length out)) s = Some (int (length out), s1)"
    "cursor_ok s1" "console_only s s1" "shown s1 = fold (vga_put (0x20, k) (\<lambda>c. (c, k))) out (shown s)"
    "\<forall>x. x \<notin> run (temp_buf_at (kframe K)) (Suc (length out)) \<union> page VIDEO \<longrightarrow> mem s1 x = mem s x"
    by (rule write_shows_in [OF o b out ap'])
  have "run (temp_buf_at (kframe K)) (Suc (length out)) \<union> page VIDEO \<subseteq> copy_area K \<union> page VIDEO"
    by (rule Un_mono [OF sub order_refl])
  then have "\<forall>x. x \<notin> copy_area K \<union> page VIDEO \<longrightarrow> mem s1 x = mem s x"
    using s1(5) by (intro allI impI) (drule spec, erule mp, erule contra_subsetD)
  with s1(1-4) show thesis by (rule that)
qed

lemma console_only_fs:
  fixes s :: "'a fs_state_scheme"
  assumes "console_only s s'"
  shows "inodeblk s' = inodeblk s" "first_datablk s' = first_datablk s" "bootblk s' = bootblk s" "fs_dentry s' = fs_dentry s"
    "esp s' = esp s" "num_file_read s' = num_file_read s"
proof -
  have f: "f s' = f s" if "\<And>s l x y v m. f (s\<lparr>out_log := l, screen_x := x, screen_y := y, video_mem := v, mem := m\<rparr>) = f s"
    for f :: "'a fs_state_scheme \<Rightarrow> 'z"
    using assms that unfolding console_only_def by metis
  show "inodeblk s' = inodeblk s" "first_datablk s' = first_datablk s" "bootblk s' = bootblk s" "fs_dentry s' = fs_dentry s"
    "esp s' = esp s" "num_file_read s' = num_file_read s" by (rule f; simp)+
qed

end
