(* ===== verification/Cat.thy ===== *)
theory Cat
  imports Kernel_Calls
begin

text \<open>
  \<open>cat\<close> on the kernel: the calls of the program together show the file it is given, whatever its
  length. The file's bytes are text without a percent sign, which \<open>printf\<close> would interpret.
\<close>

section \<open>Reading an open file\<close>

definition reading :: "'a kenv \<Rightarrow> byte \<Rightarrow> nat \<Rightarrow> u32 \<Rightarrow> byte list \<Rightarrow> addr \<Rightarrow> nat \<Rightarrow> 'a fs_state_scheme \<Rightarrow> bool" where
  "reading K k fd ino c buf p s \<longleftrightarrow> cursor_ok s \<and> now_term_id s = cur_term_id s \<and> colour s = k \<and> fd_inv (now_pcb s)
     \<and> get_cur_pcb s = pcb_of_term (now_term_id s) s \<and> optable (fds (now_pcb s) fd) = file_fop
     \<and> inode (fds (now_pcb s) fd) = ino \<and> file_position (fds (now_pcb s) fd) = of_nat p \<and> flags (fds (now_pcb s) fd) = 1
     \<and> inode_ok s (mem s) ino \<and> file_content s (mem s) ino = c
     \<and> run buf 1024 \<inter> (copy_area K \<union> page VIDEO \<union> file_area s (mem s) ino) = {}
     \<and> (copy_area K \<union> page VIDEO) \<inter> file_area s (mem s) ino = {} \<and> copy_area K \<inter> page VIDEO = {}"

lemma readingD:
  assumes "reading K k fd ino c buf p s"
  shows "cursor_ok s" "now_term_id s = cur_term_id s" "colour s = k" "fd_inv (now_pcb s)"
    "get_cur_pcb s = pcb_of_term (now_term_id s) s" "optable (fds (now_pcb s) fd) = file_fop"
    "inode (fds (now_pcb s) fd) = ino" "file_position (fds (now_pcb s) fd) = of_nat p" "flags (fds (now_pcb s) fd) = 1"
    "inode_ok s (mem s) ino" "file_content s (mem s) ino = c"
    "run buf 1024 \<inter> (copy_area K \<union> page VIDEO \<union> file_area s (mem s) ino) = {}"
    "(copy_area K \<union> page VIDEO) \<inter> file_area s (mem s) ino = {}" "copy_area K \<inter> page VIDEO = {}"
  using assms unfolding reading_def by blast+

text \<open>A step that writes elsewhere and moves the file position keeps it.\<close>

lemma reading_step:
  assumes r: "reading K k fd ino c buf p s"
    and m: "\<And>x. x \<in> file_area s (mem s) ino \<Longrightarrow> mem s' x = mem s x"
    and fs: "inodeblk s' = inodeblk s" "first_datablk s' = first_datablk s" "bootblk s' = bootblk s"
    and same: "cursor_ok s'" "now_term_id s' = now_term_id s" "cur_term_id s' = cur_term_id s" "terms s' = terms s" "esp s' = esp s"
    and pcb: "now_pcb s' = update_fd fd (\<lambda>f. f\<lparr>file_position := of_nat p'\<rparr>) (now_pcb s)"
  shows "reading K k fd ino c buf p' s'"
proof -
  note o = readingD [OF r]
  note f = file_content_cong [OF m o(10)] and fr = fs_frame [OF fs]
  have a: "pcb_of_term i s' = pcb_of_term i s" for i by (simp add: pcb_of_term_def same)
  have "fd_inv (now_pcb s')" using o(4) unfolding pcb by (auto simp: fd_inv_def)
  moreover have "get_cur_pcb s' = pcb_of_term (now_term_id s') s'" using o(5) by (simp add: get_cur_pcb_def a same)
  moreover have "colour s' = k" using o(3) by (simp add: same)
  ultimately show ?thesis
    using o f same unfolding reading_def fr pcb by simp
qed

lemma read_step:
  fixes K :: "'a kenv"
  assumes r: "reading K k fd ino c buf p s" and p: "p \<le> length c" and fd: "2 \<le> fd" "fd < 8" and b: "buf \<noteq> 0"
  defines "out \<equiv> take 1024 (drop p c)"
  obtains s1 where "ece391_read (kernel_env K resume data) (int fd) buf 1024 s = Some (int (length out), s1)"
    "reading K k fd ino c buf (p + length out) s1" "shown s1 = shown s" "load (mem s1) buf (length out) = out"
proof -
  note o = readingD [OF r]
  let ?a = "pcb_of_term (now_term_id s) s"
  let ?s1 = "update_pcb ?a (update_fd fd (\<lambda>f. f\<lparr>file_position := file_position f + of_nat (length out)\<rparr>)) (s\<lparr>mem := store (mem s) buf out\<rparr>)"
  have sz: "file_size s (mem s) ino = length c" using length_file_content [of s "mem s" ino] o(11) by simp
  have len: "length c < 1023 * 4096" using o(10) sz by (simp add: inode_ok_def)
  then have u: "unat (of_nat p :: u32) = p" using p by simp
  have fr: "file_read fd buf 1024 s = (int (length out), ?s1)"
    using file_read_eq [where s = s and fd = fd and nbytes = 1024 and buf = buf, unfolded o(5)] o u len p fd(1) b
    by (simp add: out_def Int_Un_distrib sz)
  have "sys_read irqs (int fd) buf 1024 s = Some (file_read fd buf 1024 s)" for irqs
    using fd b o(6,9) by (simp add: sys_read_def MAX_FILE_NUM_def file_fop_def)
  then have rd: "ece391_read (kernel_env K resume data) (int fd) buf 1024 s = Some (int (length out), ?s1)"
    using fr fd by (intro kernel_read) (simp_all add: int32_def out_def)
  have sub: "run buf (length out) \<subseteq> run buf 1024" by (rule image_mono) (auto simp: out_def)
  have m: "store (mem s) buf out x = mem s x" if "x \<notin> run buf 1024" for x
    by (rule store_outside_run) (use that sub in blast)
  have "reading K k fd ino c buf (p + length out) ?s1"
  proof (rule reading_step [OF r])
    show "mem ?s1 x = mem s x" if "x \<in> file_area s (mem s) ino" for x
      using m [of x] o(12) that by (simp del: image_iff) blast
    show "now_pcb ?s1 = update_fd fd (\<lambda>f. f\<lparr>file_position := of_nat (p + length out)\<rparr>) (now_pcb s)"
      using o(8) by (simp add: pcb_of_term_def update_fd_def)
  qed (use o(1) in \<open>simp_all add: update_pcb_def cursor_ok_def\<close>)
  moreover have "shown (s\<lparr>mem := store (mem s) buf out\<rparr>) = shown s"
    by (rule shown_upd) (use m o(12) in blast)
  then have "shown ?s1 = shown s" by (simp add: update_pcb_def shown_def)
  moreover have "load (mem ?s1) buf (length out) = out" by (simp add: load_store out_def)
  ultimately show thesis using that rd by blast
qed

lemma write_step:
  fixes K :: "'a kenv"
  assumes r: "reading K k fd ino c buf p s" and b: "buf \<noteq> 0"
    and out: "load (mem s) buf (length out) = out" "length out \<le> 1024" "0 \<notin> set out" "0x25 \<notin> set out"
  obtains s1 where "ece391_write (kernel_env K resume data) 1 buf (int (length out)) s = Some (int (length out), s1)"
    "reading K k fd ino c buf p s1" "shown s1 = fold (vga_put (0x20, k) (\<lambda>c. (c, k))) out (shown s)"
proof -
  note o = readingD [OF r]
  have "run buf (length out) \<subseteq> run buf 1024" by (rule image_mono) (use out(2) in auto)
  then have ap: "copy_area K \<inter> run buf (length out) = {}" using o(12) by blast
  obtain s1 where s1: "ece391_write (kernel_env K resume data) 1 buf (int (length out)) s = Some (int (length out), s1)"
    "cursor_ok s1" "console_only s s1" "shown s1 = fold (vga_put (0x20, k) (\<lambda>c. (c, k))) out (shown s)"
    "\<forall>x. x \<notin> copy_area K \<union> page VIDEO \<longrightarrow> mem s1 x = mem s x"
    by (rule write_shows [OF o(1-4) b out ap o(14)])
  have "reading K k fd ino c buf p s1"
  proof (rule reading_step [OF r])
    show "mem s1 x = mem s x" if "x \<in> file_area s (mem s) ino" for x by (rule off_write [OF s1(5) o(13) that])
    show "now_pcb s1 = update_fd fd (\<lambda>f. f\<lparr>file_position := of_nat p\<rparr>) (now_pcb s)"
      using console_only_proc(2) [OF s1(3)] o(8) by (simp add: update_fd_def fun_upd_idem)
  qed (use s1(2) console_only_fs [OF s1(3)] console_only_frame [OF s1(3)] in simp_all)
  then show thesis using that s1(1,4) by blast
qed

section \<open>The loop\<close>

lemma cat_loop_shows:
  fixes K :: "'a kenv"
  assumes "reading K k fd ino c buf p s" "p \<le> length c" "2 \<le> fd" "fd < 8" "buf \<noteq> 0" "0 \<notin> set c" "0x25 \<notin> set c"
  shows "\<exists>s'. cat_loop (kernel_env K resume data) (int fd) buf s = Some (0, s')
    \<and> shown s' = fold (vga_put (0x20, k) (\<lambda>c. (c, k))) (drop p c) (shown s)"
  using assms(1,2)
proof (induction "length c - p" arbitrary: p s rule: less_induct)
  case less
  let ?E = "kernel_env K resume data" and ?out = "take 1024 (drop p c)"
  obtain s1 where s1: "ece391_read ?E (int fd) buf 1024 s = Some (int (length ?out), s1)"
      "reading K k fd ino c buf (p + length ?out) s1" "shown s1 = shown s" "load (mem s1) buf (length ?out) = ?out"
    by (rule read_step [OF less.prems assms(3,4,5)])
  show ?case
  proof (cases "?out = []")
    case True
    then have "drop p c = []" by simp
    then show ?thesis using s1(1,3) True by (subst cat_loop.simps) simp
  next
    case False
    have "set ?out \<subseteq> set c" using set_take_subset [of 1024 "drop p c"] set_drop_subset [of p c] by blast
    then have nz: "0 \<notin> set ?out" "0x25 \<notin> set ?out" using assms(6,7) by blast+
    obtain s2 where s2: "ece391_write ?E 1 buf (int (length ?out)) s1 = Some (int (length ?out), s2)"
        "reading K k fd ino c buf (p + length ?out) s2" "shown s2 = fold (vga_put (0x20, k) (\<lambda>c. (c, k))) ?out (shown s1)"
      by (rule write_step [OF s1(2) assms(5) s1(4) _ nz]) simp
    have pos: "0 < length ?out" using False by blast
    then have "length c - (p + length ?out) < length c - p" "p + length ?out \<le> length c" using less.prems(2) by auto
    from less.hyps [OF this(1) s2(2) this(2)] obtain s' where
      s': "cat_loop ?E (int fd) buf s2 = Some (0, s')"
        "shown s' = fold (vga_put (0x20, k) (\<lambda>c. (c, k))) (drop (p + length ?out) c) (shown s2)" by blast
    have "cat_loop ?E (int fd) buf s = cat_loop ?E (int fd) buf s2"
      using s1(1) s2(1) pos by (subst cat_loop.simps) (simp, linarith)
    moreover have "drop p c = ?out @ drop (p + length ?out) c"
      using append_take_drop_id [of 1024 "drop p c"] by (cases "1024 \<le> length c - p") (simp_all add: add.commute)
    ultimately show ?thesis using s' s2(3) s1(3) by (metis fold_append comp_apply)
  qed
qed

section \<open>The program\<close>

text \<open>
  A process of the displayed terminal that has opened nothing, with the name of a regular file as its
  argument; its buffer, the kernel's local arrays, the screen and the image do not overlap.
\<close>

definition cat_ready :: "'a kenv \<Rightarrow> byte \<Rightarrow> byte list \<Rightarrow> u32 \<Rightarrow> addr \<Rightarrow> 'a fs_state_scheme \<Rightarrow> bool" where
  "cat_ready K k name ino buf s \<longleftrightarrow> cursor_ok s \<and> now_term_id s = cur_term_id s \<and> colour s = k
     \<and> fd_inv (now_pcb s) \<and> fresh (now_pcb s) \<and> get_cur_pcb s = pcb_of_term (now_term_id s) s
     \<and> argbuf (now_pcb s) = name @ replicate (100 - length name) 0 \<and> cur_tss_byte0 (now_pcb s) = 0
     \<and> name \<noteq> [] \<and> 0 \<notin> set name \<and> length name \<le> 32 \<and> holds_file s (mem s) name ino
     \<and> (\<forall>i. find (\<lambda>i. dentry_name s (mem s) i = name) [0..<63] = Some i \<longrightarrow> dentry_filetype (mem s) (dentry_addr s (of_nat i)) = 2)
     \<and> buf \<noteq> 0 \<and> dentry_at (kframe K) \<noteq> 0
     \<and> apart [run buf 1024, copy_area K, page VIDEO, image_area s (mem s) ino]
     \<and> run (dentry_at (kframe K)) 40 \<inter> (page VIDEO \<union> image_area s (mem s) ino) = {}"

lemma cat_opens:
  fixes K :: "'a kenv"
  assumes r: "cat_ready K k name ino buf s"
  obtains s1 s2 where "ece391_getargs (kernel_env K resume data) buf 1024 s = Some (0, s1)"
    "ece391_open (kernel_env K resume data) buf s1 = Some (2, s2)"
    "reading K k 2 ino (file_content s (mem s) ino) buf 0 s2" "shown s2 = shown s"
proof -
  let ?a = "pcb_of_term (now_term_id s) s" and ?I = "image_area s (mem s) ino" and ?d = "dentry_at (kframe K)"
  have o: "cursor_ok s" "now_term_id s = cur_term_id s" "colour s = k" "fd_inv (now_pcb s)" "fresh (now_pcb s)"
    "get_cur_pcb s = ?a" and ar: "argbuf (now_pcb s) = name @ replicate (100 - length name) 0" "cur_tss_byte0 (now_pcb s) = 0"
    and nm: "name \<noteq> []" "0 \<notin> set name" "length name \<le> 32" and h: "holds_file s (mem s) name ino"
    and ty: "\<forall>i. find (\<lambda>i. dentry_name s (mem s) i = name) [0..<63] = Some i \<longrightarrow> dentry_filetype (mem s) (dentry_addr s (of_nat i)) = 2"
    and nz: "buf \<noteq> 0" "?d \<noteq> 0" and ap: "apart [run buf 1024, copy_area K, page VIDEO, ?I]"
      "run ?d 40 \<inter> (page VIDEO \<union> ?I) = {}"
    using r unfolding cat_ready_def by blast+
  have bap: "run buf 1024 \<inter> copy_area K = {}" "run buf 1024 \<inter> page VIDEO = {}" "run buf 1024 \<inter> ?I = {}"
    "copy_area K \<inter> page VIDEO = {}" "copy_area K \<inter> ?I = {}" "page VIDEO \<inter> ?I = {}"
    using ap(1) by (simp_all only: apart.simps list.set ball_simps)
  have bvi: "run buf 1024 \<inter> (page VIDEO \<union> ?I) = {}" using bap(2,3) by blast
  define m1 where "m1 = store (mem s) buf (name @ [0])"
  define s1 where "s1 = s\<lparr>mem := m1\<rparr>"
  have "getargs buf 1024 s = Some (0, s1)"
    using getargs_eq [OF ar(1) nm(2) _ ar(2), of buf 1024] nm by (simp add: s1_def m1_def)
  then have g: "ece391_getargs (kernel_env K resume data) buf 1024 s = Some (0, s1)"
    by (rule kernel_getargs) (simp_all add: int32_def)
  have sub: "run buf (length (name @ [0])) \<subseteq> run buf 1024" by (rule image_mono) (use nm(3) in auto)
  have m1: "\<forall>x. x \<notin> run buf 1024 \<longrightarrow> m1 x = mem s x"
    unfolding m1_def using sub by (blast intro: store_outside_run)
  have i1: "m1 x = mem s x" if "x \<in> ?I" for x by (rule off_write [OF m1 bap(3) that])
  have fr: "holds_file s1 = holds_file s" "file_content s1 = file_content s" "image_area s1 = image_area s"
    by (rule image_frame; simp add: s1_def)+
  note h1 = holds_file_cong [OF i1 h]
  have c1: "cstr m1 buf name" unfolding m1_def by (rule cstr_store) (use nm in auto)
  have n: "dentry_name s1 = dentry_name s" "dentry_addr s1 = dentry_addr s" "dir_ok s1 = dir_ok s" "dir_area s1 = dir_area s"
    by (simp_all add: s1_def dentry_name_def dentry_addr_def dir_ok_def dir_area_def fun_eq_iff)
  have ms1: "mem s1 = m1" "pcbs s1 = pcbs s" "pcb_of_term (now_term_id s1) s1 = ?a" by (simp_all add: s1_def pcb_of_term_def)
  obtain i where i: "find (\<lambda>i. dentry_name s m1 i = name) [0..<63] = Some i" "dentry_inode m1 (dentry_addr s (of_nat i)) = ino"
      "dir_ok s m1"
    using h1(1) by (auto simp: holds_file_def)
  then have i63: "i < 63" by (auto simp: find_Some_iff)
  have t: "dentry_filetype m1 (dentry_addr s (of_nat i)) = 2" using h1(4) h1(5) [of i] i63 ty i(1) by simp
  have dap: "run ?d 40 \<inter> dir_area s = {}" using ap(2) unfolding image_area_def by blast
  define s2 where "s2 = (\<lambda>m. update_pcb ?a (update_fd 2 (\<lambda>f. f\<lparr>flags := 1, file_position := 0, inode := ino, optable := file_fop\<rparr>)) (s1\<lparr>mem := m\<rparr>))"
  obtain m where op: "ece391_open (kernel_env K resume data) buf s1 = Some (2, s2 m)"
      and m: "\<forall>x. x \<notin> run ?d 40 \<longrightarrow> m x = m1 x"
    unfolding s2_def
    by (rule kernel_opens [of s1 name i 2 buf K resume data, unfolded n ms1 i(2), OF i(3,1) t _ c1 nm(1,3) nz dap o(4,5)])
      simp_all
  have keep: "m x = mem s x" if "x \<in> page VIDEO \<union> ?I" for x
    using off_write [OF m ap(2) that] off_write [OF m1 bvi that] by simp
  define s2' where "s2' = s2 m"
  note op = op [folded s2'_def]
  have s2: "mem s2' = m" "terms s2' = terms s" "now_term_id s2' = now_term_id s" "cur_term_id s2' = cur_term_id s" "esp s2' = esp s"
      "inodeblk s2' = inodeblk s" "first_datablk s2' = first_datablk s" "bootblk s2' = bootblk s"
    by (simp_all add: s2'_def s2_def s1_def update_pcb_def)
  have p2: "pcb_of_term (now_term_id s) s2' = ?a" by (simp add: pcb_of_term_def s2)
  have f2: "fds (pcbs s2' ?a) = (fds (now_pcb s))(2 := (fds (now_pcb s) 2)\<lparr>flags := 1, file_position := 0, inode := ino, optable := file_fop\<rparr>)"
    by (simp add: s2'_def s2_def s1_def)
  have keepF: "m x = mem s x" if "x \<in> file_area s (mem s) ino" for x
    by (rule keep) (use that in \<open>simp add: image_area_def\<close>)
  have ok: "inode_ok s (mem s) ino" using h by (simp add: holds_file_def)
  have fm: "file_content s m ino = file_content s (mem s) ino" "inode_ok s m ino" "file_area s m ino = file_area s (mem s) ino"
    by (rule file_content_cong [OF _ ok], erule keepF)+
  note frs = fs_frame [OF s2(6-8)]
  have "A \<inter> file_area s (mem s) ino = {}" if "A \<inter> ?I = {}" for A using that unfolding image_area_def by blast
  note F = this [OF bap(3)] this [OF bap(5)] this [OF bap(6)]
  have apf: "run buf 1024 \<inter> (copy_area K \<union> page VIDEO \<union> file_area s (mem s) ino) = {}"
      "(copy_area K \<union> page VIDEO) \<inter> file_area s (mem s) ino = {}"
    using bap(1,2) F by (simp_all only: Int_Un_distrib Int_Un_distrib2 Un_empty_left simp_thms)
  have "reading K k 2 ino (file_content s (mem s) ino) buf 0 s2'"
    unfolding reading_def p2 f2 frs s2(1,3,4) fm(1,3)
  proof (intro conjI)
    show "cursor_ok s2'" using o(1) by (simp add: cursor_ok_def s2'_def s2_def s1_def update_pcb_def)
    show "get_cur_pcb s2' = ?a" using o(6) by (simp add: get_cur_pcb_def s2)
    show "fd_inv (pcbs s2' ?a)" using o(4) by (simp add: fd_inv_def f2)
  qed (rule o(2,3) fm(2) apf bap(4) refl | simp)+
  moreover have "shown s2' = shown s"
  proof -
    have "shown (s\<lparr>mem := m\<rparr>) = shown s" by (rule shown_upd) (use keep in blast)
    then show ?thesis by (simp add: shown_def s2'_def s2_def s1_def update_pcb_def)
  qed
  ultimately show thesis using that g op by blast
qed

section \<open>Properties\<close>

text \<open>C7: \<open>cat\<close> shows the file it is given, if that has no percent sign and no NUL. Run as a process
  of the displayed terminal with the name of a regular file of the image as its argument, it asks the kernel for its arguments, opens the
  file, reads it in pieces of 1024 bytes and writes each to the terminal; it ends with 0, and the
  screen then shows the whole content of the file from the cursor on, in the terminal's colour. A file
  with a percent sign is not shown as it is, since what is written reaches \<open>printf\<close> as its format;
  and each piece is shown only up to its first NUL.\<close>

theorem cat_shows_file:
  fixes K :: "'a kenv"
  assumes "cat_ready K k name ino buf s" and "0 \<notin> set (file_content s (mem s) ino)" "0x25 \<notin> set (file_content s (mem s) ino)"
  shows "\<exists>s'. cat_main (kernel_env K resume data) buf s = Some (0, s')
    \<and> shown s' = fold (vga_put (0x20, k) (\<lambda>c. (c, k))) (file_content s (mem s) ino) (shown s)"
proof -
  let ?c = "file_content s (mem s) ino"
  obtain s1 s2 where s: "ece391_getargs (kernel_env K resume data) buf 1024 s = Some (0, s1)"
    "ece391_open (kernel_env K resume data) buf s1 = Some (2, s2)" "reading K k 2 ino ?c buf 0 s2" "shown s2 = shown s"
    by (rule cat_opens [OF assms(1)])
  have "buf \<noteq> 0" using assms(1) by (simp add: cat_ready_def)
  from cat_loop_shows [OF s(3) _ _ _ this assms(2,3), of resume data] show ?thesis
    using s(1,2,4) by (simp add: cat_main_def)
qed

definition cat_boot :: fs_state where
  "cat_boot = (shell_boot fs_example_mem)\<lparr>now_term_id := 0, esp := 0x7FFF00, terms := \<lambda>_. no_term\<lparr>cur_pcb_id := 0\<rparr>,
     pcbs := \<lambda>_. std_pcb\<lparr>argbuf := [0x61, 0x62, 0x63] @ replicate 97 0\<rparr>\<rparr>"

theorem cat_shows_file_witness:
  "\<exists>s'. cat_main (kernel_env example_kenv (\<lambda>_. None) (\<lambda>_. 0)) 0x8050000 cat_boot = Some (0, s')
    \<and> shown s' = fold (vga_put (0x20, 0xD) (\<lambda>c. (c, 0xD))) [1, 2, 3] (shown cat_boot)"
proof -
  let ?f = "fs_boot fs_example_mem" and ?s = cat_boot
  have fs: "inodeblk ?s = inodeblk ?f" "first_datablk ?s = first_datablk ?f" "bootblk ?s = bootblk ?f" "fs_dentry ?s = fs_dentry ?f"
    by (simp_all add: cat_boot_def shell_boot_def)
  note fr = image_frame [OF fs] fs_frame [OF fs(1-3)]
  have m: "mem ?s = fs_example_mem" by (simp add: cat_boot_def)
  have dn: "dentry_name ?s = dentry_name ?f" "dentry_addr ?s = dentry_addr ?f"
    using fs(4) by (simp_all add: dentry_name_def dentry_addr_def fun_eq_iff)
  have t: "dentry_filetype fs_example_mem (dentry_addr ?f 0) = 2" "dentry_inode fs_example_mem (dentry_addr ?f 0) = 0"
    by (simp_all add: dentry_filetype_def dentry_inode_def dentry_addr_def load32_def fs_example_mem_def)
  have h: "holds_file ?f fs_example_mem [0x61, 0x62, 0x63] 0"
    using fs_example_dir_ok fs_example_ok fs_example_find t(2) by (simp add: holds_file_def)
  have ia: "image_area ?f fs_example_mem 0 \<subseteq> run 0x100000 12288"
    by (rule example_image_area) (simp_all add: fs_example_area)
  have r: "run 0x8050000 1024 \<inter> run 0x7FF000 1025 = {}" "run 0x8050000 1024 \<inter> page VIDEO = {}"
    "run 0x8050000 1024 \<inter> run 0x100000 12288 = {}" "run 0x7FF000 1025 \<inter> page VIDEO = {}"
    "run 0x7FF000 1025 \<inter> run 0x100000 12288 = {}" "page VIDEO \<inter> run 0x100000 12288 = {}"
    "run 0x7FC000 40 \<inter> page VIDEO = {}" "run 0x7FC000 40 \<inter> run 0x100000 12288 = {}"
    by (rule runs_apart; simp add: VIDEO_def)+
  have ap: "apart [run 0x8050000 1024, run 0x7FF000 1025, page VIDEO, image_area ?f fs_example_mem 0]"
      "run 0x7FC000 40 \<inter> (page VIDEO \<union> image_area ?f fs_example_mem 0) = {}"
  proof -
    have a: "apart [run 0x8050000 1024, run 0x7FF000 1025, page VIDEO, run 0x100000 12288]"
      by (simp only: apart.simps list.set ball_simps r simp_thms)
    show "apart [run 0x8050000 1024, run 0x7FF000 1025, page VIDEO, image_area ?f fs_example_mem 0]"
      by (rule apart_mono [OF _ a]) (use ia in \<open>simp only: list_all2_Cons list_all2_Nil order_refl simp_thms\<close>)
    show "run 0x7FC000 40 \<inter> (page VIDEO \<union> image_area ?f fs_example_mem 0) = {}" 
      using subset_apart [OF ia trans [OF Int_commute r(8)]] r(7)
      by (simp only: Int_Un_distrib Int_commute [of "image_area ?f fs_example_mem 0"] Un_empty_left)
  qed
  have pcb: "pcb_of_term 0 ?s = 0x7FE000" "get_cur_pcb ?s = 0x7FE000"
    by (simp_all add: cat_boot_def pcb_of_term_def get_pcb_from_id_def get_cur_pcb_def)
  have tid: "now_term_id ?s = 0" "cur_term_id ?s = 0" by (simp_all add: cat_boot_def)
  have p: "pcbs ?s a = std_pcb\<lparr>argbuf := [0x61, 0x62, 0x63] @ replicate 97 0\<rparr>" for a by (simp add: cat_boot_def)
  have "cursor_ok ?s" using on_display_cursor(2) [of fs_example_mem] by (simp add: cat_boot_def cursor_ok_def)
  moreover have "fd_inv (pcbs ?s a)" "fresh (pcbs ?s a)" "cur_tss_byte0 (pcbs ?s a) = 0" for a
    by (simp_all add: p fd_inv_def fresh_def std_pcb_def no_pcb_def)
  moreover have "length [0x61, 0x62, 0x63 :: byte] \<le> 32" "colour ?s = 0xD" by (simp_all add: tid attrib_of_def)
  ultimately have "cat_ready example_kenv 0xD [0x61, 0x62, 0x63] 0 0x8050000 ?s"
    unfolding cat_ready_def tid pcb m dn fr using h ap t(1) fs_example_find
    by (simp add: p example_kenv_def)
  moreover have "file_content ?s (mem ?s) 0 = [1, 2, 3]" by (simp add: fr m fs_example_content)
  ultimately show ?thesis using cat_shows_file [of example_kenv "0xD" _ 0 "0x8050000" ?s] by auto
qed

end
