(* ===== verification/Ls.thy ===== *)
theory Ls
  imports Kernel_Calls
begin

text \<open>
  \<open>ls\<close> on the kernel: the program shows the names of the directory from the kernel's position in it on,
  each on a line of its own, up to the first empty one, which reads like the end of the directory.
  The names are text without a percent sign, which \<open>printf\<close> would interpret. The position is one for
  all processes, so a listing that another has begun goes on where that one is.
\<close>

section \<open>Reading the directory\<close>

definition dir_names :: "'a fs_state_scheme \<Rightarrow> byte list list" where
  "dir_names s = map (dentry_name s (mem s)) [0..<unat (num_dentries (bootblk s))]"

definition listing :: "'a kenv \<Rightarrow> byte \<Rightarrow> nat \<Rightarrow> byte list list \<Rightarrow> addr \<Rightarrow> nat \<Rightarrow> 'a fs_state_scheme \<Rightarrow> bool" where
  "listing K k fd names buf i s \<longleftrightarrow> cursor_ok s \<and> now_term_id s = cur_term_id s \<and> colour s = k \<and> fd_inv (now_pcb s)
     \<and> optable (fds (now_pcb s) fd) = dir_fop \<and> flags (fds (now_pcb s) fd) = 1
     \<and> num_file_read s = of_nat i \<and> i \<le> length names \<and> length names \<le> 63 \<and> dir_names s = names
     \<and> run buf 33 \<inter> (copy_area K \<union> page VIDEO \<union> dir_area s) = {}
     \<and> (copy_area K \<union> page VIDEO) \<inter> dir_area s = {} \<and> copy_area K \<inter> page VIDEO = {}"

lemma listingD:
  assumes "listing K k fd names buf i s"
  shows "cursor_ok s" "now_term_id s = cur_term_id s" "colour s = k" "fd_inv (now_pcb s)"
    "optable (fds (now_pcb s) fd) = dir_fop" "flags (fds (now_pcb s) fd) = 1"
    "num_file_read s = of_nat i" "i \<le> length names" "length names \<le> 63" "dir_names s = names"
    "run buf 33 \<inter> (copy_area K \<union> page VIDEO \<union> dir_area s) = {}"
    "(copy_area K \<union> page VIDEO) \<inter> dir_area s = {}" "copy_area K \<inter> page VIDEO = {}"
  using assms unfolding listing_def by blast+

lemma dir_names_cong:
  assumes "\<And>x. x \<in> dir_area s \<Longrightarrow> mem s' x = mem s x" and "fs_dentry s' = fs_dentry s" "bootblk s' = bootblk s"
    and "length (dir_names s) \<le> 63"
  shows "dir_names s' = dir_names s"
proof -
  have "dentry_name s' (mem s') j = dentry_name s (mem s) j" if "j < 63" for j
    using dentry_same(3) [where s = s and m' = "mem s'" and m = "mem s", OF assms(1) that] assms(2)
    by (simp add: dentry_name_def dentry_addr_def)
  then show ?thesis using assms(3,4) by (simp add: dir_names_def)
qed

text \<open>A step that writes elsewhere and moves the position in the directory keeps it.\<close>

lemma listing_step:
  assumes r: "listing K k fd names buf i s" and m: "\<And>x. x \<in> dir_area s \<Longrightarrow> mem s' x = mem s x"
    and fs: "fs_dentry s' = fs_dentry s" "bootblk s' = bootblk s" "num_file_read s' = of_nat i'" "i' \<le> length names"
    and same: "cursor_ok s'" "now_term_id s' = now_term_id s" "cur_term_id s' = cur_term_id s" "terms s' = terms s" "pcbs s' = pcbs s"
  shows "listing K k fd names buf i' s'"
proof -
  note o = listingD [OF r]
  have "dir_names s' = names" using dir_names_cong [OF m fs(1,2)] o(9,10) by simp
  moreover have "dir_area s' = dir_area s" by (simp add: dir_area_def dentry_addr_def fs(1))
  moreover have "now_pcb s' = now_pcb s" "colour s' = k" using o(3) by (simp_all add: pcb_of_term_def same)
  ultimately show ?thesis using o fs(3,4) same(1-3) unfolding listing_def by simp
qed

lemma ls_read:
  fixes K :: "'a kenv"
  assumes r: "listing K k fd names buf i s" and i: "i < length names" and fd: "fd < 8" and b: "buf \<noteq> 0"
  obtains s1 where "ece391_read (kernel_env K resume data) (int fd) buf 32 s = Some (int (length (names ! i)), s1)"
    "listing K k fd names buf (Suc i) s1" "shown s1 = shown s" "load (mem s1) buf (length (names ! i)) = names ! i"
    "length (names ! i) \<le> 32" "0 \<notin> set (names ! i)"
proof -
  note o = listingD [OF r]
  let ?name = "names ! i"
  define s1 where "s1 = s\<lparr>mem := store (mem s) buf (?name @ replicate (33 - length ?name) 0), num_file_read := of_nat (Suc i)\<rparr>"
  have n: "unat (num_dentries (bootblk s)) = length names" using o(10) by (auto simp: dir_names_def)
  have name: "?name = str_prefix (mem s) (dentry_addr s (of_nat i)) 32"
    using i o(10) by (auto simp: dir_names_def dentry_name_def)
  have l: "length ?name \<le> 32"
    using length_takeWhile_le [of "\<lambda>b. b \<noteq> 0" "load (mem s) (dentry_addr s (of_nat i)) 32"] by (simp add: name str_prefix_def)
  have nz: "0 \<notin> set ?name" unfolding name str_prefix_def by (auto dest: set_takeWhileD)
  have "run (dentry_addr s (of_nat i)) 32 \<subseteq> dir_area s"
    using i o(9) run_subset [of 0 32 40 "dentry_addr s (of_nat i)"] unfolding dir_area_def by fastforce
  then have ap: "run buf 33 \<inter> run (dentry_addr s (num_file_read s)) 32 = {}" using o(7,11) by auto
  have lt: "num_file_read s < num_dentries (bootblk s)" using i n o(7,9) by (simp add: word_less_nat_alt)
  have "dir_read fd buf 32 s = Some (int (length ?name), s1)"
    using dir_read_eq [OF b lt ap, of fd 32] by (simp add: s1_def o(7) name)
  then have "sys_read irqs (int fd) buf 32 s = Some (int (length ?name), s1)" for irqs
    using fd b o(5,6) by (simp add: sys_read_def MAX_FILE_NUM_def dir_fop_def)
  then have rd: "ece391_read (kernel_env K resume data) (int fd) buf 32 s = Some (int (length ?name), s1)"
    using fd l by (intro kernel_read) (simp_all add: int32_def)
  have m: "mem s1 x = mem s x" if "x \<notin> run buf 33" for x
    using store_outside_run [of x buf "?name @ replicate (33 - length ?name) 0" "mem s"] that l by (simp add: s1_def)
  have "listing K k fd names buf (Suc i) s1"
  proof (rule listing_step [OF r])
    show "mem s1 x = mem s x" if "x \<in> dir_area s" for x by (rule m) (use o(11) that in blast)
  qed (use o(1) i in \<open>simp_all add: s1_def cursor_ok_def\<close>)
  moreover have "shown (s\<lparr>mem := mem s1\<rparr>) = shown s" by (rule shown_upd) (use m o(11) in blast)
  then have "shown s1 = shown s" by (simp add: s1_def shown_def)
  moreover have "load (mem s1) buf (length ?name) = ?name"
    by (rule nth_equalityI) (use l in \<open>auto simp: s1_def store_def nth_append\<close>)
  ultimately show thesis using that rd l nz by blast
qed

lemma ls_write:
  fixes K :: "'a kenv"
  assumes r: "listing K k fd names buf i s" and b: "buf \<noteq> 0"
    and nm: "load (mem s) buf (length nm) = nm" "length nm \<le> 32" "0 \<notin> set nm" "0x25 \<notin> set nm"
  obtains s1 where "ece391_write (kernel_env K resume data) 1 buf (int (length nm) + 1)
      (poke (buf + word_of_int (int (length nm))) 0x0A s) = Some (int (length nm) + 1, s1)"
    "listing K k fd names buf i s1" "shown s1 = fold (vga_put (0x20, k) (\<lambda>c. (c, k))) (nm @ [0x0A]) (shown s)"
proof -
  note o = listingD [OF r]
  let ?out = "nm @ [0x0A]"
  define s0 where "s0 = poke (buf + of_nat (length nm)) 0x0A s"
  have sub: "run buf (length ?out) \<subseteq> run buf 33" by (rule image_mono) (use nm(2) in auto)
  then have ap: "copy_area K \<inter> run buf (length ?out) = {}" using o(11) by blast
  have m0: "mem s0 x = mem s x" if "x \<notin> run buf 33" for x
  proof -
    have "buf + of_nat (length nm) \<in> run buf 33" using nm(2) by auto
    then show ?thesis using that by (auto simp: s0_def)
  qed
  have ld: "load (mem s0) buf (length ?out) = ?out"
  proof (rule nth_equalityI)
    fix j assume "j < length (load (mem s0) buf (length ?out))"
    then have j: "j < length ?out" by simp
    have "load (mem s) buf (length nm) ! j = nm ! j" if "j < length nm" by (simp only: nm(1))
    then show "load (mem s0) buf (length ?out) ! j = ?out ! j"
      using j nm(2) by (auto simp: s0_def nth_append less_Suc_eq)
  qed simp
  have s0: "cursor_ok s0" "now_term_id s0 = cur_term_id s0" "colour s0 = k" "fd_inv (now_pcb s0)"
    using o(1-4) by (simp_all add: s0_def poke_def cursor_ok_def pcb_of_term_def)
  have l0: "listing K k fd names buf i s0"
  proof (rule listing_step [OF r])
    show "mem s0 x = mem s x" if "x \<in> dir_area s" for x by (rule m0) (use o(11) that in blast)
  qed (use s0(1) o(7,8) in \<open>simp_all add: s0_def poke_def\<close>)
  have sh: "shown s0 = shown s"
  proof -
    have "shown (s\<lparr>mem := mem s0\<rparr>) = shown s" by (rule shown_upd) (use m0 o(11) in blast)
    then show ?thesis by (simp add: s0_def poke_def shown_def)
  qed
  obtain s1 where s1: "ece391_write (kernel_env K resume data) 1 buf (int (length ?out)) s0 = Some (int (length ?out), s1)"
    "cursor_ok s1" "console_only s0 s1" "shown s1 = fold (vga_put (0x20, k) (\<lambda>c. (c, k))) ?out (shown s0)"
    "\<forall>x. x \<notin> copy_area K \<union> page VIDEO \<longrightarrow> mem s1 x = mem s0 x"
    by (rule write_shows [OF s0 b ld _ _ _ ap o(13)]) (use nm in simp_all)
  have "listing K k fd names buf i s1"
  proof (rule listing_step [OF l0])
    show "mem s1 x = mem s0 x" if "x \<in> dir_area s0" for x by (rule off_write [OF s1(5) listingD(12) [OF l0] that])
  qed (use s1(2) console_only_fs [OF s1(3)] console_only_frame [OF s1(3)] console_only_proc(1) [OF s1(3)] listingD(7,8) [OF l0] in simp_all)
  then show thesis using that s1(1,4) sh by (simp add: s0_def add.commute)
qed

section \<open>The program\<close>

abbreviation lines_of :: "byte list list \<Rightarrow> byte list" where
  "lines_of names \<equiv> concat (map (\<lambda>nm. nm @ [0x0A]) names)"

lemma ls_loop_shows:
  fixes K :: "'a kenv"
  assumes "listing K k fd names buf i s" "fd < 8" "buf \<noteq> 0" "\<forall>nm \<in> set names. 0x25 \<notin> set nm"
  shows "\<exists>s'. ls_loop (kernel_env K resume data) (int fd) buf s = Some (0, s')
    \<and> shown s' = fold (vga_put (0x20, k) (\<lambda>c. (c, k))) (lines_of (takeWhile (\<lambda>nm. nm \<noteq> []) (drop i names))) (shown s)
    \<and> ([] \<in> set (drop i names) \<or> num_file_read s' = 0)"
  using assms(1)
proof (induction "length names - i" arbitrary: i s)
  case 0
  note o = listingD [OF 0(2)]
  have "i = length names" "unat (num_dentries (bootblk s)) = length names"
    using 0(1) o(8,10) by (auto simp: dir_names_def)
  then have "\<not> num_file_read s < num_dentries (bootblk s)" using o(7,9) by (simp add: word_less_nat_alt)
  then have "dir_read fd buf 32 s = Some (0, s\<lparr>num_file_read := 0\<rparr>)" using assms(3) by (simp add: dir_read_def)
  then have "sys_read irqs (int fd) buf 32 s = Some (0, s\<lparr>num_file_read := 0\<rparr>)" for irqs
    using assms(2,3) o(5,6) by (simp add: sys_read_def MAX_FILE_NUM_def dir_fop_def)
  then have "ece391_read (kernel_env K resume data) (int fd) buf 32 s = Some (0, s\<lparr>num_file_read := 0\<rparr>)"
    using assms(2) by (intro kernel_read) (simp_all add: int32_def)
  then show ?case using \<open>i = length names\<close> by (subst ls_loop.simps) (simp add: shown_def)
next
  case (Suc n)
  let ?E = "kernel_env K resume data" and ?nm = "names ! i"
  have i: "i < length names" using Suc(2) by simp
  obtain s1 where s1: "ece391_read ?E (int fd) buf 32 s = Some (int (length ?nm), s1)" "listing K k fd names buf (Suc i) s1"
      "shown s1 = shown s" "load (mem s1) buf (length ?nm) = ?nm" "length ?nm \<le> 32" "0 \<notin> set ?nm"
    by (rule ls_read [OF Suc(3) i assms(2,3)])
  have d: "drop i names = ?nm # drop (Suc i) names" using i by (simp add: Cons_nth_drop_Suc)
  show ?case
  proof (cases "?nm = []")
    case True
    then have "ls_loop ?E (int fd) buf s = Some (0, s1)"
      using s1(1) by (subst ls_loop.simps) simp
    then show ?thesis using True d s1(3) by simp
  next
    case False
    have nm: "?nm \<noteq> []" "0x25 \<notin> set ?nm" using assms(4) i False by simp_all
    obtain s2 where s2: "ece391_write ?E 1 buf (int (length ?nm) + 1) (poke (buf + word_of_int (int (length ?nm))) 0x0A s1)
          = Some (int (length ?nm) + 1, s2)" "listing K k fd names buf (Suc i) s2"
        "shown s2 = fold (vga_put (0x20, k) (\<lambda>c. (c, k))) (?nm @ [0x0A]) (shown s1)"
      by (rule ls_write [OF s1(2) assms(3) s1(4-6) nm(2)])
    have "n = length names - Suc i" using Suc(2) by simp
    from Suc(1) [OF this s2(2)] obtain s' where s': "ls_loop ?E (int fd) buf s2 = Some (0, s')"
      "shown s' = fold (vga_put (0x20, k) (\<lambda>c. (c, k))) (lines_of (takeWhile (\<lambda>nm. nm \<noteq> []) (drop (Suc i) names))) (shown s2)"
      "[] \<in> set (drop (Suc i) names) \<or> num_file_read s' = 0" by blast
    have "int (length ?nm) \<noteq> 0" "int (length ?nm) \<noteq> -1" "int (length ?nm) + 1 \<noteq> -1" using nm(1) by simp_all
    then have "ls_loop ?E (int fd) buf s = ls_loop ?E (int fd) buf s2"
      by (subst ls_loop.simps) (simp only: s1(1) s2(1) Option.bind.bind_lunit case_prod_conv if_False)
    then show ?thesis using s' s2(3) s1(3) nm(1) by (simp add: d)
  qed
qed

text \<open>
  A process of the displayed terminal that has opened nothing, on an image whose directory has an entry
  "." for the directory itself. Its buffer, the kernel's local arrays, the
  screen and the directory do not overlap.
\<close>

definition ls_ready :: "'a kenv \<Rightarrow> (string \<Rightarrow> addr) \<Rightarrow> byte \<Rightarrow> addr \<Rightarrow> 'a fs_state_scheme \<Rightarrow> bool" where
  "ls_ready K data k buf s \<longleftrightarrow> cursor_ok s \<and> now_term_id s = cur_term_id s \<and> colour s = k
     \<and> fd_inv (now_pcb s) \<and> fresh (now_pcb s) \<and> dir_ok s (mem s) \<and> unat (num_file_read s) \<le> length (dir_names s) \<and> length (dir_names s) \<le> 63
     \<and> (\<exists>i. find (\<lambda>i. dentry_name s (mem s) i = [0x2E]) [0..<63] = Some i \<and> dentry_filetype (mem s) (dentry_addr s (of_nat i)) = 1)
     \<and> cstr (mem s) (data ''.'') [0x2E] \<and> data ''.'' \<noteq> 0 \<and> buf \<noteq> 0 \<and> dentry_at (kframe K) \<noteq> 0
     \<and> apart [run buf 33, copy_area K, page VIDEO, dir_area s] \<and> run (dentry_at (kframe K)) 40 \<inter> (page VIDEO \<union> dir_area s) = {}"

lemma ls_opens:
  fixes K :: "'a kenv"
  assumes r: "ls_ready K data k buf s"
  obtains s1 where "ece391_open (kernel_env K resume data) (data ''.'') s = Some (2, s1)"
    "listing K k 2 (dir_names s) buf (unat (num_file_read s)) s1" "shown s1 = shown s"
proof -
  let ?a = "pcb_of_term (now_term_id s) s" and ?d = "dentry_at (kframe K)"
  have o: "cursor_ok s" "now_term_id s = cur_term_id s" "colour s = k" "fd_inv (now_pcb s)" "fresh (now_pcb s)" "dir_ok s (mem s)"
    "unat (num_file_read s) \<le> length (dir_names s)" "length (dir_names s) \<le> 63" and dot: "cstr (mem s) (data ''.'') [0x2E]"
    and nz: "data ''.'' \<noteq> 0" "?d \<noteq> 0" and ap: "apart [run buf 33, copy_area K, page VIDEO, dir_area s]"
      "run ?d 40 \<inter> (page VIDEO \<union> dir_area s) = {}"
    and ex: "\<exists>i. find (\<lambda>i. dentry_name s (mem s) i = [0x2E]) [0..<63] = Some i \<and> dentry_filetype (mem s) (dentry_addr s (of_nat i)) = 1"
    using r unfolding ls_ready_def by blast+
  obtain i where i: "find (\<lambda>i. dentry_name s (mem s) i = [0x2E]) [0..<63] = Some i" "dentry_filetype (mem s) (dentry_addr s (of_nat i)) = 1"
    using ex by blast
  have bap: "run buf 33 \<inter> copy_area K = {}" "run buf 33 \<inter> page VIDEO = {}" "run buf 33 \<inter> dir_area s = {}"
    "copy_area K \<inter> page VIDEO = {}" "copy_area K \<inter> dir_area s = {}" "page VIDEO \<inter> dir_area s = {}"
    using ap(1) by (simp_all only: apart.simps list.set ball_simps)
  have dap: "run ?d 40 \<inter> dir_area s = {}" using ap(2) by blast
  define s1 where "s1 = (\<lambda>m. update_pcb ?a (update_fd 2 (\<lambda>f. f\<lparr>flags := 1, file_position := 0, inode := 0, optable := dir_fop\<rparr>)) (s\<lparr>mem := m\<rparr>))"
  obtain m where op: "ece391_open (kernel_env K resume data) (data ''.'') s = Some (2, s1 m)"
      and m: "\<forall>x. x \<notin> run ?d 40 \<longrightarrow> m x = mem s x"
    unfolding s1_def by (rule kernel_opens [OF o(6) i _ dot _ _ nz dap o(4,5)]) simp_all
  have keep: "m x = mem s x" if "x \<in> page VIDEO \<union> dir_area s" for x by (rule off_write [OF m ap(2) that])
  have f: "mem (s1 m) = m" "terms (s1 m) = terms s" "now_term_id (s1 m) = now_term_id s" "cur_term_id (s1 m) = cur_term_id s"
      "fs_dentry (s1 m) = fs_dentry s" "bootblk (s1 m) = bootblk s" "num_file_read (s1 m) = num_file_read s" "dir_area (s1 m) = dir_area s"
    using o(7) by (simp_all add: s1_def update_pcb_def dir_area_def dentry_addr_def)
  have p: "pcb_of_term (now_term_id s) (s1 m) = ?a" by (simp add: pcb_of_term_def f)
  have fd: "fds (pcbs (s1 m) ?a) = (fds (now_pcb s))(2 := (fds (now_pcb s) 2)\<lparr>flags := 1, file_position := 0, inode := 0, optable := dir_fop\<rparr>)"
    by (simp add: s1_def)
  have "dir_names (s1 m) = dir_names s" by (rule dir_names_cong) (use f keep o(8) in \<open>simp_all\<close>)
  moreover have "cursor_ok (s1 m)" using o(1) by (simp add: cursor_ok_def s1_def update_pcb_def)
  moreover have "fd_inv (pcbs (s1 m) ?a)" using o(4) by (simp add: fd_inv_def fd)
  moreover have "run buf 33 \<inter> (copy_area K \<union> page VIDEO \<union> dir_area s) = {}" "(copy_area K \<union> page VIDEO) \<inter> dir_area s = {}"
    using bap by (simp_all only: Int_Un_distrib Int_Un_distrib2 Un_empty_left)
  ultimately have "listing K k 2 (dir_names s) buf (unat (num_file_read s)) (s1 m)"
    unfolding listing_def f p fd using o(2,3,7,8) bap(4) by simp
  moreover have "shown (s\<lparr>mem := m\<rparr>) = shown s" by (rule shown_upd) (use keep in blast)
  then have "shown (s1 m) = shown s" by (simp add: shown_def s1_def update_pcb_def)
  ultimately show thesis using that op by blast
qed

section \<open>Properties\<close>

text \<open>C9: \<open>ls\<close> shows the directory. Run as a process of the displayed terminal, it opens ".", asks the
  kernel for the names one by one and writes each to the terminal with a newline; it ends with 0, and the
  screen then shows the names of the directory in its order, a line each, from the kernel's position in it
  on up to the first empty name; if there is no empty one the position is back at the start. So
  it is the whole directory if no listing was under way and no name is empty, and the rest of it if
  another process's listing was. No name may have a percent sign.\<close>

theorem ls_shows_directory:
  fixes K :: "'a kenv"
  assumes "ls_ready K data k buf s" and "\<forall>nm \<in> set (dir_names s). 0x25 \<notin> set nm"
    and "names = drop (unat (num_file_read s)) (dir_names s)"
  shows "\<exists>s'. ls_main (kernel_env K resume data) buf s = Some (0, s')
    \<and> shown s' = fold (vga_put (0x20, k) (\<lambda>c. (c, k))) (concat (map (\<lambda>nm. nm @ [0x0A]) (takeWhile (\<lambda>nm. nm \<noteq> []) names))) (shown s)
    \<and> ([] \<in> set names \<or> num_file_read s' = 0)"
proof -
  obtain s1 where s: "ece391_open (kernel_env K resume data) (data ''.'') s = Some (2, s1)"
    "listing K k 2 (dir_names s) buf (unat (num_file_read s)) s1" "shown s1 = shown s"
    by (rule ls_opens [OF assms(1)])
  have "buf \<noteq> 0" using assms(1) by (simp add: ls_ready_def)
  moreover have "ro_data (kernel_env K resume data) = data" by (simp add: kernel_env_def)
  ultimately show ?thesis
    using ls_loop_shows [OF s(2) _ _ assms(2), of resume data] s(1,3) unfolding assms(3) by (simp add: ls_main_def)
qed

text \<open>The example image with a second entry, for the directory itself.\<close>

definition ls_mem :: mem where
  "ls_mem = fs_example_mem(0x100080 := 0x2E, 0x1000A0 := 1, 0x300010 := 0x2E)"

definition ls_boot :: fs_state where
  "ls_boot = (on_display ls_mem)\<lparr>bootblk := \<lparr>num_dentries = 2, num_inodes = 1, num_datablocks = 1, reserved = replicate 52 0\<rparr>\<rparr>"

lemma ls_boot_simps [simp]:
  "mem ls_boot = ls_mem" "num_file_read ls_boot = 0" "now_term_id ls_boot = 0" "cur_term_id ls_boot = 0"
  "pcbs ls_boot a = std_pcb" "fs_dentry ls_boot = 0x100040" "num_dentries (bootblk ls_boot) = 2"
  by (simp_all add: ls_boot_def on_display_def) (simp_all add: shell_boot_def)

lemma ls_dentry_addr: "dentry_addr ls_boot (of_nat i) = 0x100040 + of_nat (64 * i)"
  by (simp add: dentry_addr_def mult.commute)

lemma ls_dir_ok: "dir_ok ls_boot ls_mem"
  unfolding dir_ok_def
proof (intro allI impI)
  fix i :: nat assume "i < 63"
  have zero: "ls_mem a = 0" if "0x1000A1 \<le> a" "a \<le> 0x100FFF" for a
    using that by (auto simp: ls_mem_def fs_example_mem_def word_le_nat_alt)
  show "dentry_filetype ls_mem (dentry_addr ls_boot (of_nat i)) < 0x1000000"
  proof (cases "i < 2")
    case True
    have e: "dentry_filetype ls_mem 0x100040 = 2" "dentry_filetype ls_mem 0x100080 = 1"
      by (simp_all add: dentry_filetype_def load32_def ls_mem_def fs_example_mem_def)
    from True consider "i = 0" | "i = 1" by linarith
    then show ?thesis by cases (simp_all add: dentry_addr_def e)
  next
    case False
    have "ls_mem (0x100040 + of_nat (64 * i + k)) = 0" if "k \<in> {32, 33, 34, 35}" for k
      using that False \<open>i < 63\<close> unat_of_nat_u32 [of "0x100040 + 64 * i + k"]
      by (intro zero) (auto simp: word_le_nat_alt)
    from this [of 32] this [of 33] this [of 34] this [of 35] show ?thesis
      by (simp add: ls_dentry_addr dentry_filetype_def load32_def add.assoc)
  qed
qed

lemma ls_entries:
  "dentry_name ls_boot ls_mem 0 = [0x61, 0x62, 0x63]" "dentry_name ls_boot ls_mem (Suc 0) = [0x2E]"
  "dentry_filetype ls_mem 0x100080 = 1"
  by (simp_all add: dentry_name_def dentry_addr_def str_prefix_def load_def upt_rec dentry_filetype_def load32_def)
    (simp_all add: ls_mem_def fs_example_mem_def)

lemma ls_names: "dir_names ls_boot = [[0x61, 0x62, 0x63], [0x2E]]"
  by (simp add: dir_names_def upt_rec ls_entries)

theorem ls_shows_directory_witness:
  "\<exists>s'. ls_main (kernel_env example_kenv (\<lambda>_. None) (\<lambda>_. 0x300010)) 0x8050000 ls_boot = Some (0, s')
    \<and> shown s' = fold (vga_put (0x20, 0xD) (\<lambda>c. (c, 0xD))) [0x61, 0x62, 0x63, 0x0A, 0x2E, 0x0A] (shown ls_boot) \<and> num_file_read s' = 0"
proof -
  have u: "[0..<63] = 0 # Suc 0 # [Suc (Suc 0)..<63]" by (simp only: upt_conv_Cons [of 0 63] upt_conv_Cons [of "Suc 0" 63])
  have "find (\<lambda>i. dentry_name ls_boot ls_mem i = [0x2E]) [0..<63] = Some (Suc 0)"
    unfolding u by (simp add: ls_entries)
  moreover have "dentry_addr ls_boot (of_nat (Suc 0)) = 0x100080" by (simp add: dentry_addr_def)
  ultimately have dot: "\<exists>i. find (\<lambda>i. dentry_name ls_boot ls_mem i = [0x2E]) [0..<63] = Some i
      \<and> dentry_filetype ls_mem (dentry_addr ls_boot (of_nat i)) = 1"
    using ls_entries(3) by auto
  have da: "dir_area ls_boot \<subseteq> run 0x100000 12288"
  proof -
    have "dir_area ls_boot = dir_area (fs_boot fs_example_mem)" by (simp add: dir_area_def dentry_addr_def)
    moreover have "image_area (fs_boot fs_example_mem) fs_example_mem 0 \<subseteq> run 0x100000 12288"
      by (rule example_image_area) (simp_all add: fs_example_area)
    ultimately show ?thesis by (simp add: image_area_def)
  qed
  have r: "run 0x8050000 33 \<inter> run 0x7FF000 1025 = {}" "run 0x8050000 33 \<inter> page VIDEO = {}"
    "run 0x8050000 33 \<inter> run 0x100000 12288 = {}" "run 0x7FF000 1025 \<inter> page VIDEO = {}"
    "run 0x7FF000 1025 \<inter> run 0x100000 12288 = {}" "page VIDEO \<inter> run 0x100000 12288 = {}"
    "run 0x7FC000 40 \<inter> page VIDEO = {}" "run 0x7FC000 40 \<inter> run 0x100000 12288 = {}"
    by (rule runs_apart; simp add: VIDEO_def)+
  have a: "apart [run 0x8050000 33, run 0x7FF000 1025, page VIDEO, run 0x100000 12288]"
    by (simp only: apart.simps list.set ball_simps r simp_thms)
  have ap: "apart [run 0x8050000 33, run 0x7FF000 1025, page VIDEO, dir_area ls_boot]"
    by (rule apart_mono [OF _ a]) (use da in \<open>simp only: list_all2_Cons list_all2_Nil order_refl simp_thms\<close>)
  have d: "run 0x7FC000 40 \<inter> (page VIDEO \<union> dir_area ls_boot) = {}"
    using subset_apart [OF da trans [OF Int_commute r(8)]] r(7)
    by (simp only: Int_Un_distrib Int_commute [of "dir_area ls_boot"] Un_empty_left)
  have "cursor_ok ls_boot" using on_display_cursor(1) [of ls_mem] by (simp add: ls_boot_def cursor_ok_def)
  moreover have "fd_inv std_pcb" "fresh std_pcb" by (simp_all add: fd_inv_def fresh_def std_pcb_def no_pcb_def)
  moreover have "cstr ls_mem 0x300010 [0x2E]" by (simp add: cstr_def load_def ls_mem_def fs_example_mem_def)
  ultimately have "ls_ready example_kenv (\<lambda>_. 0x300010) 0xD 0x8050000 ls_boot"
    unfolding ls_ready_def using dot ap d ls_dir_ok ls_names
    by (simp add: example_kenv_def attrib_of_def)
  from ls_shows_directory [OF this _ refl, of "\<lambda>_. None"] show ?thesis by (auto simp: ls_names)
qed

end
