(* ===== verification/Line_Input.thy ===== *)
theory Line_Input
  imports Kernel_Calls Keyboard
begin

text \<open>
  A program that shows text and reads typed lines, the way the shell and \<open>hello\<close> work. The locale
  \<open>line_user\<close> is what such a program relies on: its literals are shown, a read of the standard input
  returns the line the user types, and its buffer can be written and shown. The programs are proved
  over it, and the kernel is shown to provide it, from the scan codes of the keys on.
\<close>

section \<open>The contract\<close>

locale line_user = user_output E ok view vput M
  for E :: "'a machine_scheme user_env" and ok :: "'a machine_scheme \<Rightarrow> bool" and view :: "'a machine_scheme \<Rightarrow> 'v"
    and vput :: "byte \<Rightarrow> 'v \<Rightarrow> 'v" and M :: "string set" +
  fixes buf :: addr and typed :: "byte list" and puts_max :: nat
  assumes line: "ok s \<Longrightarrow> 0 \<notin> set typed \<and> length typed \<le> 127"
    and read: "ok s \<Longrightarrow> \<exists>s'. ece391_read E 0 buf 1023 s = Some (int (length typed) + 1, s') \<and> ok s'
      \<and> load (mem s') buf (length typed + 1) = typed @ [0x0A] \<and> view s' = fold vput (typed @ [0x0A]) (view s)"
    and poke: "ok s \<Longrightarrow> a \<in> run buf 1024 \<Longrightarrow> ok (poke a b s) \<and> view (poke a b s) = view s"
    and show_buf: "ok s \<Longrightarrow> cstr (mem s) buf xs \<Longrightarrow> length xs \<le> puts_max \<Longrightarrow> 0x25 \<notin> set xs \<Longrightarrow>
      \<exists>s'. ece391_fdputs E 1 buf s = Some s' \<and> view s' = fold vput xs (view s)"
    and say_keeps: "ok s \<Longrightarrow> msg \<in> M \<Longrightarrow> say E msg s = Some s' \<Longrightarrow> x \<in> run buf 1024 \<Longrightarrow> mem s' x = mem s x"
    and literal: "ok s \<Longrightarrow> msg \<in> M \<Longrightarrow> cstr (mem s) (ro_data E msg) (lit msg)"
begin

text \<open>The line in the buffer, ended after \<open>n\<close> of its characters and the newline.\<close>

lemma read_line:
  assumes "ok s" and "n = length typed \<or> n = length typed + 1"
  obtains s1 where "ece391_read E 0 buf 1023 s = Some (int (length typed) + 1, s1)"
    "mem s1 (buf + of_nat (length typed)) = 0x0A"
    "ok (poke (buf + of_nat n) 0 s1)" "cstr (mem (poke (buf + of_nat n) 0 s1)) buf (take n (typed @ [0x0A]))"
    "view (poke (buf + of_nat n) 0 s1) = fold vput (typed @ [0x0A]) (view s)"
proof -
  obtain s1 where s1: "ece391_read E 0 buf 1023 s = Some (int (length typed) + 1, s1)" "ok s1"
      "load (mem s1) buf (length typed + 1) = typed @ [0x0A]" "view s1 = fold vput (typed @ [0x0A]) (view s)"
    using read [OF assms(1)] by blast
  note l = line [OF assms(1)]
  have ld: "load (mem s1) buf (length typed + 1) ! i = (typed @ [0x0A]) ! i" for i by (simp only: s1(3))
  have at: "mem s1 (buf + of_nat i) = (typed @ [0x0A]) ! i" if "i \<le> length typed" for i using ld [of i] that by simp
  have n: "n \<le> 128" using assms(2) l by linarith
  then have "buf + of_nat n \<in> run buf 1024" by auto
  note pk = poke [OF s1(2) this, of 0]
  let ?out = "take n (typed @ [0x0A])"
  have lo: "length ?out = n" using assms(2) by auto
  have "load (mem (poke (buf + of_nat n) 0 s1)) buf n = ?out"
  proof (rule nth_equalityI)
    fix i assume "i < length (load (mem (poke (buf + of_nat n) 0 s1)) buf n)"
    then have i: "i < n" "i \<le> length typed" using assms(2) by auto
    then show "load (mem (poke (buf + of_nat n) 0 s1)) buf n ! i = ?out ! i" using at [OF i(2)] n by (simp del: take_append)
  qed (simp only: lo length_load)
  moreover have "0 \<notin> set ?out" using l by (auto dest!: in_set_takeD)
  ultimately have "cstr (mem (poke (buf + of_nat n) 0 s1)) buf ?out" unfolding cstr_def lo using n by simp
  then show thesis using that s1(1,4) pk at [of "length typed"] by (simp add: nth_append)
qed

end

section \<open>The kernel's side\<close>

lemma literal_at_agree:
  assumes l: "literal_at W m a xs" and m: "\<And>x. x \<notin> W \<Longrightarrow> x \<notin> B \<Longrightarrow> m' x = m x"
    and B: "run a (Suc (length xs)) \<inter> B = {}"
  shows "literal_at W m' a xs"
proof -
  have "cstr m' a xs = cstr m a xs"
  proof (rule cstr_cong)
    fix x assume "x \<in> run a (Suc (length xs))"
    then have "x \<notin> W" "x \<notin> B" using l B unfolding literal_at_def by blast+
    then show "m' x = m x" by (rule m)
  qed
  then show ?thesis using l by (simp add: literal_at_def)
qed

lemma more_pcbs:
  fixes s :: "'a fs_state_scheme"
  shows "kbd_state.more s' = kbd_state.more s \<Longrightarrow> pcbs s' = pcbs s"
  by (cases s, cases s') simp

text \<open>
  A process of the displayed terminal with its literals \<open>M\<close> in memory clear of its buffer, no line under
  way and no modifier pressed but shift or caps lock.
\<close>

definition line_ready :: "'a kenv \<Rightarrow> (string \<Rightarrow> addr) \<Rightarrow> string set \<Rightarrow> byte \<Rightarrow> addr \<Rightarrow> 'a fs_state_scheme \<Rightarrow> bool" where
  "line_ready K data M k buf s \<longleftrightarrow> user_ok K data M k s \<and> terminals_ok s
     \<and> ctrl_state s = 0 \<and> alt_state s = 0 \<and> cur_term_id s < 3 \<and> enter_state (now_term s) = 0 \<and> key_line s = []
     \<and> buf \<noteq> 0 \<and> run buf 1024 \<inter> (page VIDEO \<union> run (temp_buf_at (kframe K)) 101) = {}
     \<and> (\<forall>msg \<in> M. run (data msg) (Suc (length (lit msg))) \<inter> run buf 1024 = {})"

lemma line_readyD:
  assumes "line_ready K data M k buf s"
  shows "user_ok K data M k s" "terminals_ok s" "ctrl_state s = 0" "alt_state s = 0" "cur_term_id s < 3"
    "enter_state (now_term s) = 0" "key_line s = []" "buf \<noteq> 0" "run buf 1024 \<inter> page VIDEO = {}"
    "msg \<in> M \<Longrightarrow> run (data msg) (Suc (length (lit msg))) \<inter> run buf 1024 = {}"
    "run buf 1024 \<inter> (page VIDEO \<union> run (temp_buf_at (kframe K)) 101) = {}"
  using assms unfolding line_ready_def by blast+

text \<open>A text of the program's memory put on the standard output.\<close>

lemma line_puts:
  fixes K :: "'a kenv"
  assumes r: "line_ready K data M k buf s" and a: "literal_at (page VIDEO \<union> run (temp_buf_at (kframe K)) 101) (mem s) a xs"
  obtains s1 where "ece391_fdputs (kernel_env K resume data) 1 a s = Some s1" "line_ready K data M k buf s1"
    "shown s1 = fold (vga_put (0x20, k) (\<lambda>c. (c, k))) xs (shown s)" "scancode_state s1 = scancode_state s"
    "pcbs s1 = pcbs s" "\<forall>x. x \<notin> page VIDEO \<union> run (temp_buf_at (kframe K)) 101 \<longrightarrow> mem s1 x = mem s x"
    "translate s1 = translate s"
proof -
  note o = line_readyD [OF r]
  obtain s1 where s1: "ece391_fdputs (kernel_env K resume data) 1 a s = Some s1" "user_ok K data M k s1"
      "shown s1 = fold (vga_put (0x20, k) (\<lambda>c. (c, k))) xs (shown s)" "console_only s s1"
      "\<forall>x. x \<notin> page VIDEO \<union> run (temp_buf_at (kframe K)) 101 \<longrightarrow> mem s1 x = mem s x"
    using fdputs_shows [OF o(1) a, of resume] by blast
  note c = console_only_frame [OF s1(4)] console_only_kbd [OF s1(4)]
  have "terminals_ok s1" by (rule screen_step_ok [OF o(2) s1(4) user_okD(1) [OF s1(2)]])
  then have "line_ready K data M k buf s1"
    using s1(2) o c unfolding line_ready_def by (simp add: key_line_def)
  then show thesis using that s1 c(6) console_only_proc(1) [OF s1(4)] console_only_translate [OF s1(4)] by blast
qed

text \<open>The call of \<open>read\<close> while the user types \<open>cs\<close> and \<open>Enter\<close>.\<close>

lemma line_reads:
  fixes K :: "'a kenv"
  assumes r: "line_ready K data M k buf s" and irqs: "kirqs K s = map handle_scancode (cs @ [ENTER])"
    and cs: "\<forall>c \<in> set cs. key_char (scancode_state s) c \<noteq> 0" "length cs \<le> 127"
  defines "line \<equiv> map (key_char (scancode_state s)) cs"
  obtains s1 where "ece391_read (kernel_env K resume data) 0 buf 1023 s = Some (int (length line) + 1, s1)"
    "load (mem s1) buf (length line + 1) = line @ [0x0A]" "0 \<notin> set line" "length line \<le> 127"
    "shown s1 = fold (vga_put (0x20, k) (\<lambda>c. (c, k))) (line @ [0x0A]) (shown s)"
    "line_ready K data M k buf s1" "scancode_state s1 = scancode_state s" "pcbs s1 = pcbs s" "translate s1 = translate s"
proof -
  note o = line_readyD [OF r]
  note u = user_okD [OF o(1)]
  obtain s2 where s2: "wait_while (\<lambda>s. enter_state (now_term s) = 0) (map handle_scancode (cs @ [ENTER])) (sti s) = Some s2"
      "terminals_ok s2" "key_line s2 = line @ [0x0A]" "typed_only (sti s) s2"
      "shown s2 = fold (shown_put s) (line @ [0x0A]) (shown s)"
    using wait_for_line [of "sti s" cs] o(2-7) u(2) cs by (auto simp: line_def)
  have l: "length line \<le> 127" "0 \<notin> set line" using cs by (auto simp: line_def)
  define s1 where "s1 = (update_term (now_term_id s2) (\<lambda>t. t\<lparr>enter_state := 0\<rparr>) s2)
      \<lparr>mem := store (mem s2) buf (line @ [0x0A]), key_buf := replicate 128 0, key_buf_idx := 0\<rparr>"
  have "term_read (map handle_scancode (cs @ [ENTER])) buf 1023 s = Some (int (length line) + 1, s1)"
    using term_read_line [OF o(8) _ _ s2(1), of 1023] s2(2,3) l(1) by (simp add: s1_def terminals_ok_def)
  then have "sys_read (kirqs K s) 0 buf 1023 s = Some (int (length line) + 1, s1)"
    using u(4) o(8) irqs by (simp add: sys_read_def MAX_FILE_NUM_def fd_inv_def stdin_fop_def)
  then have rd: "ece391_read (kernel_env K resume data) 0 buf 1023 s = Some (int (length line) + 1, s1)"
    using l(1) by (intro kernel_read) (simp_all add: int32_def)
  have ty: "\<forall>x. x \<notin> page VIDEO \<longrightarrow> mem s2 x = mem s x" "kbd_state.more s2 = kbd_state.more s"
      "cur_term_id s2 = cur_term_id s" "now_term_id s2 = now_term_id s" "ctrl_state s2 = 0" "alt_state s2 = 0"
      "scancode_state s2 = scancode_state s" "translate s2 = translate s"
      and tt: "(terms s2 i)\<lparr>enter_state := 0\<rparr> = (terms s i)\<lparr>enter_state := 0\<rparr>" for i
    using s2(4) o(3,4) by (simp_all add: typed_only_def) (simp_all add: sti_def)
  have sub: "run buf (length (line @ [0x0A])) \<subseteq> run buf 1024" by (rule image_mono) (use l(1) in auto)
  have m: "mem s1 x = mem s2 x" if "x \<notin> run buf 1024" for x
  proof -
    have "x \<notin> run buf (length (line @ [0x0A]))" by (rule contra_subsetD [OF sub that])
    then show ?thesis by (simp add: s1_def store_outside_run del: image_iff length_append)
  qed
  have p: "pcbs s1 = pcbs s" using more_pcbs [OF ty(2)] by (simp add: s1_def update_term_def)
  have f: "cur_term_id s1 = cur_term_id s" "now_term_id s1 = now_term_id s" "ctrl_state s1 = 0" "alt_state s1 = 0"
      "scancode_state s1 = scancode_state s" "key_line s1 = []" "enter_state (now_term s1) = 0" "cursor_ok s1 = cursor_ok s2"
      "translate s1 = translate s"
    using ty by (simp_all add: s1_def key_line_def update_term_def cursor_ok_def)
  have "cur_pcb_id (terms s2 i) = cur_pcb_id (terms s i)" for i using arg_cong [OF tt [of i], of cur_pcb_id] by simp
  then have "cur_pcb_id (terms s1 i) = cur_pcb_id (terms s i)" for i by (simp add: s1_def update_term_def)
  then have np: "now_pcb s1 = now_pcb s" by (simp add: pcb_of_term_def p f)
  have ok: "terminals_ok s1" using s2(2)
    by (simp add: s1_def terminals_ok_def pages_ok_def term_ok_def update_term_def cursor_ok_def)
  have lit: "literal_at (page VIDEO \<union> run (temp_buf_at (kframe K)) 101) (mem s1) (data msg) (lit msg)" if "msg \<in> M" for msg
  proof (rule literal_at_agree [OF u(6) [OF that] _ o(10) [OF that]])
    fix x assume "x \<notin> page VIDEO \<union> run (temp_buf_at (kframe K)) 101" "x \<notin> run buf 1024"
    then show "mem s1 x = mem s x" using m ty(1) by (simp del: image_iff)
  qed
  have "fd_inv (now_pcb s1)" unfolding np by (rule u(4))
  moreover have "cursor_ok s1" "now_term_id s1 = cur_term_id s1" "colour s1 = k"
    using ok u(2,3) f(1,2) by (simp_all add: terminals_ok_def)
  ultimately have "user_ok K data M k s1" unfolding user_ok_def using u(5) lit by blast
  then have ready: "line_ready K data M k buf s1" unfolding line_ready_def using ok f o by simp
  have "shown (s2\<lparr>mem := mem s1\<rparr>) = shown s2" by (rule shown_upd) (use m o(9) in blast)
  then have "shown s1 = shown s2" by (simp add: shown_def s1_def update_term_def)
  then have sh: "shown s1 = fold (vga_put (0x20, k) (\<lambda>c. (c, k))) (line @ [0x0A]) (shown s)" using s2(5) u(3) by simp
  have "load (mem s1) buf (length line + 1) = line @ [0x0A]" using l(1) by (simp add: s1_def load_store)
  then show thesis using that rd l sh ready f(5,9) p by blast
qed

lemma line_ready_poke:
  fixes s :: "'a fs_state_scheme"
  assumes r: "line_ready K data M k buf s" and a: "a \<in> run buf 1024"
  shows "line_ready K data M k buf (poke a b s)" "shown (poke a b s) = shown s" "pcbs (poke a b s) = pcbs s"
    "scancode_state (poke a b s) = scancode_state s" "translate (poke a b s) = translate s"
proof -
  note o = line_readyD [OF r]
  note u = user_okD [OF o(1)]
  let ?s = "poke a b s"
  have f: "terms ?s = terms s" "cur_term_id ?s = cur_term_id s" "now_term_id ?s = now_term_id s" "pcbs ?s = pcbs s"
    "key_buf ?s = key_buf s" "key_buf_idx ?s = key_buf_idx s" "scancode_state ?s = scancode_state s"
    "ctrl_state ?s = ctrl_state s" "alt_state ?s = alt_state s" "cursor_ok ?s = cursor_ok s"
    by (simp_all add: poke_def cursor_ok_def)
  have m: "mem ?s x = mem s x" if "x \<notin> run buf 1024" for x
  proof -
    have "x \<noteq> a" using a that by blast
    then show ?thesis by simp
  qed
  have np: "now_pcb ?s = now_pcb s" by (simp add: pcb_of_term_def f)
  have lit: "literal_at (page VIDEO \<union> run (temp_buf_at (kframe K)) 101) (mem ?s) (data msg) (lit msg)" if "msg \<in> M" for msg
    by (rule literal_at_agree [OF u(6) [OF that] _ o(10) [OF that]], rule m)
  have "fd_inv (now_pcb ?s)" unfolding np by (rule u(4))
  moreover have "cursor_ok ?s" "now_term_id ?s = cur_term_id ?s" "colour ?s = k" using u(1-3) f by simp_all
  ultimately have "user_ok K data M k ?s" unfolding user_ok_def using u(5) lit by blast
  moreover have "terminals_ok ?s" using o(2) by (simp add: terminals_ok_def f pages_ok_def)
  ultimately show "line_ready K data M k buf ?s" unfolding line_ready_def using o f by (simp add: key_line_def)
  have "shown (s\<lparr>mem := mem ?s\<rparr>) = shown s" by (rule shown_upd) (use m o(9) in blast)
  then show "shown ?s = shown s" by (simp add: shown_def poke_def)
  show "pcbs ?s = pcbs s" "scancode_state ?s = scancode_state s" by (rule f(4), rule f(7))
  show "translate ?s = translate s" by (simp add: poke_def)
qed

text \<open>Bytes stored in the buffer, one after the other.\<close>

lemma store_pokes:
  "length xs \<le> 1024 \<Longrightarrow> s\<lparr>mem := store (mem s) a xs\<rparr> = fold (\<lambda>i. poke (a + of_nat i) (xs ! i)) [0..<length xs] s"
proof (induction xs rule: rev_induct)
  case (snoc x xs)
  have "fold (\<lambda>i. poke (a + of_nat i) ((xs @ [x]) ! i)) [0..<length xs] s = fold (\<lambda>i. poke (a + of_nat i) (xs ! i)) [0..<length xs] s"
    by (rule fold_cong) (simp_all add: nth_append)
  then have f: "fold (\<lambda>i. poke (a + of_nat i) ((xs @ [x]) ! i)) [0..<length xs] s = s\<lparr>mem := store (mem s) a xs\<rparr>"
    using snoc by simp
  have "store (mem s) a (xs @ [x]) = (store (mem s) a xs)(a + of_nat (length xs) := x)"
    using store_append [of xs "[x]" "mem s" a] snoc.prems by simp
  then have "s\<lparr>mem := store (mem s) a (xs @ [x])\<rparr> = poke (a + of_nat (length xs)) ((xs @ [x]) ! length xs) (s\<lparr>mem := store (mem s) a xs\<rparr>)"
    by (simp add: poke_def)
  also have "\<dots> = fold (\<lambda>i. poke (a + of_nat i) ((xs @ [x]) ! i)) [0..<length (xs @ [x])] s"
    by (simp only: f [symmetric] length_append list.size One_nat_def add_Suc_right add_0_right upt_Suc_append [OF le0]
        fold_append comp_apply fold.simps id_apply)
  finally show ?case .
qed simp

lemma line_ready_store:
  fixes s :: "'a fs_state_scheme"
  assumes "line_ready K data M k buf s" and "length xs \<le> 1024"
  defines "s' \<equiv> s\<lparr>mem := store (mem s) buf xs\<rparr>"
  shows "line_ready K data M k buf s'" "shown s' = shown s" "translate s' = translate s" "scancode_state s' = scancode_state s"
proof -
  have "n \<le> 1024 \<Longrightarrow> line_ready K data M k buf (fold (\<lambda>i. poke (buf + of_nat i) (xs ! i)) [0..<n] s)
      \<and> shown (fold (\<lambda>i. poke (buf + of_nat i) (xs ! i)) [0..<n] s) = shown s" for n
  proof (induction n)
    case (Suc n)
    have a: "buf + of_nat n \<in> run buf 1024" using Suc.prems by auto
    from line_ready_poke(1,2) [OF _ a, of K data M k _ "xs ! n"] show ?case using Suc by simp
  qed (use assms(1) in simp)
  then show "line_ready K data M k buf s'" "shown s' = shown s" using assms(2) by (simp_all add: s'_def store_pokes)
  show "translate s' = translate s" "scancode_state s' = scancode_state s" by (simp_all add: s'_def)
qed

text \<open>The user types the keys \<open>cs\<close>, with shift and caps lock as in \<open>mode\<close>, and \<open>Enter\<close> whenever a line is read.\<close>

definition typing :: "'a kenv \<Rightarrow> (string \<Rightarrow> addr) \<Rightarrow> string set \<Rightarrow> byte \<Rightarrow> addr \<Rightarrow> byte \<Rightarrow> byte list \<Rightarrow> 'a fs_state_scheme \<Rightarrow> bool" where
  "typing K data M k buf mode cs s \<longleftrightarrow> line_ready K data M k buf s \<and> scancode_state s = mode
     \<and> (\<forall>s. kirqs K s = map handle_scancode (cs @ [ENTER])) \<and> (\<forall>c \<in> set cs. key_char mode c \<noteq> 0) \<and> length cs \<le> 127"

text \<open>With the address translation \<open>T\<close>, which none of this changes.\<close>

definition typing_on where
  "typing_on T K data M k buf mode cs s \<longleftrightarrow> typing K data M k buf mode cs s \<and> translate s = T"

text \<open>How much of its buffer the process can put on the screen: the kernel copies it to its own stack.\<close>

definition puts_room :: "'a kenv \<Rightarrow> addr \<Rightarrow> nat" where
  "puts_room K buf = (if run (temp_buf_at (kframe K)) 129 \<inter> (page VIDEO \<union> run buf 1024) = {} then 128 else 0)"

lemma fdputs_buffer:
  fixes K :: "'a kenv"
  assumes r: "line_ready K data M k buf s" and c: "cstr (mem s) buf xs" "length xs \<le> puts_room K buf" "0x25 \<notin> set xs"
  obtains s1 where "ece391_fdputs (kernel_env K resume data) 1 buf s = Some s1"
    "shown s1 = fold (vga_put (0x20, k) (\<lambda>c. (c, k))) xs (shown s)"
proof -
  note o = line_readyD [OF r] and u = user_okD [OF line_readyD(1) [OF r]]
  have l: "length xs \<le> 128" using c(2) by (simp add: puts_room_def split: if_splits)
  have x: "load (mem s) buf (length xs) = xs" "0 \<notin> set xs" using c(1) by (auto simp: cstr_def)
  let ?W = "run (temp_buf_at (kframe K)) (Suc (length xs))"
  have "?W \<inter> run buf (length xs) = {} \<and> ?W \<inter> page VIDEO = {}"
  proof (cases "run (temp_buf_at (kframe K)) 129 \<inter> (page VIDEO \<union> run buf 1024) = {}")
    case True
    have "?W \<subseteq> run (temp_buf_at (kframe K)) 129" "run buf (length xs) \<subseteq> run buf 1024"
      by (rule image_mono; use l in auto)+
    then show ?thesis using True by blast
  next
    case False
    then have nil: "xs = []" using c(2) by (simp add: puts_room_def)
    have "?W \<subseteq> run (temp_buf_at (kframe K)) 101" by (rule image_mono) (simp add: nil)
    then show ?thesis using u(5) by (simp add: nil) blast
  qed
  then have ap: "?W \<inter> run buf (length xs) = {}" "?W \<inter> page VIDEO = {}" by blast+
  obtain s1 where s1: "ece391_write (kernel_env K resume data) 1 buf (int (length xs)) s = Some (int (length xs), s1)"
      "shown s1 = fold (vga_put (0x20, k) (\<lambda>c. (c, k))) xs (shown s)"
    by (rule write_shows_in [OF u(1-4) o(8) x(1) _ x(2) c(3) ap]) (use l in simp_all)
  have "ece391_strlen (mem s) buf = Some (of_nat (length xs))"
    using strlen_cstr [OF c(1)] by (simp add: ece391_strlen_eq)
  moreover have "sint (of_nat (length xs) :: u32) = int (length xs)" using sint_of_int_u32 [of "int (length xs)"] l by simp
  ultimately have "ece391_fdputs (kernel_env K resume data) 1 buf s = Some s1"
    using s1(1) by (simp add: ece391_fdputs_def)
  then show thesis using s1(2) by (rule that)
qed

abbreviation vput_colour :: "byte \<Rightarrow> byte \<Rightarrow> (byte \<times> byte) vga \<Rightarrow> (byte \<times> byte) vga" where
  "vput_colour k \<equiv> vga_put (0x20, k) (\<lambda>c. (c, k))"

interpretation kernel_line: line_user "kernel_env K resume data" "typing_on T K data M k buf mode cs" shown "vput_colour k" M buf
    "map (key_char mode) cs" "puts_room K buf" for T K resume data M k buf mode cs
proof unfold_locales
  let ?E = "kernel_env K resume data" and ?ok = "typing_on T K data M k buf mode cs" and ?line = "map (key_char mode) cs"
  fix s :: "'a fs_state_scheme" and msg a b xs
  assume ok: "?ok s"
  have r: "line_ready K data M k buf s" and mode: "scancode_state s = mode" and irqs: "\<forall>s. kirqs K s = map handle_scancode (cs @ [ENTER])"
    and cs: "\<forall>c \<in> set cs. key_char mode c \<noteq> 0" "length cs \<le> 127" and tr: "translate s = T"
    using ok unfolding typing_on_def typing_def by blast+
  have keep: "?ok s'" if "line_ready K data M k buf s'" "scancode_state s' = scancode_state s" "translate s' = translate s" for s'
    using that mode irqs cs tr unfolding typing_on_def typing_def by simp
  note o = line_readyD [OF r]
  have ro: "ro_data ?E = data" by (simp add: kernel_env_def)
  have lit: "literal_at (page VIDEO \<union> run (temp_buf_at (kframe K)) 101) (mem s) (data msg) (lit msg)" if "msg \<in> M"
    by (rule user_okD(6) [OF o(1) that])
  show "\<exists>s'. say ?E msg s = Some s' \<and> ?ok s' \<and> shown s' = fold (vput_colour k) (lit msg) (shown s)" if "msg \<in> M"
    unfolding ro using line_puts [OF r lit [OF that], of resume] keep by metis
  show "mem s' x = mem s x" if g: "msg \<in> M" "say ?E msg s = Some s'" "x \<in> run buf 1024" for s' x
  proof -
    obtain s1 where "say ?E msg s = Some s1" "\<forall>x. x \<notin> page VIDEO \<union> run (temp_buf_at (kframe K)) 101 \<longrightarrow> mem s1 x = mem s x"
      unfolding ro using line_puts [OF r lit [OF g(1)], of resume] by metis
    then show ?thesis using g(2,3) o(11) by (metis IntI empty_iff option.sel)
  qed
  show "cstr (mem s) (ro_data ?E msg) (lit msg)" if "msg \<in> M"
    unfolding ro using lit [OF that] by (simp add: literal_at_def)
  show "0 \<notin> set ?line \<and> length ?line \<le> 127" using cs by auto
  have k1: "kirqs K s = map handle_scancode (cs @ [ENTER])" using irqs by blast
  show "\<exists>s'. ece391_read ?E 0 buf 1023 s = Some (int (length ?line) + 1, s') \<and> ?ok s'
      \<and> load (mem s') buf (length ?line + 1) = ?line @ [0x0A] \<and> shown s' = fold (vput_colour k) (?line @ [0x0A]) (shown s)"
    using line_reads [OF r k1, unfolded mode, OF cs, of resume] keep [unfolded mode] by metis
  show "?ok (poke a b s) \<and> shown (poke a b s) = shown s" if "a \<in> run buf 1024"
    using line_ready_poke [OF r that, of b] keep by blast
  show "\<exists>s'. ece391_fdputs ?E 1 buf s = Some s' \<and> shown s' = fold (vput_colour k) xs (shown s)"
    if c: "cstr (mem s) buf xs" "length xs \<le> puts_room K buf" "0x25 \<notin> set xs"
    using fdputs_buffer [OF r c, of resume] by metis
qed

section \<open>An example\<close>

text \<open>A process whose texts \<open>ts\<close> lie in slots from \<open>0x8050000\<close> on, where the user types \<open>cs\<close>.\<close>

definition typing_kenv :: "byte list \<Rightarrow> unit kenv" where
  "typing_kenv cs = example_kenv\<lparr>kirqs := (\<lambda>_. map handle_scancode (cs @ [ENTER]))\<rparr>"

lemma on_display_kbd:
  "key_buf (on_display m) = key_buf (kbd_boot m)" "key_buf_idx (on_display m) = key_buf_idx (kbd_boot m)"
  "scancode_state (on_display m) = scancode_state (kbd_boot m)" "terms (on_display m) = terms (kbd_boot m)"
  "ctrl_state (on_display m) = ctrl_state (kbd_boot m)" "alt_state (on_display m) = alt_state (kbd_boot m)"
  "cur_term_id (on_display m) = 0" "now_term_id (on_display m) = 0"
  by (simp_all add: on_display_def shell_boot_def fs_boot_def proc_boot_def kbd_boot_def console_boot_def
      paging_boot_def pic_boot_def pic_state.defs paging_state.defs console_state.defs kbd_state.defs proc_state.defs fs_state.defs)

lemma on_display_terminals: "terminals_ok (on_display m)"
  using kbd_boot_ok [of m] on_display_cursor(1) [of m]
  by (simp add: terminals_ok_def pages_ok_def on_display_kbd del: kbd_boot_ok)

lemma typing_example:
  assumes ts: "\<forall>t \<in> set ts. length t < 32 \<and> 0 \<notin> set (lit t) \<and> 0x25 \<notin> set (lit t)" and "length ts < 1000"
    and cs: "\<forall>c \<in> set cs. key_char 0 c \<noteq> 0" "length cs \<le> 127"
  shows "typing (typing_kenv cs) (slot_of ts 0x8050000) (set ts) 0xD 0x8060000 0 cs (on_display (slots 0x8050000 (map lit ts)))"
proof -
  let ?d = "slot_of ts 0x8050000" and ?s = "on_display (slots 0x8050000 (map lit ts))"
  have kf: "kframe (typing_kenv cs) = kframe example_kenv" by (simp add: typing_kenv_def)
  have "user_ok (typing_kenv cs) ?d (set ts) 0xD ?s = user_ok example_kenv ?d (set ts) 0xD ?s"
    by (simp only: user_ok_def kf)
  with on_display_ok(1) [OF ts assms(2)] have u: "user_ok (typing_kenv cs) ?d (set ts) 0xD ?s" by (simp only:)
  have r: "run 0x8060000 1024 \<inter> page VIDEO = {}" "run 0x8060000 1024 \<inter> run 0x7FF000 101 = {}"
    by (rule runs_apart; simp add: VIDEO_def)+
  then have buf: "run 0x8060000 1024 \<inter> (page VIDEO \<union> run (temp_buf_at (kframe (typing_kenv cs))) 101) = {}"
    by (simp add: kf example_kenv_def Int_Un_distrib)
  have apart: "\<forall>msg \<in> set ts. run (?d msg) (Suc (length (lit msg))) \<inter> run 0x8060000 1024 = {}"
  proof
    fix t assume t: "t \<in> set ts"
    let ?i = "length (takeWhile (\<lambda>u. u \<noteq> t) ts)"
    have "?i < 1000" using length_takeWhile_le [of "\<lambda>u. u \<noteq> t" ts] assms(2) by simp
    then have "unat (?d t) = 0x8050000 + 32 * ?i" by (simp add: slot_of_def unat_word_ariths unat_of_nat)
    moreover have "length (lit t) < 32" using ts t by (simp add: lit_def)
    ultimately show "run (?d t) (Suc (length (lit t))) \<inter> run 0x8060000 1024 = {}"
      using \<open>?i < 1000\<close> by (intro runs_apart) simp_all
  qed
  have "enter_state (now_term ?s) = 0" "key_line ?s = []" "ctrl_state ?s = 0" "alt_state ?s = 0" "scancode_state ?s = 0" "cur_term_id ?s < 3"
    by (simp_all add: on_display_kbd key_line_def no_term_def)
  then have "line_ready (typing_kenv cs) ?d (set ts) 0xD 0x8060000 ?s" "scancode_state ?s = 0"
    unfolding line_ready_def using u buf apart on_display_terminals by simp_all
  then show ?thesis using cs unfolding typing_def by (simp add: typing_kenv_def)
qed

text \<open>Other processes' control blocks, or other arguments, make no difference.\<close>

lemma typing_pcbs:
  fixes s :: "'a fs_state_scheme"
  assumes "typing K data M k buf mode cs s" and "fd_inv (now_pcb (s\<lparr>pcbs := ps\<rparr>))"
  shows "typing K data M k buf mode cs (s\<lparr>pcbs := ps\<rparr>)"
proof -
  note o = line_readyD [of K data M k buf s] and t = assms(1) [unfolded typing_def]
  note u = user_okD [OF o(1)]
  have "user_ok K data M k (s\<lparr>pcbs := ps\<rparr>)"
    unfolding user_ok_def using u t assms(2) by (simp add: cursor_ok_def)
  moreover have "terminals_ok (s\<lparr>pcbs := ps\<rparr>)" using o(2) t by (simp add: terminals_ok_def pages_ok_def cursor_ok_def)
  ultimately have "line_ready K data M k buf (s\<lparr>pcbs := ps\<rparr>)"
    using o t unfolding line_ready_def by (simp add: key_line_def)
  then show ?thesis using t unfolding typing_def by simp
qed

end
