(* ===== verification/Shell.thy ===== *)
theory Shell
  imports Line_Input
begin

text \<open>
  The shell and \<open>hello\<close>, from the keys pressed to the calls they make: a turn of the shell's loop shows
  the prompt, waits for the line the user types, and hands the line without its newline to the
  kernel; \<open>hello\<close> greets with the line.
\<close>

section \<open>Over the contract\<close>

context line_user
begin

lemma says:
  assumes "ok s" and "msg \<in> M"
  obtains s' where "say E msg s = Some s'" "ok s'" "view s' = fold vput (lit msg) (view s)"
  using say [OF assms] by blast

text \<open>The comparison with "exit" decides, on the shell's own literal.\<close>

lemma shell_turn:
  assumes ok: "ok s" and M: "{''391OS> '', ''exit''} \<subseteq> M"
  shows "\<exists>s'. shell_loop E buf s =
        (if typed = lit ''exit'' then Some (0, s') else if typed = [] then shell_loop E buf s'
         else do { (rval, s) \<leftarrow> ece391_execute E buf s'; s \<leftarrow> shell_report E rval s; shell_loop E buf s })
    \<and> cstr (mem s') buf typed \<and> view s' = fold vput (lit ''391OS> '' @ typed @ [0x0A]) (view s) \<and> ok s'"
proof -
  obtain s1 where s1: "say E ''391OS> '' s = Some s1" "ok s1" "view s1 = fold vput (lit ''391OS> '') (view s)"
    by (rule says [OF ok]) (use M in blast)
  obtain s2 where s2: "ece391_read E 0 buf 1023 s1 = Some (int (length typed) + 1, s2)"
    "mem s2 (buf + of_nat (length typed)) = 0x0A"
    and s3: "ok (poke (buf + of_nat (length typed)) 0 s2)" "cstr (mem (poke (buf + of_nat (length typed)) 0 s2)) buf (take (length typed) (typed @ [0x0A]))"
    "view (poke (buf + of_nat (length typed)) 0 s2) = fold vput (typed @ [0x0A]) (view s1)"
    by (rule read_line [OF s1(2), of "length typed"]) simp_all
  define s3 where "s3 = poke (buf + of_nat (length typed)) 0 s2"
  have c3: "cstr (mem s3) buf typed" using s3(2) by (simp add: s3_def)
  have "cstr (mem s3) (ro_data E ''exit'') (lit ''exit'')" by (rule literal) (use s3(1) M in \<open>simp_all add: s3_def\<close>)
  then obtain v where v: "ece391_strcmp (mem s3) buf (ro_data E ''exit'') = Some v" "v = 0 \<longleftrightarrow> typed = lit ''exit''"
    using ece391_strcmp_cstr [OF c3] by blast
  have first: "mem s3 buf = 0 \<longleftrightarrow> typed = []" using c3 by (cases typed) (auto simp: cstr_Cons cstr_Nil)
  let ?n = "int (length typed) + 1"
  have n: "(?n = -1) = False" "(?n > 0) = True" "(mem s2 (buf + word_of_int (?n - 1)) = 0x0A) = True"
      "poke (buf + word_of_int (?n - 1)) 0 s2 = s3"
    using s2(2) by (simp_all add: s3_def)
  have "shell_loop E buf s = do {
       c \<leftarrow> ece391_strcmp (mem s3) buf (ro_data E ''exit'');
       if c = 0 then Some (0, s3)
       else if mem s3 buf = 0 then shell_loop E buf s3
       else do {
         (rval, s) \<leftarrow> ece391_execute E buf s3;
         s \<leftarrow> shell_report E rval s;
         shell_loop E buf s
       }
     }"
    by (subst shell_loop.simps)
      (simp only: s1(1) s2(1) n Let_def Option.bind.bind_lunit case_prod_conv if_False if_True simp_thms)
  then have "shell_loop E buf s =
        (if typed = lit ''exit'' then Some (0, s3) else if typed = [] then shell_loop E buf s3
         else do { (rval, s) \<leftarrow> ece391_execute E buf s3; s \<leftarrow> shell_report E rval s; shell_loop E buf s })"
    using v first by simp
  moreover have "view s3 = fold vput (lit ''391OS> '' @ typed @ [0x0A]) (view s)" using s3(3) s1(3) by (simp add: s3_def)
  ultimately show ?thesis using c3 s3(1) unfolding s3_def by blast
qed

text \<open>\<open>hello\<close> says the line back, newline included.\<close>

lemma hello_turn:
  assumes ok: "ok s" and M: "{''Hi, what's your name? '', ''Hello, ''} \<subseteq> M" and l: "length typed + 1 \<le> puts_max" "0x25 \<notin> set typed"
  shows "\<exists>s'. hello_main E buf s = Some (0, s')
    \<and> view s' = fold vput (lit ''Hi, what's your name? '' @ typed @ [0x0A] @ lit ''Hello, '' @ typed @ [0x0A]) (view s)"
proof -
  obtain s1 where s1: "say E ''Hi, what's your name? '' s = Some s1" "ok s1"
      "view s1 = fold vput (lit ''Hi, what's your name? '') (view s)"
    by (rule says [OF ok]) (use M in blast)
  let ?n = "length typed + 1"
  obtain s2 where s2: "ece391_read E 0 buf 1023 s1 = Some (int (length typed) + 1, s2)"
    and s3: "ok (poke (buf + of_nat ?n) 0 s2)" "cstr (mem (poke (buf + of_nat ?n) 0 s2)) buf (take ?n (typed @ [0x0A]))"
    "view (poke (buf + of_nat ?n) 0 s2) = fold vput (typed @ [0x0A]) (view s1)"
    by (rule read_line [OF s1(2), of ?n]) simp_all
  define s3 where "s3 = poke (buf + of_nat ?n) 0 s2"
  have p3: "poke (buf + word_of_int (int (length typed) + 1)) 0 s2 = s3" by (simp add: s3_def add.commute)
  obtain s4 where s4: "say E ''Hello, '' s3 = Some s4" "ok s4" "view s4 = fold vput (lit ''Hello, '') (view s3)"
    by (rule says [of s3 "''Hello, ''"]) (use s3(1) M in \<open>unfold s3_def, blast+\<close>)
  have c3: "cstr (mem s3) buf (typed @ [0x0A])" using s3(2) by (simp add: s3_def)
  have "cstr (mem s4) buf (typed @ [0x0A]) = cstr (mem s3) buf (typed @ [0x0A])"
  proof (rule cstr_cong)
    have "run buf (Suc (length (typed @ [0x0A]))) \<subseteq> run buf 1024" by (rule image_mono) (use line [OF ok] in auto)
    then show "mem s4 x = mem s3 x" if "x \<in> run buf (Suc (length (typed @ [0x0A])))" for x
      using say_keeps [of s3 "''Hello, ''" s4 x] s4(1) s3(1) M that unfolding s3_def by blast
  qed
  then have c4: "cstr (mem s4) buf (typed @ [0x0A])" using c3 by simp
  obtain s5 where s5: "ece391_fdputs E 1 buf s4 = Some s5" "view s5 = fold vput (typed @ [0x0A]) (view s4)"
    using show_buf [OF s4(2) c4] l by auto
  have n: "(int (length typed) + 1 = -1) = False" by simp
  have "hello_main E buf s = Some (0, s5)" unfolding hello_main_def
    by (simp only: s1(1) s2(1) p3 s4(1) s5(1) n Let_def Option.bind.bind_lunit case_prod_conv if_False)
  moreover have "view s5 = fold vput (lit ''Hi, what's your name? '' @ typed @ [0x0A] @ lit ''Hello, '' @ typed @ [0x0A]) (view s)"
    using s5(2) s4(3) s3(3) s1(3) by (simp only: s3_def fold_append comp_apply)
  ultimately show ?thesis by blast
qed

end

section \<open>Properties\<close>

text \<open>C8: a turn of the shell, from the keys to the kernel. The shell shows its prompt; the user presses
  the keys of any characters that fit a line (with shift or caps lock as they are) and \<open>Enter\<close>, and sees
  them echoed after the prompt; then the shell's buffer holds exactly what was typed, without the newline. "exit" ends the
  shell with 0, an empty line starts the next turn, and any other line is what the shell calls
  \<open>execute\<close> with; it reports on the result and goes on. At that call the shell is as ready for the next line as it was.\<close>

theorem shell_runs_typed_line:
  fixes K :: "'a kenv"
  assumes "typing K data {''391OS> '', ''exit''} k buf mode cs s"
    and "E = kernel_env K resume data" and "line = map (key_char mode) cs"
  shows "\<exists>s'. shell_loop E buf s =
        (if line = lit ''exit'' then Some (0, s') else if line = [] then shell_loop E buf s'
         else do { (rval, s) \<leftarrow> ece391_execute E buf s'; s \<leftarrow> shell_report E rval s; shell_loop E buf s })
    \<and> cstr (mem s') buf line \<and> shown s' = fold (vga_put (0x20, k) (\<lambda>c. (c, k))) (lit ''391OS> '' @ line @ [0x0A]) (shown s)
    \<and> typing K data {''391OS> '', ''exit''} k buf mode cs s'"
proof -
  have "typing_on (translate s) K data {''391OS> '', ''exit''} k buf mode cs s" using assms(1) by (simp add: typing_on_def)
  from kernel_line.shell_turn [OF this order_refl, of resume] show ?thesis unfolding assms(2,3) typing_on_def by blast
qed

text \<open>C10: \<open>hello\<close> greets. It asks for the name, and when the user has typed it, with any keys but
  the percent sign and up to the 127 characters of a line, and \<open>Enter\<close>, the screen shows the
  question, the name as typed, "Hello, " and the name again; the program ends with 0. The program's
  buffer and the screen are clear of the kernel's copy of the line. (A percent sign in the name is echoed as typed, but the greeting goes
  through \<open>printf\<close> as its format.)\<close>

theorem hello_greets:
  fixes K :: "'a kenv"
  assumes "typing K data {''Hi, what's your name? '', ''Hello, ''} k buf mode cs s"
    and "name = map (key_char mode) cs" "0x25 \<notin> set name"
    and "run (temp_buf_at (kframe K)) 129 \<inter> (page VIDEO \<union> run buf 1024) = {}"
  shows "\<exists>s'. hello_main (kernel_env K resume data) buf s = Some (0, s')
    \<and> shown s' = fold (vga_put (0x20, k) (\<lambda>c. (c, k)))
        (lit ''Hi, what's your name? '' @ name @ [0x0A] @ lit ''Hello, '' @ name @ [0x0A]) (shown s)"
proof -
  have ok: "typing_on (translate s) K data {''Hi, what's your name? '', ''Hello, ''} k buf mode cs s" using assms(1) by (simp add: typing_on_def)
  have "length (map (key_char mode) cs) + 1 \<le> puts_room K buf" "0x25 \<notin> set (map (key_char mode) cs)"
    using assms unfolding typing_def by (simp_all add: puts_room_def)
  from kernel_line.hello_turn [OF ok order_refl this, of resume] show ?thesis unfolding assms(2) .
qed

theorem shell_runs_typed_line_witness:
  "\<exists>s' E. E = kernel_env (typing_kenv [0x26, 0x1F]) (\<lambda>_. None) (slot_of [''391OS> '', ''exit''] 0x8050000)
    \<and> shell_loop E 0x8060000 (on_display (slots 0x8050000 (map lit [''391OS> '', ''exit''])))
      = do { (rval, s) \<leftarrow> ece391_execute E 0x8060000 s'; s \<leftarrow> shell_report E rval s; shell_loop E 0x8060000 s }
    \<and> cstr (mem s') 0x8060000 (lit ''ls'')"
proof -
  have ts: "\<forall>t \<in> set [''391OS> '', ''exit'']. length t < 32 \<and> 0 \<notin> set (lit t) \<and> 0x25 \<notin> set (lit t)" by simp
  have c: "key_char 0 0x26 = 0x6C" "key_char 0 0x1F = 0x73" by (simp_all add: key_char_def scancode_map_def)
  then have cs: "\<forall>c \<in> set [0x26, 0x1F]. key_char 0 c \<noteq> 0" and ln: "lit ''ls'' = map (key_char 0) [0x26, 0x1F]" by simp_all
  have t: "typing (typing_kenv [0x26, 0x1F]) (slot_of [''391OS> '', ''exit''] 0x8050000) {''391OS> '', ''exit''} 0xD 0x8060000 0 [0x26, 0x1F]
      (on_display (slots 0x8050000 (map lit [''391OS> '', ''exit''])))"
    using typing_example [OF ts _ cs] by simp
  have ne: "lit ''ls'' \<noteq> lit ''exit''" "lit ''ls'' \<noteq> []" by simp_all
  from shell_runs_typed_line [OF t refl ln, where resume = "\<lambda>_. None"] show ?thesis
    by (simp only: ne if_False) blast
qed

theorem hello_greets_witness:
  "\<exists>s'. hello_main (kernel_env (typing_kenv [0x1E]) (\<lambda>_. None) (slot_of [''Hi, what's your name? '', ''Hello, ''] 0x8050000)) 0x8060000
      (on_display (slots 0x8050000 (map lit [''Hi, what's your name? '', ''Hello, '']))) = Some (0, s')"
proof -
  have ts: "\<forall>t \<in> set [''Hi, what's your name? '', ''Hello, '']. length t < 32 \<and> 0 \<notin> set (lit t) \<and> 0x25 \<notin> set (lit t)" by simp
  have c: "key_char 0 0x1E = 0x61" by (simp add: key_char_def scancode_map_def)
  then have cs: "\<forall>c \<in> set [0x1E]. key_char 0 c \<noteq> 0" and ln: "lit ''a'' = map (key_char 0) [0x1E]" by simp_all
  have t: "typing (typing_kenv [0x1E]) (slot_of [''Hi, what's your name? '', ''Hello, ''] 0x8050000) {''Hi, what's your name? '', ''Hello, ''} 0xD 0x8060000 0 [0x1E]
      (on_display (slots 0x8050000 (map lit [''Hi, what's your name? '', ''Hello, ''])))"
    using typing_example [OF ts _ cs] by simp
  have "run 0x7FF000 129 \<inter> page VIDEO = {}" "run 0x7FF000 129 \<inter> run 0x8060000 1024 = {}"
    by (rule runs_apart; simp add: VIDEO_def)+
  then have ap: "run (temp_buf_at (kframe (typing_kenv [0x1E]))) 129 \<inter> (page VIDEO \<union> run 0x8060000 1024) = {}"
    by (simp add: typing_kenv_def example_kenv_def Int_Un_distrib)
  have "0x25 \<notin> set (lit ''a'')" by simp
  from hello_greets [OF t ln this ap, where resume = "\<lambda>_. None"] show ?thesis by blast
qed

end
