(* ===== verification/Sigtest.thy ===== *)
theory Sigtest
  imports Line_Input
begin

text \<open>
  The signal test program (\<open>ece391sigtest.c\<close>): it writes through a null pointer on purpose, and expects
  its handler for the fault to redirect the pointer and the register that holds it. An access to memory that
  may not be allowed is asked of the parameter \<open>present\<close>, and a fault is an outcome of the program: what
  comes after it is the kernel's. On this kernel, which refuses \<open>set_handler\<close>, the program
  ends there.
\<close>

section \<open>The program\<close>

definition SEGFAULT :: int where "SEGFAULT = 1"
definition ALARM :: int where "ALARM = 3"

datatype outcome = Ended int | Faulted addr

type_synonym 'a faulting = "'a machine_scheme \<Rightarrow> (outcome \<times> 'a machine_scheme) option"

text \<open>
  \<open>main\<close> from the write through \<open>badbuf\<close> on; it is also where execution goes on when a handler returns, with
  the address the handler left in \<open>EAX\<close>. \<open>charbuf\<close> is the address of the static character.
\<close>

definition sigtest_greet ::
  "(addr \<Rightarrow> 'a machine_scheme \<Rightarrow> bool) \<Rightarrow> 'a machine_scheme user_env \<Rightarrow> addr \<Rightarrow> addr \<Rightarrow> int \<Rightarrow> addr \<Rightarrow> 'a faulting" where
  "sigtest_greet present E charbuf buf cnt badbuf s =
     (if \<not> present badbuf s then Some (Faulted badbuf, s)
      else do {
        s \<leftarrow> say E ''Hello, '' (poke (buf + word_of_int cnt) 0 (poke badbuf 1 s));
        s \<leftarrow> ece391_fdputs E 1 buf s;
        s \<leftarrow> (if mem s charbuf = 1 then say E ''success\<newline>'' s else say E ''failure\<newline>'' s);
        Some (Ended 0, s)
      })"

definition sigtest_install :: "'a machine_scheme user_env \<Rightarrow> addr \<Rightarrow> addr \<Rightarrow> 'a machine_scheme \<Rightarrow> 'a machine_scheme option" where
  "sigtest_install E segv alrm s = do {
     s \<leftarrow> say E ''Installing signal handlers\<newline>'' s;
     (r, s) \<leftarrow> ece391_set_handler E SEGFAULT segv s;
     (r, s) \<leftarrow> ece391_set_handler E ALARM alrm s;
     Some s
   }"

text \<open>\<open>badbuf\<close> is the value of the static pointer, which is 0 when the program starts.\<close>

definition sigtest_main ::
  "(addr \<Rightarrow> 'a machine_scheme \<Rightarrow> bool) \<Rightarrow> 'a machine_scheme user_env \<Rightarrow> addr \<Rightarrow> addr \<Rightarrow> addr \<Rightarrow> addr \<Rightarrow> addr \<Rightarrow> 'a faulting" where
  "sigtest_main present E badbuf charbuf segv alrm buf s = do {
     (r, s) \<leftarrow> ece391_getargs E buf 1024 s;
     if r \<noteq> 0 then do { s \<leftarrow> say E ''could not read argument\<newline>'' s; Some (Ended 3, s) }
     else do {
       s \<leftarrow> (if mem s buf = 0x31 then sigtest_install E segv alrm s else Some s);
       s \<leftarrow> say E ''Hi, what's your name? '' s;
       (cnt, s) \<leftarrow> ece391_read E 0 buf 1023 s;
       if cnt = -1 then do { s \<leftarrow> say E ''Can't read name from keyboard.\<newline>'' s; Some (Ended 3, s) }
       else sigtest_greet present E charbuf buf cnt badbuf s
     }
   }"

definition signum_text :: "int \<Rightarrow> string" where
  "signum_text n = (if n = 0 then ''0\<newline>'' else if n = 1 then ''1\<newline>'' else if n = 2 then ''2\<newline>''
     else if n = 3 then ''3\<newline>'' else ''invalid\<newline>'')"

text \<open>
  The handlers, with the stack slot of their argument at \<open>signum\<close> and the local character at \<open>buf\<close>. Seven words
  above the argument lies the interrupted program's \<open>EAX\<close>. The first gives the new value of \<open>badbuf\<close>.
\<close>

definition segfault_sighandler ::
  "'a machine_scheme user_env \<Rightarrow> addr \<Rightarrow> addr \<Rightarrow> addr \<Rightarrow> 'a machine_scheme \<Rightarrow> (addr \<times> 'a machine_scheme) option" where
  "segfault_sighandler E charbuf signum buf s = do {
     s \<leftarrow> say E ''Segfault signal handler called, signum: '' s;
     s \<leftarrow> say E (signum_text (sint (load32 (mem s) signum))) s;
     s \<leftarrow> say E ''Press enter to continue...\<newline>'' s;
     (r, s) \<leftarrow> ece391_read E 0 buf 1 s;
     s \<leftarrow> say E ''Signal handler returning\<newline>'' (s\<lparr>mem := store32 (mem s) (signum + 28) charbuf\<rparr>);
     Some (charbuf, s)
   }"

definition alarm_sighandler :: "'a machine_scheme user_env \<Rightarrow> addr \<Rightarrow> 'a machine_scheme \<Rightarrow> 'a machine_scheme option" where
  "alarm_sighandler E signum s = do {
     s \<leftarrow> say E ''Alarm signal handler called, signum: '' s;
     say E (signum_text (sint (load32 (mem s) signum))) s
   }"

section \<open>The fault\<close>

context line_user
begin

lemma sigtest_reads_then_faults:
  assumes a: "ece391_getargs E buf 1024 s0 = Some (0, s)" and ok: "ok s"
    and refuses: "\<And>n h s. ece391_set_handler E n h s = Some (-1, s)"
    and M: "{''Installing signal handlers\<newline>'', ''Hi, what's your name? ''} \<subseteq> M" and p: "\<And>s'. ok s' \<Longrightarrow> \<not> present badbuf s'"
  shows "\<exists>s'. sigtest_main present E badbuf charbuf segv alrm buf s0 = Some (Faulted badbuf, s') \<and> ok s'
    \<and> view s' = fold vput ((if mem s buf = 0x31 then lit ''Installing signal handlers\<newline>'' else [])
        @ lit ''Hi, what's your name? '' @ typed @ [0x0A]) (view s)"
proof -
  obtain s1 where s1: "(if mem s buf = 0x31 then sigtest_install E segv alrm s else Some s) = Some s1" "ok s1"
    "view s1 = fold vput (if mem s buf = 0x31 then lit ''Installing signal handlers\<newline>'' else []) (view s)"
  proof (cases "mem s buf = 0x31")
    case True
    obtain s' where s': "say E ''Installing signal handlers\<newline>'' s = Some s'" "ok s'"
        "view s' = fold vput (lit ''Installing signal handlers\<newline>'') (view s)"
      using say [OF ok, of "''Installing signal handlers\<newline>''"] M by blast
    have "sigtest_install E segv alrm s = Some s'"
      by (simp only: sigtest_install_def s'(1) refuses Option.bind.bind_lunit case_prod_conv)
    then show thesis using that [of s'] s'(2,3) True by simp
  next
    case False
    then show thesis using that [of s] ok by simp
  qed
  obtain s2 where s2: "say E ''Hi, what's your name? '' s1 = Some s2" "ok s2"
      "view s2 = fold vput (lit ''Hi, what's your name? '') (view s1)"
    using say [OF s1(2), of "''Hi, what's your name? ''"] M by blast
  obtain s3 where s3: "ece391_read E 0 buf 1023 s2 = Some (int (length typed) + 1, s3)" "ok s3"
      "view s3 = fold vput (typed @ [0x0A]) (view s2)"
    using read [OF s2(2)] by blast
  have n: "(int (length typed) + 1 = -1) = False" "(0 \<noteq> (0 :: int)) = False" by simp_all
  have "sigtest_main present E badbuf charbuf segv alrm buf s0
      = sigtest_greet present E charbuf buf (int (length typed) + 1) badbuf s3"
    unfolding sigtest_main_def
    by (simp only: a s1(1) s2(1) s3(1) n Option.bind.bind_lunit case_prod_conv if_False)
  also have "\<dots> = Some (Faulted badbuf, s3)" using p [OF s3(2)] by (simp add: sigtest_greet_def)
  finally show ?thesis using s3(2,3) s2(3) s1(3) by (auto simp del: lit_Cons)
qed

end

section \<open>Properties\<close>

text \<open>A user's write to an address is allowed where the page tables say so.\<close>

definition user_writes :: "addr \<Rightarrow> 'a paging_state_scheme \<Rightarrow> bool" where
  "user_writes a s \<longleftrightarrow> (case translate s a of None \<Rightarrow> False | Some p \<Rightarrow> user p \<and> writable p)"

text \<open>C25: the signal test program on this kernel. Without an argument it says so and ends with 3. With
  one it installs its handlers when the argument starts with a 1, asks for the name, waits until the user has
  typed it, and then faults at the null pointer: installing the handlers makes no difference, and it
  never gets to its greeting, for as long as the page tables map no page at 0, which nothing it does
  changes.\<close>

theorem sigtest_faults:
  fixes K :: "'a kenv"
  assumes "typing K data {''could not read argument\<newline>'', ''Installing signal handlers\<newline>'', ''Hi, what's your name? ''} k buf mode cs s"
    and "argbuf (now_pcb s) = args @ replicate (100 - length args) 0" "0 \<notin> set args" "length args \<le> 100" "cur_tss_byte0 (now_pcb s) = 0"
    and "translate s 0 = None"
  shows "\<exists>s'. sigtest_main user_writes (kernel_env K resume data) 0 charbuf segv alrm buf s
      = Some (if args = [] then Ended 3 else Faulted 0, s')
    \<and> shown s' = fold (vga_put (0x20, k) (\<lambda>c. (c, k)))
        (if args = [] then lit ''could not read argument\<newline>''
         else (if hd args = 0x31 then lit ''Installing signal handlers\<newline>'' else [])
           @ lit ''Hi, what's your name? '' @ map (key_char mode) cs @ [0x0A]) (shown s)"
proof (cases "args = []")
  case True
  let ?E = "kernel_env K resume data" and ?M = "{''could not read argument\<newline>'', ''Installing signal handlers\<newline>'', ''Hi, what's your name? ''}"
  have ok: "typing_on (translate s) K data ?M k buf mode cs s" using assms(1) by (simp add: typing_on_def)
  have "getargs buf 1024 s = Some (-1, s)" using getargs_eq [OF assms(2-5)] True by simp
  then have a: "ece391_getargs ?E buf 1024 s = Some (-1, s)" by (rule kernel_getargs) (simp_all add: int32_def)
  obtain s1 where s1: "say ?E ''could not read argument\<newline>'' s = Some s1" "shown s1 = fold (vput_colour k) (lit ''could not read argument\<newline>'') (shown s)"
    using kernel_line.say [OF ok, of "''could not read argument\<newline>''" resume] by blast
  have n: "(-1 \<noteq> (0 :: int)) = True" by simp
  have "sigtest_main user_writes ?E 0 charbuf segv alrm buf s = Some (Ended 3, s1)" unfolding sigtest_main_def
    by (simp only: a s1(1) n Option.bind.bind_lunit case_prod_conv if_True)
  then show ?thesis using True s1(2) by simp
next
  case False
  let ?E = "kernel_env K resume data" and ?M = "{''could not read argument\<newline>'', ''Installing signal handlers\<newline>'', ''Hi, what's your name? ''}"
  let ?s1 = "s\<lparr>mem := store (mem s) buf (args @ [0])\<rparr>"
  have r: "line_ready K data ?M k buf s" using assms(1) unfolding typing_def by blast
  have l: "length (args @ [0]) \<le> 1024" using assms(4) by simp
  note st = line_ready_store [OF r l]
  have ok: "typing_on (translate s) K data ?M k buf mode cs ?s1"
    using assms(1) st unfolding typing_on_def typing_def by simp
  have "getargs buf 1024 s = Some (0, ?s1)" using getargs_eq [OF assms(2-5)] assms(4) False by simp
  then have a: "ece391_getargs ?E buf 1024 s = Some (0, ?s1)" by (rule kernel_getargs) (simp_all add: int32_def)
  have hd: "mem ?s1 buf = hd args" using False store_at [of 0 "args @ [0]" "mem s" buf] l by (cases args) simp_all
  have unmapped: "\<not> user_writes 0 s'" if "typing_on (translate s) K data ?M k buf mode cs s'" for s'
    using that assms(6) by (simp add: typing_on_def user_writes_def)
  have sub: "{''Installing signal handlers\<newline>'', ''Hi, what's your name? ''} \<subseteq> ?M" by blast
  have e: "(args = []) = False" using False by simp
  from kernel_line.sigtest_reads_then_faults [where present = user_writes and badbuf = 0 and charbuf = charbuf and segv = segv
      and alrm = alrm, OF a ok kernel_set_handler sub unmapped]
  show ?thesis unfolding hd st(2) by (simp only: e if_False) blast
qed

theorem sigtest_faults_witness:
  "\<exists>E s s'. E = kernel_env (typing_kenv [0x1E]) (\<lambda>_. None)
      (slot_of [''could not read argument\<newline>'', ''Installing signal handlers\<newline>'', ''Hi, what's your name? ''] 0x8050000)
    \<and> argbuf (now_pcb s) = lit ''1'' @ replicate 99 0
    \<and> sigtest_main user_writes E 0 0x8070000 0x8048100 0x8048200 0x8060000 s = Some (Faulted 0, s')"
proof -
  let ?ts = "[''could not read argument\<newline>'', ''Installing signal handlers\<newline>'', ''Hi, what's your name? '']"
  let ?d = "on_display (slots 0x8050000 (map lit ?ts))"
  let ?s = "?d\<lparr>pcbs := \<lambda>_. std_pcb\<lparr>argbuf := lit ''1'' @ replicate 99 0\<rparr>\<rparr>"
  have ts: "\<forall>t \<in> set ?ts. length t < 32 \<and> 0 \<notin> set (lit t) \<and> 0x25 \<notin> set (lit t)" by simp
  have "key_char 0 0x1E = 0x61" by (simp add: key_char_def scancode_map_def)
  then have cs: "\<forall>c \<in> set [0x1E]. key_char 0 c \<noteq> 0" by simp
  have t: "typing (typing_kenv [0x1E]) (slot_of ?ts 0x8050000) (set ?ts) 0xD 0x8060000 0 [0x1E] ?d"
    by (rule typing_example [OF ts _ cs]) simp_all
  have p: "now_pcb ?s = std_pcb\<lparr>argbuf := lit ''1'' @ replicate 99 0\<rparr>" by simp
  have fd: "fd_inv (now_pcb ?s)" unfolding p by (simp add: fd_inv_def std_pcb_def no_pcb_def)
  have ab: "argbuf (now_pcb ?s) = lit ''1'' @ replicate (100 - length (lit ''1'')) 0" "cur_tss_byte0 (now_pcb ?s) = 0"
    unfolding p by (simp_all add: std_pcb_def no_pcb_def)
  have "page_dir ?s = (\<lambda>_. 0)"
    by (simp add: on_display_def shell_boot_def fs_boot_def proc_boot_def kbd_boot_def console_boot_def
        paging_boot_def pic_boot_def pic_state.defs paging_state.defs console_state.defs kbd_state.defs proc_state.defs fs_state.defs)
  then have tr: "translate ?s 0 = None" by (simp add: translate_def Let_def)
  have l: "0 \<notin> set (lit ''1'')" "length (lit ''1'') \<le> 100" "lit ''1'' \<noteq> []" by simp_all
  have "\<exists>s'. sigtest_main user_writes (kernel_env (typing_kenv [0x1E]) (\<lambda>_. None) (slot_of ?ts 0x8050000)) 0 0x8070000 0x8048100 0x8048200
      0x8060000 ?s = Some (Faulted 0, s')"
    using sigtest_faults [OF typing_pcbs [OF t fd, unfolded list.set] ab(1) l(1,2) ab(2) tr, where resume = "\<lambda>_. None"]
    by (simp only: l(3) if_False) blast
  moreover have "argbuf (now_pcb ?s) = lit ''1'' @ replicate 99 0" using ab(1) by simp
  ultimately show ?thesis by blast
qed

end
