(* ===== verification/Blink.thy ===== *)
theory Blink
  imports Lib_Mem Lib_String Machine
begin

text \<open>
  The list of blinking characters of the fish demo: the assembly routines of \<open>fish/blink.S\<close> and
  the allocation and copying functions of \<open>fish/fish.c\<close> they call. A \<open>mp1_blink_struct\<close> is 16
  bytes of memory; \<open>blink_vars\<close> has the addresses of the variables and of the temporary
  structures on the stack. A walk along the list is a partial function: a cyclic list is \<open>None\<close>.
\<close>

record blink_vars =
  vmem_base_addr :: addr \<comment> \<open>the variable that holds the address of the screen\<close>
  mp1_list_head :: addr
  blink_array :: addr
  add_temp :: addr
  find_temp :: addr

definition LOCATION :: addr where "LOCATION = 0"
definition ON_CHAR :: addr where "ON_CHAR = 2"
definition OFF_CHAR :: addr where "OFF_CHAR = 3"
definition ON_LENGTH :: addr where "ON_LENGTH = 4"
definition OFF_LENGTH :: addr where "OFF_LENGTH = 6"
definition COUNTDOWN :: addr where "COUNTDOWN = 8"
definition STATUS :: addr where "STATUS = 10"
definition NEXT :: addr where "NEXT = 12"
definition STRUCT_SIZE :: nat where "STRUCT_SIZE = 16"

lemmas blink_offsets = LOCATION_def ON_CHAR_def OFF_CHAR_def ON_LENGTH_def OFF_LENGTH_def COUNTDOWN_def
  STATUS_def NEXT_def

text \<open>16-bit and 32-bit accesses.\<close>

definition load16 :: "mem \<Rightarrow> addr \<Rightarrow> u16" where
  "load16 m a = ucast (m a) OR push_bit 8 (ucast (m (a + 1)))"

definition store16 :: "mem \<Rightarrow> addr \<Rightarrow> u16 \<Rightarrow> mem" where
  "store16 m a v = m(a := ucast v, a + 1 := ucast (drop_bit 8 v))"

definition store32 :: "mem \<Rightarrow> addr \<Rightarrow> u32 \<Rightarrow> mem" where
  "store32 m a v = store m a (dword_bytes v)"

section \<open>Helpers of \<open>fish.c\<close>\<close>

definition fish_memset :: "addr \<Rightarrow> byte \<Rightarrow> nat \<Rightarrow> mem \<Rightarrow> mem" where
  "fish_memset a c n m = for_range 0 n (\<lambda>i m. m(a + of_nat i := c)) m"

definition fish_memcpy :: "addr \<Rightarrow> addr \<Rightarrow> nat \<Rightarrow> mem \<Rightarrow> int \<times> mem" where
  "fish_memcpy dest src n m = (0, for_range 0 n (\<lambda>i m. m(dest + of_nat i := m (src + of_nat i))) m)"

function mp1_malloc_from :: "blink_vars \<Rightarrow> nat \<Rightarrow> mem \<Rightarrow> addr" where
  "mp1_malloc_from V i m =
     (if i < 80 * 25
      then if load16 m (blink_array V + of_nat (16 * i) + LOCATION) = 0 then blink_array V + of_nat (16 * i)
           else mp1_malloc_from V (Suc i) m
      else 0)"
  by pat_completeness auto
termination
  by (relation "measure (\<lambda>(V, i, m). 80 * 25 - i)") auto

declare mp1_malloc_from.simps [simp del]

definition mp1_malloc :: "blink_vars \<Rightarrow> mem \<Rightarrow> addr" where
  "mp1_malloc V m = mp1_malloc_from V 0 m"

definition mp1_free :: "addr \<Rightarrow> mem \<Rightarrow> mem" where
  "mp1_free a m = fish_memset a 0 STRUCT_SIZE m"

section \<open>The routines of \<open>blink.S\<close>\<close>

definition mp1_poke :: "blink_vars \<Rightarrow> byte \<Rightarrow> u32 \<Rightarrow> mem \<Rightarrow> mem" where
  "mp1_poke V cl eax m = m(load32 m (vmem_base_addr V) + eax := cl)"

text \<open>The end of a blink's turn: the character changes, the count starts again.\<close>

definition end_blink :: "blink_vars \<Rightarrow> addr \<Rightarrow> mem \<Rightarrow> mem" where
  "end_blink V ebx m =
     (let eax = push_bit 1 (ucast (load16 m (ebx + LOCATION)));
          (m, dx) = (if bit (load16 m (ebx + STATUS)) 0
                     then let m = mp1_poke V (m (ebx + OFF_CHAR)) eax m in (m, load16 m (ebx + OFF_LENGTH))
                     else let m = mp1_poke V (m (ebx + ON_CHAR)) eax m in (m, load16 m (ebx + ON_LENGTH)));
          m = store16 m (ebx + COUNTDOWN) dx
      in store16 m (ebx + STATUS) (load16 m (ebx + STATUS) XOR 1))"

partial_function (option) tasklet_loop :: "blink_vars \<Rightarrow> addr \<Rightarrow> mem \<Rightarrow> mem option" where
  "tasklet_loop V ebx m =
     (if ebx = 0 then Some m
      else
        let m = store16 m (ebx + COUNTDOWN) (load16 m (ebx + COUNTDOWN) - 1);
            m = (if sint (load16 m (ebx + COUNTDOWN)) > 0 then m else end_blink V ebx m)
        in tasklet_loop V (load32 m (ebx + NEXT)) m)"

definition mp1_rtc_tasklet :: "blink_vars \<Rightarrow> mem \<Rightarrow> mem option" where
  "mp1_rtc_tasklet V m = tasklet_loop V (load32 m (mp1_list_head V)) m"

partial_function (option) find_loop :: "u16 \<Rightarrow> addr \<Rightarrow> mem \<Rightarrow> addr option" where
  "find_loop ax ebx m =
     (if ebx = 0 then Some 0
      else if load16 m (ebx + LOCATION) = ax then Some ebx
      else find_loop ax (load32 m (ebx + NEXT)) m)"

definition mp1_find_helper :: "blink_vars \<Rightarrow> u16 \<Rightarrow> mem \<Rightarrow> addr option" where
  "mp1_find_helper V ax m = find_loop ax (load32 m (mp1_list_head V)) m"

definition mp1_ioctl_add :: "blink_vars \<Rightarrow> addr \<Rightarrow> mem \<Rightarrow> (int \<times> mem) option" where
  "mp1_ioctl_add V arg m =
     (let ebx = add_temp V;
          (r, m) = fish_memcpy ebx arg STRUCT_SIZE m
      in if r \<noteq> 0 \<or> load16 m (ebx + LOCATION) \<ge> 80 * 25 then Some (-1, m)
         else
           let m = store16 m (ebx + STATUS) 1;
               m = store16 m (ebx + COUNTDOWN) (load16 m (ebx + ON_LENGTH));
               edx = mp1_malloc V m
           in if edx = 0 then Some (-1, m)
              else
                let (r, m) = fish_memcpy edx ebx STRUCT_SIZE m;
                    m = store32 m (edx + NEXT) (load32 m (mp1_list_head V));
                    m = store32 m (mp1_list_head V) edx;
                    eax = push_bit 1 (ucast (load16 m (edx + LOCATION)))
                in Some (0, mp1_poke V (m (edx + ON_CHAR)) eax m))"

partial_function (option) remove_find_prev :: "addr \<Rightarrow> addr \<Rightarrow> mem \<Rightarrow> addr option" where
  "remove_find_prev eax edx m =
     (if load32 m edx = eax then Some edx else remove_find_prev eax (load32 m edx + NEXT) m)"

definition mp1_ioctl_remove :: "blink_vars \<Rightarrow> u32 \<Rightarrow> mem \<Rightarrow> (int \<times> mem) option" where
  "mp1_ioctl_remove V arg m = do {
     eax \<leftarrow> mp1_find_helper V (ucast arg) m;
     if eax = 0 then Some (-1, m)
     else do {
       edx \<leftarrow> remove_find_prev eax (mp1_list_head V) m;
       Some (0, mp1_free eax (store32 m edx (load32 m (eax + NEXT))))
     }
   }"

text \<open>
  The last steps of \<open>mp1_ioctl_sync\<close>. \<open>cmovl\<close> moves if the sign flag differs from the overflow
  flag; after \<open>testb $1\<close> they are bit 7 of the masked byte and 0.
\<close>

definition sync_copy :: "blink_vars \<Rightarrow> addr \<Rightarrow> addr \<Rightarrow> mem \<Rightarrow> mem" where
  "sync_copy V esi edi m =
     (let m = store16 m (edi + ON_LENGTH) (load16 m (esi + ON_LENGTH));
          m = store16 m (edi + OFF_LENGTH) (load16 m (esi + OFF_LENGTH));
          m = store16 m (edi + COUNTDOWN) (load16 m (esi + COUNTDOWN));
          m = store16 m (edi + STATUS) (load16 m (esi + STATUS));
          eax = push_bit 1 (ucast (load16 m (edi + LOCATION)));
          ecx = m (edi + OFF_CHAR);
          ecx = (if bit (m (edi + STATUS) AND 1) 7 then m (edi + ON_CHAR) else ecx)
      in mp1_poke V ecx eax m)"

definition mp1_ioctl_sync :: "blink_vars \<Rightarrow> u32 \<Rightarrow> mem \<Rightarrow> (int \<times> mem) option" where
  "mp1_ioctl_sync V arg m = do {
     esi \<leftarrow> mp1_find_helper V (ucast (drop_bit 16 arg)) m;
     if esi = 0 then Some (-1, m)
     else do {
       edi \<leftarrow> mp1_find_helper V (ucast (arg AND 0xFFFF)) m;
       if edi = 0 then Some (-1, m) else Some (0, sync_copy V esi edi m)
     }
   }"

definition mp1_ioctl_find :: "blink_vars \<Rightarrow> addr \<Rightarrow> mem \<Rightarrow> (int \<times> mem) option" where
  "mp1_ioctl_find V arg m =
     (let (r, m) = fish_memcpy (find_temp V) arg 2 m
      in if r \<noteq> 0 then Some (-1, m)
         else do {
           eax \<leftarrow> mp1_find_helper V (load16 m (find_temp V)) m;
           if eax = 0 then Some (-1, m)
           else let (r, m) = fish_memcpy arg eax STRUCT_SIZE m
                in Some (if r = 0 then 0 else -1, m)
         })"

text \<open>The jump table; a command past it jumps to what follows the table.\<close>

definition mp1_ioctl :: "blink_vars \<Rightarrow> u32 \<Rightarrow> nat \<Rightarrow> mem \<Rightarrow> (int \<times> mem) option" where
  "mp1_ioctl V arg cmd m =
     (if cmd = 0 then mp1_ioctl_add V arg m
      else if cmd = 1 then mp1_ioctl_remove V arg m
      else if cmd = 2 then mp1_ioctl_find V arg m
      else if cmd = 3 then mp1_ioctl_sync V arg m
      else None)"

end
