(* ===== verification/Blink_List.thy ===== *)
theory Blink_List
  imports Blink
begin

text \<open>
  The blinking characters as a list: what \<open>mp1_rtc_tasklet\<close> does to the memory of a linked list
  is what \<open>blink_tick\<close> does to each element, and the screen gets their characters in order.
\<close>

section \<open>The abstract list\<close>

record blink =
  b_loc :: u16
  b_on :: byte
  b_off :: byte
  b_on_len :: u16
  b_off_len :: u16
  b_count :: u16
  b_status :: u16

definition blink_at :: "mem \<Rightarrow> addr \<Rightarrow> blink" where
  "blink_at m a = \<lparr>b_loc = load16 m a, b_on = m (a + 2), b_off = m (a + 3), b_on_len = load16 m (a + 4),
     b_off_len = load16 m (a + 6), b_count = load16 m (a + 8), b_status = load16 m (a + 10)\<rparr>"

text \<open>A clock tick: the count goes down; when it is used up the other character is shown.\<close>

definition blink_tick :: "blink \<Rightarrow> blink \<times> (nat \<times> byte) option" where
  "blink_tick b =
     (let c = b_count b - 1
      in if sint c > 0 then (b\<lparr>b_count := c\<rparr>, None)
         else if bit (b_status b) 0
         then (b\<lparr>b_count := b_off_len b, b_status := b_status b XOR 1\<rparr>, Some (2 * unat (b_loc b), b_off b))
         else (b\<lparr>b_count := b_on_len b, b_status := b_status b XOR 1\<rparr>, Some (2 * unat (b_loc b), b_on b)))"

fun put_cell :: "(nat \<times> byte) option \<Rightarrow> byte list \<Rightarrow> byte list" where
  "put_cell None cs = cs"
| "put_cell (Some (i, c)) cs = cs[i := c]"

fun chain :: "mem \<Rightarrow> addr \<Rightarrow> addr list \<Rightarrow> bool" where
  "chain m p [] \<longleftrightarrow> p = 0"
| "chain m p (a # as) \<longleftrightarrow> p = a \<and> a \<noteq> 0 \<and> chain m (load32 m (a + 12)) as"

abbreviation screen_of :: "blink_vars \<Rightarrow> mem \<Rightarrow> addr" where
  "screen_of V m \<equiv> load32 m (vmem_base_addr V)"

abbreviation screen_area :: "blink_vars \<Rightarrow> mem \<Rightarrow> addr set" where
  "screen_area V m \<equiv> run (screen_of V m) 4000"

text \<open>The nodes are apart from each other, from the screen and from the pointer to it.\<close>

fun nodes_apart :: "addr set \<Rightarrow> addr list \<Rightarrow> bool" where
  "nodes_apart W [] = True"
| "nodes_apart W (a # as) \<longleftrightarrow> run a 16 \<inter> W = {} \<and> (\<forall>b \<in> set as. run a 16 \<inter> run b 16 = {}) \<and> nodes_apart W as"

definition list_ok :: "blink_vars \<Rightarrow> mem \<Rightarrow> addr list \<Rightarrow> bool" where
  "list_ok V m as \<longleftrightarrow> nodes_apart (screen_area V m \<union> run (vmem_base_addr V) 4 \<union> run (mp1_list_head V) 4) as
     \<and> screen_area V m \<inter> (run (vmem_base_addr V) 4 \<union> run (mp1_list_head V) 4) = {}
     \<and> run (vmem_base_addr V) 4 \<inter> run (mp1_list_head V) 4 = {}
     \<and> (\<forall>a \<in> set as. load16 m a < 2000)"

section \<open>One element's turn\<close>

definition blink_turn :: "blink_vars \<Rightarrow> addr \<Rightarrow> mem \<Rightarrow> mem" where
  "blink_turn V a m =
     (let m = store16 m (a + 8) (load16 m (a + 8) - 1)
      in if sint (load16 m (a + 8)) > 0 then m else end_blink V a m)"

lemma tasklet_loop_turn:
  "tasklet_loop V a m = (if a = 0 then Some m else tasklet_loop V (load32 (blink_turn V a m) (a + 12)) (blink_turn V a m))"
  by (subst tasklet_loop.simps) (simp add: blink_turn_def blink_offsets Let_def)

lemma load16_cong: "m a = m' a \<Longrightarrow> m (a + 1) = m' (a + 1) \<Longrightarrow> load16 m a = load16 m' a"
  by (simp add: load16_def)

lemma load16_store16 [simp]: "load16 (store16 m a v) a = v"
  by (rule bit_word_eqI)
    (auto simp: load16_def store16_def bit_or_iff bit_push_bit_iff bit_ucast_iff bit_drop_bit_eq dest: bit_imp_le_length)

lemma store16_other: "x \<noteq> a \<Longrightarrow> x \<noteq> a + 1 \<Longrightarrow> store16 m a v x = m x"
  by (simp add: store16_def)

text \<open>The fields of a node do not overlap.\<close>

lemma load16_store16_field:
  "{k, k + 1} \<inter> {j, j + 1} = {} \<Longrightarrow> load16 (store16 m (a + k) v) (a + j) = load16 m (a + j)"
  by (rule load16_cong) (auto simp: add.assoc intro!: store16_other)

text \<open>A memory that agrees on a node has the same blink and the same successor there.\<close>

lemma in_node: "k < 16 \<Longrightarrow> a + of_nat k \<in> run a 16"
  by simp

lemma node_same:
  assumes "\<And>x. x \<in> run a 16 \<Longrightarrow> m' x = m x"
  shows "load16 m' a = load16 m a" "m' (a + 2) = m (a + 2)" "m' (a + 3) = m (a + 3)"
    "load16 m' (a + 4) = load16 m (a + 4)" "load16 m' (a + 6) = load16 m (a + 6)"
    "load16 m' (a + 8) = load16 m (a + 8)" "load16 m' (a + 10) = load16 m (a + 10)"
    "load32 m' (a + 12) = load32 m (a + 12)" "blink_at m' a = blink_at m a"
proof -
  have same: "m' (a + of_nat k) = m (a + of_nat k)" if "k < 16" for k using assms in_node [OF that] by blast
  have 16: "load16 m' (a + of_nat k) = load16 m (a + of_nat k)" if "k < 15" for k
    using same [of k] same [of "Suc k"] that by (intro load16_cong) (simp_all add: ac_simps)
  show *: "load16 m' a = load16 m a" "m' (a + 2) = m (a + 2)" "m' (a + 3) = m (a + 3)"
    "load16 m' (a + 4) = load16 m (a + 4)" "load16 m' (a + 6) = load16 m (a + 6)"
    "load16 m' (a + 8) = load16 m (a + 8)" "load16 m' (a + 10) = load16 m (a + 10)"
    using 16 [of 0] same [of 2] same [of 3] 16 [of 4] 16 [of 6] 16 [of 8] 16 [of 10] by simp_all
  show "load32 m' (a + 12) = load32 m (a + 12)"
    using same [of 12] same [of 13] same [of 14] same [of 15] by (simp add: load32_def add.assoc)
  show "blink_at m' a = blink_at m a" by (simp add: blink_at_def *)
qed

text \<open>Setting the count and the status of a node.\<close>

lemma blink_at_count: "blink_at (store16 m (a + 8) c) a = (blink_at m a)\<lparr>b_count := c\<rparr>"
  using load16_store16_field [of 8 0 m a c] load16_store16_field [of 8 4 m a c] load16_store16_field [of 8 6 m a c]
    load16_store16_field [of 8 10 m a c]
  by (simp add: blink_at_def store16_other add.assoc)

lemma blink_at_status: "blink_at (store16 m (a + 10) c) a = (blink_at m a)\<lparr>b_status := c\<rparr>"
  using load16_store16_field [of 10 0 m a c] load16_store16_field [of 10 4 m a c] load16_store16_field [of 10 6 m a c]
    load16_store16_field [of 10 8 m a c]
  by (simp add: blink_at_def store16_other add.assoc)

lemma next_store16: "k = 8 \<or> k = 10 \<Longrightarrow> load32 (store16 m (a + k) c) (a + 12) = load32 m (a + 12)"
  by (auto simp: load32_def store16_other add.assoc)

lemma store16_node: "k = 8 \<or> k = 10 \<Longrightarrow> x \<notin> run a 16 \<Longrightarrow> store16 m (a + k) v x = m x"
  using in_node [of 8 a] in_node [of 9 a] in_node [of 10 a] in_node [of 11 a]
  by (intro store16_other) (auto simp: add.assoc)

text \<open>A turn that shows a character: the cell is written, then the count and the status.\<close>

definition show_turn :: "blink_vars \<Rightarrow> addr \<Rightarrow> nat \<Rightarrow> byte \<Rightarrow> u16 \<Rightarrow> mem \<Rightarrow> mem" where
  "show_turn V a i c len m =
     (let m = m(screen_of V m + of_nat i := c);
          m = store16 m (a + 8) len
      in store16 m (a + 10) (load16 m (a + 10) XOR 1))"

lemma show_turn_effect:
  assumes ap: "run a 16 \<inter> screen_area V m = {}" and i: "i < 4000"
  shows "blink_at (show_turn V a i c len m) a = (blink_at m a)\<lparr>b_count := len, b_status := b_status (blink_at m a) XOR 1\<rparr>"
    "load32 (show_turn V a i c len m) (a + 12) = load32 m (a + 12)"
    "x \<notin> run a 16 \<Longrightarrow> x \<notin> screen_area V m \<Longrightarrow> show_turn V a i c len m x = m x"
    "load (show_turn V a i c len m) (screen_of V m) 4000 = (load m (screen_of V m) 4000)[i := c]"
proof -
  let ?q = "screen_of V m + of_nat i"
  define m1 where "m1 = m(?q := c)"
  have q: "?q \<in> screen_area V m" using i by simp
  have "m1 x = m x" if "x \<in> run a 16" for x using that ap q by (auto simp: m1_def simp del: image_iff)
  note same = node_same [of a m1 m, OF this]
  have st: "load16 (store16 m1 (a + 8) len) (a + 10) = load16 m (a + 10)"
    using load16_store16_field [of 8 10 m1 a len] same(7) by simp
  have turn: "show_turn V a i c len m = store16 (store16 m1 (a + 8) len) (a + 10) (load16 m (a + 10) XOR 1)"
    by (simp add: show_turn_def Let_def m1_def [symmetric] st)
  show "blink_at (show_turn V a i c len m) a = (blink_at m a)\<lparr>b_count := len, b_status := b_status (blink_at m a) XOR 1\<rparr>"
    unfolding turn blink_at_status blink_at_count by (simp add: blink_at_def same)
  show "load32 (show_turn V a i c len m) (a + 12) = load32 m (a + 12)"
    unfolding turn by (simp add: next_store16 same(8))
  have out: "show_turn V a i c len m x = m1 x" if "x \<notin> run a 16" for x
    unfolding turn using that by (simp add: store16_node)
  then show "x \<notin> run a 16 \<Longrightarrow> x \<notin> screen_area V m \<Longrightarrow> show_turn V a i c len m x = m x"
    using q by (auto simp: m1_def simp del: image_iff)
  show "load (show_turn V a i c len m) (screen_of V m) 4000 = (load m (screen_of V m) 4000)[i := c]"
  proof (rule nth_equalityI)
    fix j assume "j < length (load (show_turn V a i c len m) (screen_of V m) 4000)"
    then have j: "j < 4000" by simp
    then have "screen_of V m + of_nat j \<notin> run a 16" using ap by (auto simp del: image_iff)
    then show "load (show_turn V a i c len m) (screen_of V m) 4000 ! j = (load m (screen_of V m) 4000)[i := c] ! j"
      using j i by (simp add: out m1_def nth_list_update)
  qed simp
qed

text \<open>The turn is \<open>blink_tick\<close>.\<close>

lemma blink_at_simps:
  "b_loc (blink_at m a) = load16 m a" "b_on (blink_at m a) = m (a + 2)" "b_off (blink_at m a) = m (a + 3)"
  "b_on_len (blink_at m a) = load16 m (a + 4)" "b_off_len (blink_at m a) = load16 m (a + 6)"
  "b_count (blink_at m a) = load16 m (a + 8)" "b_status (blink_at m a) = load16 m (a + 10)"
  by (simp_all add: blink_at_def)

lemma end_blink_show:
  assumes ap: "run a 16 \<inter> screen_area V m = {}" and b: "b_loc (blink_at m a) < 2000"
  shows "end_blink V a m = (let b = blink_at m a
    in if bit (b_status b) 0 then show_turn V a (2 * unat (b_loc b)) (b_off b) (b_off_len b) m
       else show_turn V a (2 * unat (b_loc b)) (b_on b) (b_on_len b) m)"
proof -
  let ?i = "2 * unat (load16 m a)"
  have u: "unat (load16 m a) < 2000" using b by (simp add: word_less_nat_alt blink_at_simps)
  have e: "push_bit 1 (ucast (load16 m a)) = (of_nat ?i :: u32)"
    by (simp add: push_bit_eq_mult)
  have "screen_of V m + of_nat i \<in> screen_area V m" if "i < 4000" for i using that by simp
  from this [of ?i] have "screen_of V m + of_nat ?i \<in> screen_area V m" using u by linarith
  then have "(m(screen_of V m + of_nat ?i := c)) x = m x" if "x \<in> run a 16" for c x
    using that ap by (auto simp del: image_iff)
  note same = node_same [OF this]
  show ?thesis
    unfolding end_blink_def Let_def blink_offsets mp1_poke_def show_turn_def blink_at_simps add_0_right e
    by (simp add: same del: of_nat_mult)
qed

lemma blink_turn_effect:
  assumes ap: "run a 16 \<inter> screen_area V m = {}" "run a 16 \<inter> run (vmem_base_addr V) 4 = {}"
    and b: "load16 m a < 2000"
  shows "blink_at (blink_turn V a m) a = fst (blink_tick (blink_at m a))" (is ?at)
    "load32 (blink_turn V a m) (a + 12) = load32 m (a + 12)" (is ?next)
    "x \<notin> run a 16 \<Longrightarrow> x \<notin> screen_area V m \<Longrightarrow> blink_turn V a m x = m x" (is "_ \<Longrightarrow> _ \<Longrightarrow> ?out")
    "load (blink_turn V a m) (screen_of V m) 4000
     = put_cell (snd (blink_tick (blink_at m a))) (load m (screen_of V m) 4000)" (is ?scr)
proof -
  define c where "c = load16 m (a + 8) - 1"
  define m1 where "m1 = store16 m (a + 8) c"
  define b where "b = blink_at m a"
  have out: "m1 x = m x" if "x \<notin> run a 16" for x using that by (simp add: m1_def store16_node)
  have b1: "blink_at m1 a = b\<lparr>b_count := c\<rparr>" by (simp add: m1_def b_def blink_at_count)
  have n1: "load32 m1 (a + 12) = load32 m (a + 12)" by (simp add: m1_def next_store16)
  have s1: "screen_of V m1 = screen_of V m" by (rule load32_cong, rule out) (use ap(2) in blast)
  have l1: "load m1 (screen_of V m) 4000 = load m (screen_of V m) 4000"
    by (rule load_cong, rule out) (use ap(1) in \<open>auto simp del: image_iff\<close>)
  have a1: "run a 16 \<inter> screen_area V m1 = {}" using ap(1) by (simp add: s1)
  have loc: "b_loc (blink_at m1 a) < 2000" "2 * unat (b_loc b) < 4000"
    using b unfolding b1 by (simp_all add: b_def blink_at_simps word_less_nat_alt)
  have cnt: "load16 m1 (a + 8) = c" by (simp add: m1_def)
  have turn: "blink_turn V a m = (if sint c > 0 then m1
      else if bit (b_status b) 0 then show_turn V a (2 * unat (b_loc b)) (b_off b) (b_off_len b) m1
      else show_turn V a (2 * unat (b_loc b)) (b_on b) (b_on_len b) m1)"
    using end_blink_show [OF a1 loc(1)] b1
    by (simp add: blink_turn_def Let_def c_def [symmetric] m1_def [symmetric] cnt)
  have tick: "blink_tick b = (if sint c > 0 then (b\<lparr>b_count := c\<rparr>, None)
      else if bit (b_status b) 0
      then (b\<lparr>b_count := b_off_len b, b_status := b_status b XOR 1\<rparr>, Some (2 * unat (b_loc b), b_off b))
      else (b\<lparr>b_count := b_on_len b, b_status := b_status b XOR 1\<rparr>, Some (2 * unat (b_loc b), b_on b)))"
    by (simp add: blink_tick_def Let_def c_def b_def blink_at_simps)
  note show1 = show_turn_effect [OF a1 loc(2)]
  show ?at unfolding turn b_def [symmetric] tick by (simp add: show1(1) b1)
  show ?next unfolding turn by (simp add: show1(2) n1)
  show ?out if "x \<notin> run a 16" "x \<notin> screen_area V m"
    unfolding turn using show1(3) [OF that(1)] that(2) out [OF that(1)] by (simp add: s1)
  show ?scr unfolding turn b_def [symmetric] tick using show1(4) by (simp add: s1 l1)
qed

section \<open>The whole list\<close>

lemma chain_cong: "(\<And>a. a \<in> set as \<Longrightarrow> load32 m' (a + 12) = load32 m (a + 12)) \<Longrightarrow> chain m' p as = chain m p as"
  by (induction as arbitrary: p) auto

lemma nodes_apartD: "nodes_apart W as \<Longrightarrow> a \<in> set as \<Longrightarrow> run a 16 \<inter> W = {}"
  by (induction as) auto

lemma tasklet_loop_list:
  assumes "chain m p as" "nodes_apart W as" "screen_area V m \<union> run (vmem_base_addr V) 4 \<subseteq> W"
    "screen_area V m \<inter> run (vmem_base_addr V) 4 = {}" "\<And>a. a \<in> set as \<Longrightarrow> load16 m a < 2000"
  obtains m' where "tasklet_loop V p m = Some m'" "chain m' p as"
    "map (blink_at m') as = map (\<lambda>a. fst (blink_tick (blink_at m a))) as"
    "load m' (screen_of V m) 4000
     = fold put_cell (map (\<lambda>a. snd (blink_tick (blink_at m a))) as) (load m (screen_of V m) 4000)"
    "\<forall>x. x \<notin> screen_area V m \<longrightarrow> (\<forall>a \<in> set as. x \<notin> run a 16) \<longrightarrow> m' x = m x"
  using assms
proof (induction as arbitrary: m p thesis)
  case Nil
  then show ?case by (simp add: tasklet_loop_turn)
next
  case (Cons a as)
  define n where "n = blink_turn V a m"
  have pa: "p = a" "a \<noteq> 0" and ch: "chain m (load32 m (a + 12)) as"
    and aW: "run a 16 \<inter> W = {}" and ab: "\<And>b. b \<in> set as \<Longrightarrow> run a 16 \<inter> run b 16 = {}" and asW: "nodes_apart W as"
    using Cons.prems(2,3) by auto
  have ap: "run a 16 \<inter> screen_area V m = {}" "run a 16 \<inter> run (vmem_base_addr V) 4 = {}"
    using aW Cons.prems(4) by blast+
  note eff = blink_turn_effect [OF ap Cons.prems(6) [OF list.set_intros(1)], folded n_def]
  have sc: "screen_of V n = screen_of V m"
    by (rule load32_cong, rule eff(3)) (use ap(2) Cons.prems(5) in blast)+
  have nb: "n x = m x" if "b \<in> set as" "x \<in> run b 16" for b x
    by (rule eff(3)) (use that ab nodes_apartD [OF asW that(1)] Cons.prems(4) in blast)+
  have same: "load16 n b = load16 m b" "load32 n (b + 12) = load32 m (b + 12)" "blink_at n b = blink_at m b"
    if "b \<in> set as" for b using node_same(1,8,9) [of b n m, OF nb [OF that]] by blast+
  have ch': "chain n (load32 m (a + 12)) as" using ch chain_cong [of as n m] same(2) by blast
  obtain m' where m': "tasklet_loop V (load32 m (a + 12)) n = Some m'" "chain m' (load32 m (a + 12)) as"
      "map (blink_at m') as = map (\<lambda>a. fst (blink_tick (blink_at n a))) as"
      "load m' (screen_of V n) 4000
       = fold put_cell (map (\<lambda>a. snd (blink_tick (blink_at n a))) as) (load n (screen_of V n) 4000)"
      "\<forall>x. x \<notin> screen_area V n \<longrightarrow> (\<forall>a \<in> set as. x \<notin> run a 16) \<longrightarrow> m' x = n x"
    using Cons.IH [OF _ ch' asW] Cons.prems(4,5,6) same(1) unfolding sc by (metis list.set_intros(2))
  have "m' x = n x" if x: "x \<in> run a 16" for x
  proof (rule m'(5) [rule_format])
    show "x \<notin> screen_area V n" unfolding sc using x ap(1) by blast
    show "x \<notin> run b 16" if "b \<in> set as" for b using x ab [OF that] by blast
  qed
  note na = node_same [OF this]
  have mp: "map (\<lambda>a. f (blink_tick (blink_at n a))) as = map (\<lambda>a. f (blink_tick (blink_at m a))) as" for f :: "_ \<Rightarrow> 'z"
    by (rule map_cong) (simp_all add: same(3))
  show ?case
  proof (rule Cons.prems(1))
    show "tasklet_loop V p m = Some m'"
      by (subst tasklet_loop_turn) (simp add: pa m'(1) n_def [symmetric] eff(2))
    show "chain m' p (a # as)" using m'(2) by (simp add: pa na(8) eff(2))
    show "map (blink_at m') (a # as) = map (\<lambda>a. fst (blink_tick (blink_at m a))) (a # as)"
      by (simp add: m'(3) na(9) eff(1) mp)
    show "load m' (screen_of V m) 4000
        = fold put_cell (map (\<lambda>a. snd (blink_tick (blink_at m a))) (a # as)) (load m (screen_of V m) 4000)"
      using m'(4) by (simp add: sc eff(4) mp)
    show "\<forall>x. x \<notin> screen_area V m \<longrightarrow> (\<forall>b \<in> set (a # as). x \<notin> run b 16) \<longrightarrow> m' x = m x"
      using m'(5) eff(3) by (simp add: sc del: image_iff)
  qed
qed

lemma blink_tick_loc [simp]: "b_loc (fst (blink_tick b)) = b_loc b"
  by (simp add: blink_tick_def Let_def)

text \<open>C29: on a well-formed list of blinking characters a clock tick is \<open>blink_tick\<close> on every element:
  \<open>mp1_rtc_tasklet\<close> returns, the list keeps its elements and its shape, each blink counts down or
  changes its state as specified, the screen gets exactly the characters of the blinks that
  changed, in the order of the list, and no other byte of memory is written.
\<close>

theorem mp1_rtc_tasklet_ticks:
  assumes "chain m (load32 m (mp1_list_head V)) as" "list_ok V m as"
  shows "\<exists>m'. mp1_rtc_tasklet V m = Some m' \<and> chain m' (load32 m' (mp1_list_head V)) as \<and> list_ok V m' as
    \<and> map (blink_at m') as = map (\<lambda>a. fst (blink_tick (blink_at m a))) as
    \<and> load m' (screen_of V m) 4000
        = fold put_cell (map (\<lambda>a. snd (blink_tick (blink_at m a))) as) (load m (screen_of V m) 4000)
    \<and> (\<forall>x. x \<notin> screen_area V m \<and> (\<forall>a \<in> set as. x \<notin> run a 16) \<longrightarrow> m' x = m x)"
proof -
  let ?W = "screen_area V m \<union> run (vmem_base_addr V) 4 \<union> run (mp1_list_head V) 4"
  have ok: "nodes_apart ?W as" "screen_area V m \<inter> (run (vmem_base_addr V) 4 \<union> run (mp1_list_head V) 4) = {}"
      "\<And>a. a \<in> set as \<Longrightarrow> load16 m a < 2000"
    using assms(2) by (auto simp only: list_ok_def)
  have sv: "screen_area V m \<inter> run (vmem_base_addr V) 4 = {}" using ok(2) by blast
  have sub: "screen_area V m \<union> run (vmem_base_addr V) 4 \<subseteq> ?W" by blast
  obtain m' where m': "tasklet_loop V (load32 m (mp1_list_head V)) m = Some m'" "chain m' (load32 m (mp1_list_head V)) as"
      "map (blink_at m') as = map (\<lambda>a. fst (blink_tick (blink_at m a))) as"
      "load m' (screen_of V m) 4000
       = fold put_cell (map (\<lambda>a. snd (blink_tick (blink_at m a))) as) (load m (screen_of V m) 4000)"
      "\<forall>x. x \<notin> screen_area V m \<longrightarrow> (\<forall>a \<in> set as. x \<notin> run a 16) \<longrightarrow> m' x = m x"
    by (rule tasklet_loop_list [OF assms(1) ok(1) sub sv ok(3)], assumption, rule that, assumption+)
  have out: "m' x = m x" if "x \<in> run (vmem_base_addr V) 4 \<union> run (mp1_list_head V) 4" for x
  proof (rule m'(5) [rule_format])
    show "x \<notin> screen_area V m" using that ok(2) by blast
    show "x \<notin> run a 16" if "a \<in> set as" for a using nodes_apartD [OF ok(1) that] \<open>x \<in> _\<close> by blast
  qed
  have sc: "screen_of V m' = screen_of V m" by (rule load32_cong, rule out) blast
  have hd: "load32 m' (mp1_list_head V) = load32 m (mp1_list_head V)" by (rule load32_cong, rule out) blast
  have "load16 m' a = load16 m a" if "a \<in> set as" for a
    using m'(3) that by (simp only: blink_at_simps(1) [symmetric] map_eq_conv blink_tick_loc)
  then have "list_ok V m' as" using assms(2) by (simp add: list_ok_def sc)
  then show ?thesis using m' by (intro exI [of _ m']) (simp add: mp1_rtc_tasklet_def hd)
qed

text \<open>
  Two blinks, at locations 5 and 7, on a screen at 0x1000. The first is on and its count is used up
  by this tick, the second has eight ticks left.
\<close>

definition blink_example_vars :: blink_vars where
  "blink_example_vars = \<lparr>vmem_base_addr = 0x100, mp1_list_head = 0x104, blink_array = 0x200,
     add_temp = 0x3000, find_temp = 0x3010\<rparr>"

definition blink_example_mem :: mem where
  "blink_example_mem = (\<lambda>_. 0)(0x101 := 0x10, 0x105 := 2,
     0x200 := 5, 0x202 := 65, 0x203 := 66, 0x204 := 1, 0x206 := 2, 0x208 := 1, 0x20A := 1, 0x20C := 0x10, 0x20D := 2,
     0x210 := 7, 0x212 := 67, 0x213 := 68, 0x214 := 3, 0x216 := 4, 0x218 := 9)"

lemma blink_example_chain: "chain blink_example_mem (load32 blink_example_mem 0x104) [0x200, 0x210]"
  by (simp add: load32_def) (simp add: blink_example_mem_def)

lemma blink_example_at:
  "blink_at blink_example_mem 0x200 = \<lparr>b_loc = 5, b_on = 65, b_off = 66, b_on_len = 1, b_off_len = 2, b_count = 1, b_status = 1\<rparr>"
  "blink_at blink_example_mem 0x210 = \<lparr>b_loc = 7, b_on = 67, b_off = 68, b_on_len = 3, b_off_len = 4, b_count = 9, b_status = 0\<rparr>"
  by (simp_all add: blink_at_def load16_def) (simp_all add: blink_example_mem_def)

lemma blink_example_screen: "load32 blink_example_mem 0x100 = 0x1000"
  by (simp add: load32_def) (simp add: blink_example_mem_def)

lemma blink_example_ok: "list_ok blink_example_vars blink_example_mem [0x200, 0x210]"
proof -
  have "load16 blink_example_mem 0x200 < 2000" "load16 blink_example_mem 0x210 < 2000"
    using blink_example_at by (simp_all flip: blink_at_simps(1))
  moreover have "run 0x200 16 \<inter> run 0x1000 4000 = {}" "run 0x200 16 \<inter> run 0x100 4 = {}" "run 0x200 16 \<inter> run 0x104 4 = {}"
    "run 0x210 16 \<inter> run 0x1000 4000 = {}" "run 0x210 16 \<inter> run 0x100 4 = {}" "run 0x210 16 \<inter> run 0x104 4 = {}"
    "run 0x200 16 \<inter> run 0x210 16 = {}" "run 0x1000 4000 \<inter> run 0x100 4 = {}" "run 0x1000 4000 \<inter> run 0x104 4 = {}"
    "run 0x100 4 \<inter> run 0x104 4 = {}"
    by (rule runs_apart; simp)+
  ultimately show ?thesis
    by (simp only: list_ok_def blink_example_vars_def blink_vars.simps blink_example_screen nodes_apart.simps
        Int_Un_distrib Un_empty list.set ball_simps simp_thms)
qed

lemma mp1_rtc_tasklet_ticks_witness:
  "\<exists>m'. mp1_rtc_tasklet blink_example_vars blink_example_mem = Some m'
     \<and> b_count (blink_at m' 0x200) = 2 \<and> b_status (blink_at m' 0x200) = 0 \<and> b_count (blink_at m' 0x210) = 8
     \<and> load m' 0x1000 4000 = (load blink_example_mem 0x1000 4000)[10 := 66]"
proof -
  have "chain blink_example_mem (load32 blink_example_mem (mp1_list_head blink_example_vars)) [0x200, 0x210]"
    using blink_example_chain by (simp add: blink_example_vars_def)
  from mp1_rtc_tasklet_ticks [OF this blink_example_ok] obtain m'
    where "mp1_rtc_tasklet blink_example_vars blink_example_mem = Some m'"
      "map (blink_at m') [0x200, 0x210] = map (\<lambda>a. fst (blink_tick (blink_at blink_example_mem a))) [0x200, 0x210]"
      "load m' 0x1000 4000 = fold put_cell (map (\<lambda>a. snd (blink_tick (blink_at blink_example_mem a))) [0x200, 0x210])
        (load blink_example_mem 0x1000 4000)"
    by (auto simp only: blink_example_screen blink_example_vars_def blink_vars.simps)
  then show ?thesis by (intro exI [of _ m']) (simp add: blink_example_at blink_tick_def Let_def)
qed

section \<open>Finding and removing\<close>

definition blink_with :: "mem \<Rightarrow> u16 \<Rightarrow> addr list \<Rightarrow> addr" where
  "blink_with m l as = (case filter (\<lambda>a. load16 m a = l) as of [] \<Rightarrow> 0 | a # _ \<Rightarrow> a)"

lemma blink_with_simps [simp]:
  "blink_with m l [] = 0"
  "blink_with m l (a # as) = (if load16 m a = l then a else blink_with m l as)"
  by (simp_all add: blink_with_def)

lemma find_loop_chain: "chain m p as \<Longrightarrow> find_loop l p m = Some (blink_with m l as)"
  by (induction as arbitrary: p; subst find_loop.simps) (simp_all add: blink_offsets)

lemma blink_with_in: "0 \<notin> set as \<Longrightarrow> blink_with m l as \<noteq> 0 \<longleftrightarrow> blink_with m l as \<in> set as"
  by (induction as) auto

lemma chain_nonzero: "chain m p as \<Longrightarrow> 0 \<notin> set as"
  by (induction as arbitrary: p) auto

text \<open>
  The cell that points to the element to remove: the list head or the \<open>next\<close> field of another
  element. Writing the successor there takes the element out.
\<close>

lemma remove_find_prev_chain:
  assumes "chain m (load32 m q) as" "a \<in> set as" "distinct as" "q \<notin> (\<lambda>b. b + 12) ` set as"
  obtains q' where "remove_find_prev a q m = Some q'" "q' \<in> insert q ((\<lambda>b. b + 12) ` (set as - {a}))"
    "\<And>m'. load32 m' q' = load32 m (a + 12)
       \<Longrightarrow> (\<And>c. c \<in> insert q ((\<lambda>b. b + 12) ` (set as - {a})) \<Longrightarrow> c \<noteq> q' \<Longrightarrow> load32 m' c = load32 m c)
       \<Longrightarrow> chain m' (load32 m' q) (remove1 a as)"
  using assms
proof (induction as arbitrary: q thesis)
  case Nil
  then show ?case by simp
next
  case (Cons b as)
  have hd: "load32 m q = b" "b \<noteq> 0" "chain m (load32 m (b + 12)) as" using Cons.prems(2) by auto
  show ?case
  proof (cases "a = b")
    case True
    show ?thesis
    proof (rule Cons.prems(1))
      show "remove_find_prev a q m = Some q" by (subst remove_find_prev.simps) (simp add: hd True)
      fix m' assume eq: "load32 m' q = load32 m (a + 12)"
        "\<And>c. c \<in> insert q ((\<lambda>b. b + 12) ` (set (b # as) - {a})) \<Longrightarrow> c \<noteq> q \<Longrightarrow> load32 m' c = load32 m c"
      have "load32 m' (c + 12) = load32 m (c + 12)" if "c \<in> set as" for c
        by (rule eq(2)) (use that Cons.prems(4,5) True in auto)
      then show "chain m' (load32 m' q) (remove1 a (b # as))"
        using hd(3) chain_cong [of as m' m] by (simp add: True eq(1))
    qed simp
  next
    case False
    then have as: "a \<in> set as" "distinct as" "b + 12 \<notin> (\<lambda>b. b + 12) ` set as" using Cons.prems(3,4) by auto
    obtain q' where q': "remove_find_prev a (b + 12) m = Some q'" "q' \<in> insert (b + 12) ((\<lambda>b. b + 12) ` (set as - {a}))"
      "\<And>m'. load32 m' q' = load32 m (a + 12)
         \<Longrightarrow> (\<And>c. c \<in> insert (b + 12) ((\<lambda>b. b + 12) ` (set as - {a})) \<Longrightarrow> c \<noteq> q' \<Longrightarrow> load32 m' c = load32 m c)
         \<Longrightarrow> chain m' (load32 m' (b + 12)) (remove1 a as)"
      by (rule Cons.IH [OF _ hd(3) as]) blast
    have sub: "insert (b + 12) ((\<lambda>b. b + 12) ` (set as - {a})) \<subseteq> (\<lambda>b. b + 12) ` (set (b # as) - {a})"
      using False by auto
    show ?thesis
    proof (rule Cons.prems(1))
      show "remove_find_prev a q m = Some q'"
        using q'(1) False by (subst remove_find_prev.simps) (simp add: hd(1) blink_offsets)
      show in_q: "q' \<in> insert q ((\<lambda>b. b + 12) ` (set (b # as) - {a}))" using q'(2) sub by blast
      fix m' assume eq: "load32 m' q' = load32 m (a + 12)"
        "\<And>c. c \<in> insert q ((\<lambda>b. b + 12) ` (set (b # as) - {a})) \<Longrightarrow> c \<noteq> q' \<Longrightarrow> load32 m' c = load32 m c"
      have "q \<noteq> q'" using q'(2) sub Cons.prems(5) by blast
      then have "load32 m' q = b" using eq(2) [of q] hd(1) by simp
      moreover have "chain m' (load32 m' (b + 12)) (remove1 a as)"
        by (rule q'(3) [OF eq(1)], rule eq(2)) (use sub in blast)+
      ultimately show "chain m' (load32 m' q) (remove1 a (b # as))" using False hd(2) by simp
    qed
  qed
qed

lemma fish_memset_at:
  "x \<in> run a n \<Longrightarrow> fish_memset a c n m x = c"
  "x \<notin> run a n \<Longrightarrow> fish_memset a c n m x = m x"
proof -
  have "fish_memset a c n m = (\<lambda>x. if x \<in> run a n then c else m x)" for n
    by (induction n) (auto simp: fish_memset_def for_range_Suc less_Suc_eq fun_eq_iff)
  then show "x \<in> run a n \<Longrightarrow> fish_memset a c n m x = c" "x \<notin> run a n \<Longrightarrow> fish_memset a c n m x = m x"
    by simp_all
qed

lemma dword_bytes_length: "length (dword_bytes v) = 4"
  by (simp add: dword_bytes_def)

lemma load32_store32 [simp]: "load32 (store32 m a v) a = v"
proof -
  have "store32 m a v (a + of_nat i) = dword_bytes v ! i" if "i < 4" for i
    using that by (simp add: store32_def store_at dword_bytes_def)
  from this [of 0] this [of 1] this [of 2] this [of 3] show ?thesis
    by (simp add: load32_def dword_bytes_def)
      (rule bit_word_eqI, auto simp: bit_or_iff bit_push_bit_iff bit_ucast_iff bit_drop_bit_eq dest: bit_imp_le_length, rule ccontr, simp)
qed

lemma store32_away: "x \<notin> run a 4 \<Longrightarrow> store32 m a v x = m x"
  unfolding store32_def by (rule store_outside_run) (simp add: dword_bytes_length)

lemma blink_at_same:
  assumes "\<And>x. x \<in> run a 12 \<Longrightarrow> m' x = m x"
  shows "blink_at m' a = blink_at m a"
proof -
  have same: "m' (a + of_nat k) = m (a + of_nat k)" if "k < 12" for k by (rule assms) (use that in simp)
  have 16: "load16 m' (a + of_nat k) = load16 m (a + of_nat k)" if "k < 11" for k
    using same [of k] same [of "Suc k"] that by (intro load16_cong) (simp_all add: ac_simps)
  show ?thesis
    using 16 [of 0] same [of 2] same [of 3] 16 [of 4] 16 [of 6] 16 [of 8] 16 [of 10] by (simp add: blink_at_def)
qed

lemma run_next: "run (a + 12) 4 \<subseteq> run a 16" "run a 12 \<subseteq> run a 16" "run a 12 \<inter> run (a + 12) 4 = {}"
proof -
  show "run (a + 12) 4 \<subseteq> run a 16" using run_subset [of 12 4 16 a] by simp
  show "run a 12 \<subseteq> run a 16" by auto
  have "i < 12 \<Longrightarrow> j < 4 \<Longrightarrow> of_nat i \<noteq> (of_nat (12 + j) :: addr)" for i j
    by (simp only: word_of_nat_eq_iff) (simp add: take_bit_eq_mod)
  then show "run a 12 \<inter> run (a + 12) 4 = {}" by (auto simp: add.assoc)
qed

lemma nodes_apart_pair: "nodes_apart W as \<Longrightarrow> a \<in> set as \<Longrightarrow> b \<in> set as \<Longrightarrow> a \<noteq> b \<Longrightarrow> run a 16 \<inter> run b 16 = {}"
  by (induction as) (auto simp: Int_commute simp del: image_iff)

lemma nodes_apart_distinct: "nodes_apart W as \<Longrightarrow> distinct as"
proof (induction as)
  case (Cons a as)
  have "a \<in> run a 16" using in_node [of 0 a] by simp
  with Cons show ?case by auto
qed simp

lemma nodes_apart_remove1: "nodes_apart W as \<Longrightarrow> nodes_apart W (remove1 a as)"
  by (induction as) (auto dest: subsetD [OF set_remove1_subset] simp del: image_iff)

lemma run_self: "0 < n \<Longrightarrow> p \<in> run p n"
  by (rule image_eqI [of _ _ 0]) auto

text \<open>The cells that point into the list: the head and the \<open>next\<close> fields of the elements that stay.\<close>

definition next_cells :: "addr \<Rightarrow> addr list \<Rightarrow> addr \<Rightarrow> addr set" where
  "next_cells h as a = insert h ((\<lambda>b. b + 12) ` (set as - {a}))"

lemma next_cells_cases:
  assumes "c \<in> next_cells h as a"
  obtains "c = h" | b where "c = b + 12" "b \<in> set as" "b \<noteq> a"
  using assms by (auto simp: next_cells_def)

lemma next_cell_apart:
  assumes "nodes_apart W as" "run h 4 \<subseteq> W" "a \<in> set as" "c \<in> next_cells h as a"
  shows "run c 4 \<inter> run a 16 = {}"
  using assms(4)
proof (cases rule: next_cells_cases)
  case 1
  then show ?thesis using nodes_apartD [OF assms(1,3)] assms(2) by blast
next
  case (2 b)
  show ?thesis using nodes_apart_pair [OF assms(1) 2(2) assms(3) 2(3)] run_next(1) [of b] unfolding 2(1) by blast
qed

lemma next_cells_apart:
  assumes "nodes_apart W as" "run h 4 \<subseteq> W" "c \<in> next_cells h as a" "d \<in> next_cells h as a" "c \<noteq> d"
  shows "run c 4 \<inter> run d 4 = {}"
proof -
  have hd: "run h 4 \<inter> run (b + 12) 4 = {}" if "b \<in> set as" for b
    using nodes_apartD [OF assms(1) that] assms(2) run_next(1) [of b] by blast
  have n: "run (b + 12) 4 \<inter> run (b' + 12) 4 = {}" if "b \<in> set as" "b' \<in> set as" "b \<noteq> b'" for b b'
    using nodes_apart_pair [OF assms(1) that] run_next(1) [of b] run_next(1) [of b'] by blast
  from assms(3) show ?thesis
  proof (cases rule: next_cells_cases)
    case 1
    from assms(4) show ?thesis by (cases rule: next_cells_cases) (use 1 assms(5) hd in simp_all)
  next
    case (2 b)
    from assms(4) show ?thesis
    proof (cases rule: next_cells_cases)
      case 1
      then show ?thesis using hd [OF 2(2)] 2(1) by (simp add: Int_commute)
    qed (use 2 assms(5) n in simp)
  qed
qed

lemma next_cell_node:
  assumes "nodes_apart W as" "run h 4 \<subseteq> W" "c \<in> next_cells h as a" "b \<in> set as"
  shows "run b 12 \<inter> run c 4 = {}"
  using assms(3)
proof (cases rule: next_cells_cases)
  case 1
  then show ?thesis using nodes_apartD [OF assms(1,4)] assms(2) run_next(2) [of b] by blast
next
  case (2 b')
  show ?thesis
  proof (cases "b = b'")
    case True
    then show ?thesis using run_next(3) [of b] 2(1) by simp
  next
    case False
    then show ?thesis
      using nodes_apart_pair [OF assms(1,4) 2(2) False] run_next(1) [of b'] run_next(2) [of b] unfolding 2(1) by blast
  qed
qed

lemma head_no_next:
  assumes "nodes_apart W as" "run h 4 \<subseteq> W"
  shows "h \<notin> (\<lambda>b. b + 12) ` set as"
proof
  assume "h \<in> (\<lambda>b. b + 12) ` set as"
  then obtain b where b: "b \<in> set as" "h = b + 12" by blast
  then have "h \<in> run b 16" using run_self [of 4 "b + 12"] run_next(1) by auto
  then show False using nodes_apartD [OF assms(1) b(1)] run_self [of 4 h] assms(2) by auto
qed

lemma mp1_ioctl_remove_found:
  assumes ch: "chain m (load32 m (mp1_list_head V)) as" and ok: "list_ok V m as"
    and a: "a = blink_with m (ucast arg) as" "a \<noteq> 0"
  obtains m' where "mp1_ioctl_remove V arg m = Some (0, m')" "chain m' (load32 m' (mp1_list_head V)) (remove1 a as)"
    "\<And>b. b \<in> set (remove1 a as) \<Longrightarrow> blink_at m' b = blink_at m b" "load m' a 16 = replicate 16 0"
    "\<And>x. x \<notin> run (mp1_list_head V) 4 \<Longrightarrow> (\<And>b. b \<in> set as \<Longrightarrow> x \<notin> run b 16) \<Longrightarrow> m' x = m x"
proof -
  let ?h = "mp1_list_head V"
  let ?W = "screen_area V m \<union> run (vmem_base_addr V) 4 \<union> run ?h 4"
  let ?C = "next_cells ?h as a"
  have ap: "nodes_apart ?W as" using ok by (simp only: list_ok_def)
  have hW: "run ?h 4 \<subseteq> ?W" by blast
  have aset: "a \<in> set as" using a blink_with_in [OF chain_nonzero [OF ch]] by blast
  have dist: "distinct as" by (rule nodes_apart_distinct [OF ap])
  obtain q where q: "remove_find_prev a ?h m = Some q" "q \<in> ?C"
    "\<And>m'. load32 m' q = load32 m (a + 12)
       \<Longrightarrow> (\<And>c. c \<in> ?C \<Longrightarrow> c \<noteq> q \<Longrightarrow> load32 m' c = load32 m c) \<Longrightarrow> chain m' (load32 m' ?h) (remove1 a as)"
    unfolding next_cells_def by (rule remove_find_prev_chain [OF ch aset dist head_no_next [OF ap hW]]) blast
  note apart = next_cell_apart [OF ap hW aset] next_cells_apart [OF ap hW _ q(2)]
  define m' where "m' = mp1_free a (store32 m q (load32 m (a + 12)))"
  have free: "m' x = store32 m q (load32 m (a + 12)) x" if "x \<notin> run a 16" for x
    using that by (simp add: m'_def mp1_free_def STRUCT_SIZE_def fish_memset_at)
  have out: "m' x = m x" if "x \<notin> run a 16" "x \<notin> run q 4" for x
    using free [OF that(1)] store32_away [OF that(2)] by simp
  have "load32 m' q = load32 (store32 m q (load32 m (a + 12))) q"
    by (rule load32_cong, rule free) (use apart(1) [OF q(2)] in blast)
  then have eq: "load32 m' q = load32 m (a + 12)" by simp
  have oth: "load32 m' c = load32 m c" if "c \<in> ?C" "c \<noteq> q" for c
    by (rule load32_cong, rule out) (use apart(1) [OF that(1)] apart(2) [OF that] in blast)+
  show thesis
  proof (rule that)
    show "mp1_ioctl_remove V arg m = Some (0, m')"
      using a(2) by (simp add: mp1_ioctl_remove_def mp1_find_helper_def find_loop_chain [OF ch] flip: a(1))
        (simp add: q(1) blink_offsets m'_def)
    show "chain m' (load32 m' ?h) (remove1 a as)" by (rule q(3) [OF eq oth])
    show "blink_at m' b = blink_at m b" if "b \<in> set (remove1 a as)" for b
    proof (rule blink_at_same, rule out)
      have b: "b \<in> set as" "b \<noteq> a" using that dist by auto
      fix x assume x: "x \<in> run b 12"
      show "x \<notin> run a 16" using x run_next(2) [of b] nodes_apart_pair [OF ap b(1) aset b(2)] by blast
      show "x \<notin> run q 4" using x next_cell_node [OF ap hW q(2) b(1)] by blast
    qed
    have "m' x = 0" if "x \<in> run a 16" for x
      using that by (simp add: m'_def mp1_free_def STRUCT_SIZE_def fish_memset_at del: image_iff)
    then show "load m' a 16 = replicate 16 0" by (intro nth_equalityI) simp_all
    show "m' x = m x" if x: "x \<notin> run ?h 4" "\<And>b. b \<in> set as \<Longrightarrow> x \<notin> run b 16" for x
    proof (rule out)
      show "x \<notin> run a 16" by (rule x(2) [OF aset])
      from q(2) show "x \<notin> run q 4"
      proof (cases rule: next_cells_cases)
        case (2 b)
        then show ?thesis using x(2) [OF 2(2)] run_next(1) [of b] by blast
      qed (use x(1) in simp)
    qed
  qed
qed

text \<open>C30: removing the blinking character at a location. When the list has none there the request fails
  and nothing changes. Otherwise the first element with that location leaves the list, the others
  keep their order and their contents, the structure is cleared for \<open>mp1_malloc\<close>, and the list is
  well formed again: the search for the pointer to the element always ends.
\<close>

theorem mp1_ioctl_remove_removes:
  assumes "chain m (load32 m (mp1_list_head V)) as" "list_ok V m as"
  shows "let a = blink_with m (ucast arg) as in
    if a = 0 then mp1_ioctl V arg 1 m = Some (-1, m)
    else \<exists>m'. mp1_ioctl V arg 1 m = Some (0, m') \<and> chain m' (load32 m' (mp1_list_head V)) (remove1 a as)
      \<and> list_ok V m' (remove1 a as) \<and> (\<forall>b \<in> set (remove1 a as). blink_at m' b = blink_at m b)
      \<and> load m' a 16 = replicate 16 0 \<and> load m' (screen_of V m) 4000 = load m (screen_of V m) 4000"
proof (cases "blink_with m (ucast arg) as = 0")
  case True
  then show ?thesis
    by (simp add: Let_def mp1_ioctl_def mp1_ioctl_remove_def mp1_find_helper_def find_loop_chain [OF assms(1)])
next
  case False
  let ?a = "blink_with m (ucast arg) as"
  let ?W = "screen_area V m \<union> run (vmem_base_addr V) 4 \<union> run (mp1_list_head V) 4"
  obtain m' where m': "mp1_ioctl_remove V arg m = Some (0, m')" "chain m' (load32 m' (mp1_list_head V)) (remove1 ?a as)"
      "\<And>b. b \<in> set (remove1 ?a as) \<Longrightarrow> blink_at m' b = blink_at m b" "load m' ?a 16 = replicate 16 0"
      "\<And>x. x \<notin> run (mp1_list_head V) 4 \<Longrightarrow> (\<And>b. b \<in> set as \<Longrightarrow> x \<notin> run b 16) \<Longrightarrow> m' x = m x"
    by (rule mp1_ioctl_remove_found [OF assms(1,2) refl False]) blast
  have ok: "nodes_apart ?W as" "screen_area V m \<inter> run (mp1_list_head V) 4 = {}"
      "run (vmem_base_addr V) 4 \<inter> run (mp1_list_head V) 4 = {}"
    using assms(2) unfolding list_ok_def by blast+
  have out: "m' x = m x" if x: "x \<in> screen_area V m \<union> run (vmem_base_addr V) 4" for x
  proof (rule m'(5))
    show "x \<notin> run (mp1_list_head V) 4" using x ok(2,3) by blast
    show "x \<notin> run b 16" if "b \<in> set as" for b using x nodes_apartD [OF ok(1) that] by blast
  qed
  have sc: "screen_of V m' = screen_of V m" by (rule load32_cong, rule out) blast
  have "load16 m' b = load16 m b" if "b \<in> set (remove1 ?a as)" for b
    using m'(3) [OF that] by (simp flip: blink_at_simps(1))
  then have "list_ok V m' (remove1 ?a as)"
    using assms(2) nodes_apart_remove1 unfolding list_ok_def sc by (metis notin_set_remove1)
  moreover have "load m' (screen_of V m) 4000 = load m (screen_of V m) 4000" by (rule load_cong, rule out) blast
  ultimately show ?thesis using m'(1-4) False by (simp add: Let_def mp1_ioctl_def)
qed

lemma mp1_ioctl_remove_removes_witness:
  "\<exists>m'. mp1_ioctl blink_example_vars 7 1 blink_example_mem = Some (0, m')
     \<and> chain m' (load32 m' 0x104) [0x200] \<and> load m' 0x210 16 = replicate 16 0"
proof -
  have "chain blink_example_mem (load32 blink_example_mem (mp1_list_head blink_example_vars)) [0x200, 0x210]"
    using blink_example_chain by (simp add: blink_example_vars_def)
  note removed = mp1_ioctl_remove_removes [OF this blink_example_ok, of 7]
  have "load16 blink_example_mem 0x200 = 5" "load16 blink_example_mem 0x210 = 7"
    using blink_example_at by (simp_all flip: blink_at_simps(1))
  then have w: "blink_with blink_example_mem (ucast (7 :: u32)) [0x200, 0x210] = 0x210" by simp
  have v: "mp1_list_head blink_example_vars = 0x104" by (simp add: blink_example_vars_def)
  from removed show ?thesis unfolding w Let_def v by auto
qed

end
