(* ===== verification/Fish.thy ===== *)
theory Fish
  imports Blink User_Programs
begin

text \<open>
  The fish demo (\<open>fish/fish.c\<close>): two frames are read from files, character by character, into
  blinking characters, which the program then animates on the mapped video page at the
  real-time clock's ticks.
\<close>

record fish_vars = blink_vars +
  file0 :: addr
  file1 :: addr
  c0_at :: addr
  c1_at :: addr
  frame_struct :: addr \<comment> \<open>\<open>blink_struct\<close> of \<open>add_frames\<close>\<close>
  main_struct :: addr \<comment> \<open>\<open>blink_struct\<close> of \<open>main\<close>\<close>
  ret_val_at :: addr
  garbage_at :: addr

definition WAIT :: nat where "WAIT = 100"

definition on_mem :: "(mem \<Rightarrow> mem) \<Rightarrow> 'a machine_scheme \<Rightarrow> 'a machine_scheme" where
  "on_mem f s = s\<lparr>mem := f (mem s)\<rparr>"

text \<open>The routines of \<open>blink.S\<close>, which only touch the memory, as calls of the program.\<close>

definition ioctl :: "blink_vars \<Rightarrow> u32 \<Rightarrow> nat \<Rightarrow> 'a prog" where
  "ioctl V arg cmd s = do { (r, m) \<leftarrow> mp1_ioctl V arg cmd (mem s); Some (r, s\<lparr>mem := m\<rparr>) }"

definition set_chars :: "addr \<Rightarrow> byte \<Rightarrow> byte \<Rightarrow> mem \<Rightarrow> mem" where
  "set_chars a on off m = m(a + ON_CHAR := on, a + OFF_CHAR := off)"

definition mp1_set_video_mode ::
  "'a machine_scheme user_env \<Rightarrow> blink_vars \<Rightarrow> 'a machine_scheme \<Rightarrow> (addr \<times> 'a machine_scheme) option" where
  "mp1_set_video_mode E V s = do {
     (r, s) \<leftarrow> ece391_vidmap E (vmem_base_addr V) s;
     Some (if r = -1 then 0 else load32 (mem s) (vmem_base_addr V), s)
   }"

section \<open>Reading the frames\<close>

text \<open>The next character of one file, unless its line has ended; the flag is the end of the file.\<close>

definition next_char ::
  "'a machine_scheme user_env \<Rightarrow> int \<Rightarrow> addr \<Rightarrow> bool \<Rightarrow> 'a machine_scheme \<Rightarrow> (bool \<times> 'a machine_scheme) option" where
  "next_char E fd c eof s =
     (if mem s c \<noteq> 0x0A then do {
        (num_bytes, s) \<leftarrow> ece391_read E fd c 1 s;
        if num_bytes = 0 then Some (True, poke c 0x0A s) else Some (eof, s)
      }
      else Some (eof, s))"

definition shows_char :: "byte \<Rightarrow> bool" where
  "shows_char c \<longleftrightarrow> c \<noteq> 0x20 \<and> c \<noteq> 0x0A"

definition line_char :: "byte \<Rightarrow> byte" where
  "line_char c = (if c = 0x0A then 0x20 else c)"

text \<open>The inner loop: one line of both files.\<close>

partial_function (option) frame_line ::
  "'a machine_scheme user_env \<Rightarrow> fish_vars \<Rightarrow> int \<Rightarrow> int \<Rightarrow> int \<Rightarrow> int \<Rightarrow> bool \<Rightarrow> bool
    \<Rightarrow> 'a machine_scheme \<Rightarrow> (bool \<times> bool \<times> 'a machine_scheme) option" where
  "frame_line E V fd0 fd1 row col eof0 eof1 s = do {
     (eof0, s) \<leftarrow> next_char E fd0 (c0_at V) eof0 s;
     (eof1, s) \<leftarrow> next_char E fd1 (c1_at V) eof1 s;
     let c0 = mem s (c0_at V); c1 = mem s (c1_at V)
     in if c0 = 0x0A \<and> c1 = 0x0A then Some (eof0, eof1, s)
        else do {
          (r, s) \<leftarrow> (if shows_char c0 \<or> shows_char c1
             then ioctl (blink_vars.truncate V) (frame_struct V) 0
                    (on_mem (\<lambda>m. store16 (set_chars (frame_struct V) (line_char c0) (line_char c1) m)
                       (frame_struct V + LOCATION) (word_of_int (row * 80 + col + 40))) s)
             else Some (0, s));
          frame_line E V fd0 fd1 row (col + 1) eof0 eof1 s
        }
   }"

text \<open>What follows a line in one file: at its end it is closed, and stays at an ended line.\<close>

definition end_line ::
  "'a machine_scheme user_env \<Rightarrow> int \<Rightarrow> addr \<Rightarrow> bool \<Rightarrow> 'a machine_scheme \<Rightarrow> 'a machine_scheme option" where
  "end_line E fd c eof s =
     (if eof then do { (r, s) \<leftarrow> ece391_close E fd (poke c 0x0A s); Some s }
      else Some (poke c 0x30 s))"

partial_function (option) frame_rows ::
  "'a machine_scheme user_env \<Rightarrow> fish_vars \<Rightarrow> int \<Rightarrow> int \<Rightarrow> int \<Rightarrow> bool \<Rightarrow> bool
    \<Rightarrow> 'a machine_scheme \<Rightarrow> 'a machine_scheme option" where
  "frame_rows E V fd0 fd1 row eof0 eof1 s =
     (if \<not> eof0 \<or> \<not> eof1 then do {
        (eof0, eof1, s) \<leftarrow> frame_line E V fd0 fd1 row 0 eof0 eof1 s;
        s \<leftarrow> end_line E fd0 (c0_at V) eof0 s;
        s \<leftarrow> end_line E fd1 (c1_at V) eof1 s;
        frame_rows E V fd0 fd1 (row + 1) eof0 eof1 s
      }
      else Some s)"

text \<open>\<open>ece391_halt(-1)\<close> does not return; a state after it is one in which it did.\<close>

definition add_frames :: "'a machine_scheme user_env \<Rightarrow> fish_vars \<Rightarrow> addr \<Rightarrow> addr \<Rightarrow> 'a machine_scheme \<Rightarrow> 'a machine_scheme option" where
  "add_frames E V f0 f1 s =
     (let s = poke (c1_at V) 0x30 (poke (c0_at V) 0x30 s);
          s = on_mem (\<lambda>m. store16 m (frame_struct V + ON_LENGTH) 15) s;
          s = on_mem (\<lambda>m. store16 m (frame_struct V + OFF_LENGTH) 15) s
      in do {
        (fd0, s) \<leftarrow> ece391_open E f0 s;
        (r, s) \<leftarrow> (if fd0 < 0 then ece391_halt E 0xFF s else Some (0, s));
        (fd1, s) \<leftarrow> ece391_open E f1 s;
        (r, s) \<leftarrow> (if fd1 < 0 then ece391_halt E 0xFF s else Some (0, s));
        frame_rows E V fd0 fd1 0 False False s
      })"

section \<open>The program\<close>

definition fish_tick ::
  "'a machine_scheme user_env \<Rightarrow> fish_vars \<Rightarrow> int \<Rightarrow> nat \<Rightarrow> 'a machine_scheme \<Rightarrow> 'a machine_scheme option" where
  "fish_tick E V rtc_fd i s = do {
     (r, s) \<leftarrow> ece391_read E rtc_fd (garbage_at V) 4 s;
     m \<leftarrow> mp1_rtc_tasklet (blink_vars.truncate V) (mem s);
     Some (s\<lparr>mem := m\<rparr>)
   }"

definition fish_main :: "'a machine_scheme user_env \<Rightarrow> fish_vars \<Rightarrow> 'a prog" where
  "fish_main E V s =
     (let B = blink_vars.truncate V; bs = main_struct V; here = 6 * 80 + 60;
          s = on_mem (fish_memset (blink_array V) 0 (STRUCT_SIZE * 80 * 25)) s
      in do {
        (screen, s) \<leftarrow> mp1_set_video_mode E B s;
        if screen = 0 then Some (-1, s)
        else do {
          (rtc_fd, s) \<leftarrow> ece391_open E (ro_data E ''rtc'') s;
          s \<leftarrow> add_frames E V (file0 V) (file1 V) s;
          (r, s) \<leftarrow> ece391_write E rtc_fd (ret_val_at V) 4 (on_mem (\<lambda>m. store32 m (ret_val_at V) 32) s);
          s \<leftarrow> for_do 0 WAIT (fish_tick E V rtc_fd) (on_mem (\<lambda>m. store32 m (ret_val_at V) (word_of_int r)) s);
          (r, s) \<leftarrow> ioctl B bs 0 (on_mem (\<lambda>m. store16 (store16 (store16 (set_chars bs 0x49 0x4D m)
                     (bs + ON_LENGTH) 7) (bs + OFF_LENGTH) 6) (bs + LOCATION) here) s);
          s \<leftarrow> for_do 0 WAIT (fish_tick E V rtc_fd) s;
          (r, s) \<leftarrow> ioctl B (push_bit 16 40 OR ucast here) 3 s;
          s \<leftarrow> for_do 0 WAIT (fish_tick E V rtc_fd) s;
          (r, s) \<leftarrow> ioctl B (ucast here) 1 s;
          s \<leftarrow> for_do 0 WAIT (fish_tick E V rtc_fd) s;
          (r, s) \<leftarrow> ece391_close E rtc_fd s;
          Some (0, s)
        }
      })"

end
