(* ===== verification/Emulate.thy ===== *)
theory Emulate
  imports User_Support
begin

text \<open>
  The emulation of the system calls on a Linux host (\<open>ece391emulate.c\<close>), over which the user
  programs can be tried without the kernel. The C library and the Linux system calls it uses are not
  part of the repository: they are the fields of \<open>libc\<close>, over an abstract state of the host.
  Its own logic is modelled: the splitting of a command into the argument vector of \<open>execv\<close>, the
  joining of an argument vector for \<open>getargs\<close>, and a directory read as the kernel reads one.
  The names have the prefix \<open>host\<close>, since the kernel's wrappers have the same ones.
\<close>

section \<open>The host\<close>

text \<open>How a child ended, as \<open>wait\<close> reports it.\<close>

datatype status = Exited byte | Signalled nat

text \<open>
  \<^item> \<open>linux\<close>: \<open>INT 0x80\<close> with \<open>EAX\<close>, \<open>EBX\<close>, \<open>ECX\<close>, \<open>EDX\<close>, on the memory of the process;
  \<^item> \<open>lib_readdir\<close>: the address of the next entry's \<open>d_name\<close>, 0 at the end;
  \<^item> \<open>lib_mmap\<close>: the mapping of the first megabyte of a descriptor, \<open>None\<close> for \<open>MAP_FAILED\<close>;
  \<^item> \<open>lib_fork\<close>: whether a child was made;
  \<^item> \<open>lib_execv\<close>: how the program runs in the child, \<open>None\<close> where \<open>execv\<close> returns.
\<close>

record 'h libc =
  linux :: "u32 \<Rightarrow> u32 \<Rightarrow> u32 \<Rightarrow> u32 \<Rightarrow> mem \<Rightarrow> 'h \<Rightarrow> u32 \<times> mem \<times> 'h"
  lib_opendir :: "string \<Rightarrow> 'h \<Rightarrow> addr \<times> 'h"
  lib_readdir :: "addr \<Rightarrow> mem \<Rightarrow> 'h \<Rightarrow> addr \<times> mem \<times> 'h"
  lib_closedir :: "addr \<Rightarrow> 'h \<Rightarrow> 'h"
  lib_open :: "string \<Rightarrow> int \<Rightarrow> 'h \<Rightarrow> int \<times> 'h"
  lib_close :: "int \<Rightarrow> 'h \<Rightarrow> 'h"
  lib_mmap :: "int \<Rightarrow> mem \<Rightarrow> 'h \<Rightarrow> addr option \<times> mem \<times> 'h"
  lib_perror :: "string \<Rightarrow> 'h \<Rightarrow> 'h"
  lib_fork :: "'h \<Rightarrow> bool \<times> 'h"
  lib_execv :: "mem \<Rightarrow> addr \<Rightarrow> addr list \<Rightarrow> 'h \<Rightarrow> (status \<times> 'h) option"

definition O_RDONLY :: int where "O_RDONLY = 0"
definition O_RDWR :: int where "O_RDWR = 2"

text \<open>The static variables of the file, with the memory and the host.\<close>

record 'h emu =
  emem :: mem
  start_esp :: u32
  dir_fd :: int
  dir :: addr \<comment> \<open>0 is \<open>NULL\<close>\<close>
  mem_fd :: int
  host :: 'h

text \<open>The wrapper of a Linux call: an error number in \<open>EAX\<close> becomes \<open>-1\<close>.\<close>

definition linux_call :: "'h libc \<Rightarrow> u32 \<Rightarrow> u32 \<Rightarrow> u32 \<Rightarrow> u32 \<Rightarrow> 'h emu \<Rightarrow> int \<times> 'h emu" where
  "linux_call L number b c d s =
     (let (r, m, h) = linux L number b c d (emem s) (host s)
      in (if r \<le> 0xFFFFC000 then sint r else -1, s\<lparr>emem := m, host := h\<rparr>))"

definition host_halt :: "'h libc \<Rightarrow> byte \<Rightarrow> 'h emu \<Rightarrow> int \<times> 'h emu" where
  "host_halt L status s = linux_call L 1 (ucast status) 0 0 s"

text \<open>\<open>_start\<close>: \<open>main\<close> runs with the stack the host gave the program, and its value ends it.\<close>

definition host_start :: "'h libc \<Rightarrow> u32 \<Rightarrow> ('h emu \<Rightarrow> (int \<times> 'h emu) option) \<Rightarrow> 'h emu \<Rightarrow> (int \<times> 'h emu) option" where
  "host_start L sp main s = do {
     (r, s) \<leftarrow> main (s\<lparr>start_esp := sp\<rparr>);
     Some (host_halt L (word_of_int r) s)
   }"

section \<open>execute\<close>

abbreviation word_end :: "byte \<Rightarrow> bool" where
  "word_end b \<equiv> b = 0x20 \<or> b = 0x0A"

partial_function (option) scan_word :: "mem \<Rightarrow> addr \<Rightarrow> addr option" where
  "scan_word m scan = (if m scan \<noteq> 0 \<and> m scan \<noteq> 0x20 \<and> m scan \<noteq> 0x0A then scan_word m (scan + 1) else Some scan)"

partial_function (option) skip_spaces :: "mem \<Rightarrow> addr \<Rightarrow> addr option" where
  "skip_spaces m scan = (if m scan = 0x20 then skip_spaces m (scan + 1) else Some scan)"

text \<open>The loop over the arguments; \<open>args\<close> are the pointers stored so far.\<close>

partial_function (option) parse_arguments :: "mem \<Rightarrow> addr \<Rightarrow> addr list \<Rightarrow> (mem \<times> addr list) option" where
  "parse_arguments m scan args = do {
     scan \<leftarrow> skip_spaces m scan;
     if m scan = 0 \<or> m scan = 0x0A then Some (m(scan := 0), args)
     else do {
       end \<leftarrow> scan_word m scan;
       if m end \<noteq> 0 then parse_arguments (m(end := 0)) (end + 1) (args @ [scan])
       else parse_arguments m end (args @ [scan])
     }
   }"

text \<open>The child runs the program, or kills itself with signal 9 where \<open>execv\<close> returns.\<close>

definition child :: "'h libc \<Rightarrow> mem \<Rightarrow> addr \<Rightarrow> addr list \<Rightarrow> 'h \<Rightarrow> status \<times> 'h" where
  "child L m path args h = (case lib_execv L m path args h of Some r \<Rightarrow> r | None \<Rightarrow> (Signalled 9, h))"

fun exit_value :: "status \<Rightarrow> int" where
  "exit_value (Exited n) = uint n"
| "exit_value (Signalled n) = (if n = 9 then -1 else 256)"

definition split_command :: "mem \<Rightarrow> addr \<Rightarrow> addr \<Rightarrow> (mem \<times> addr list) option" where
  "split_command m buf command = do {
     m \<leftarrow> ece391_strcpy (m(buf := 0x2E, buf + 1 := 0x2F)) (buf + 2) command;
     scan \<leftarrow> scan_word m (buf + 2);
     if m scan \<noteq> 0 then parse_arguments (m(scan := 0)) (scan + 1) [buf] else Some (m, [buf])
   }"

text \<open>Where \<open>fork\<close> fails nothing stores the \<open>status\<close> that is then looked at, which is \<open>None\<close>.\<close>

definition host_execute :: "'h libc \<Rightarrow> addr \<Rightarrow> addr \<Rightarrow> 'h emu \<Rightarrow> (int \<times> 'h emu) option" where
  "host_execute L buf command s = do {
     len \<leftarrow> ece391_strlen (emem s) command;
     if 1023 < len then Some (-1, s)
     else do {
       (m, args) \<leftarrow> split_command (emem s) buf command;
       let (forked, h) = lib_fork L (host s)
       in if \<not> forked then None
          else let (status, h) = child L m buf args h in Some (exit_value status, s\<lparr>emem := m, host := h\<rparr>)
     }
   }"

section \<open>getargs\<close>

definition getargs_end :: "mem \<Rightarrow> addr \<Rightarrow> int \<Rightarrow> int \<times> mem" where
  "getargs_end m buf nbytes = (if nbytes < 1 then (-1, m) else (0, m(buf := 0)))"

partial_function (option) getargs_loop :: "addr \<Rightarrow> int \<Rightarrow> mem \<Rightarrow> int \<Rightarrow> addr \<Rightarrow> int \<Rightarrow> (int \<times> mem) option" where
  "getargs_loop argv argc m idx buf nbytes =
     (if idx < argc then do {
        n \<leftarrow> ece391_strlen m (load32 m (argv + 4 * word_of_int idx));
        let len = sint n
        in if len > nbytes then Some (-1, m)
           else do {
             m \<leftarrow> ece391_strcpy m buf (load32 m (argv + 4 * word_of_int idx));
             let buf = buf + word_of_int len; nbytes = nbytes - len
             in if idx + 1 \<ge> argc then Some (getargs_end m buf nbytes)
                else if nbytes < 1 then Some (-1, m)
                else getargs_loop argv argc (m(buf := 0x20)) (idx + 1) (buf + 1) (nbytes - 1)
           }
      }
      else Some (getargs_end m buf nbytes))"

definition host_getargs :: "addr \<Rightarrow> int \<Rightarrow> 'h emu \<Rightarrow> (int \<times> 'h emu) option" where
  "host_getargs buf nbytes s = do {
     (r, m) \<leftarrow> getargs_loop (start_esp s + 4) (sint (load32 (emem s) (start_esp s))) (emem s) 1 buf nbytes;
     Some (r, s\<lparr>emem := m\<rparr>)
   }"

section \<open>Files and the directory\<close>

text \<open>\<open>dot\<close> is the address of the literal ".".\<close>

definition host_open :: "'h libc \<Rightarrow> addr \<Rightarrow> addr \<Rightarrow> 'h emu \<Rightarrow> (int \<times> 'h emu) option" where
  "host_open L dot filename s = do {
     c \<leftarrow> ece391_strcmp (emem s) filename dot;
     if c = 0 then
       let (d, h) = lib_opendir L ''.'' (host s);
           (fd, h) = lib_open L ''/dev/null'' O_RDONLY h
       in Some (fd, s\<lparr>dir := d, dir_fd := fd, host := h\<rparr>)
     else
       let (rval, m, h) = linux L 5 filename (word_of_int O_RDONLY) 0 (emem s) (host s)
       in Some (if rval > 0xFFFFC000 then -1 else sint rval, s\<lparr>emem := m, host := h\<rparr>)
   }"

function name_pad :: "mem \<Rightarrow> addr \<Rightarrow> int \<Rightarrow> int \<Rightarrow> int \<times> mem" where
  "name_pad m to copied nbytes =
     (if nbytes > copied \<and> 32 > copied then name_pad (m(to := 0)) (to + 1) (copied + 1) nbytes else (copied, m))"
  by pat_completeness auto
termination
  by (relation "measure (\<lambda>(m, to, copied, nbytes). nat (32 - copied))") auto

declare name_pad.simps [simp del]

partial_function (option) name_copy :: "mem \<Rightarrow> addr \<Rightarrow> addr \<Rightarrow> int \<Rightarrow> int \<Rightarrow> (int \<times> mem) option" where
  "name_copy m to from copied nbytes =
     (if m from \<noteq> 0 then
        let m = m(to := m from); copied = copied + 1
        in if copied = nbytes then Some (nbytes, m)
           else if copied = 32 then Some (32, m)
           else name_copy m (to + 1) (from + 1) copied nbytes
      else Some (name_pad m to copied nbytes))"

definition host_read :: "'h libc \<Rightarrow> int \<Rightarrow> addr \<Rightarrow> int \<Rightarrow> 'h emu \<Rightarrow> (int \<times> 'h emu) option" where
  "host_read L fd buf nbytes s =
     (if dir s = 0 \<or> dir_fd s \<noteq> fd then Some (linux_call L 3 (word_of_int fd) buf (word_of_int nbytes) s)
      else
        let (d_name, m, h) = lib_readdir L (dir s) (emem s) (host s); s = s\<lparr>emem := m, host := h\<rparr>
        in if d_name = 0 then Some (0, s)
           else do {
             (r, m) \<leftarrow> name_copy m buf d_name 0 nbytes;
             Some (r, s\<lparr>emem := m\<rparr>)
           })"

definition host_write :: "'h libc \<Rightarrow> int \<Rightarrow> addr \<Rightarrow> int \<Rightarrow> 'h emu \<Rightarrow> int \<times> 'h emu" where
  "host_write L fd buf nbytes s =
     (if dir s = 0 \<or> dir_fd s \<noteq> fd then linux_call L 4 (word_of_int fd) buf (word_of_int nbytes) s else (-1, s))"

definition host_close :: "'h libc \<Rightarrow> int \<Rightarrow> 'h emu \<Rightarrow> int \<times> 'h emu" where
  "host_close L fd s =
     (if dir s = 0 \<or> dir_fd s \<noteq> fd then linux_call L 6 (word_of_int fd) 0 0 s
      else
        let s = s\<lparr>host := lib_closedir L (dir s) (host s), dir := 0\<rparr>
        in (0, s\<lparr>host := lib_close L (dir_fd s) (host s), dir_fd := -1\<rparr>))"

definition host_vidmap :: "'h libc \<Rightarrow> addr \<Rightarrow> 'h emu \<Rightarrow> int \<times> 'h emu" where
  "host_vidmap L screen_start s =
     (let s = (if mem_fd s = -1 then let (fd, h) = lib_open L ''/dev/mem'' O_RDWR (host s) in s\<lparr>mem_fd := fd, host := h\<rparr>
               else s)
      in case lib_mmap L (mem_fd s) (emem s) (host s) of
           (None, m, h) \<Rightarrow> (-1, s\<lparr>emem := m, host := lib_perror L ''mmap low memory'' h\<rparr>)
         | (Some base, m, h) \<Rightarrow> (0, s\<lparr>emem := store m screen_start (dword_bytes (base + 0xB8000)), host := h\<rparr>))"

section \<open>The words of a command\<close>

text \<open>
  A word ends at a space or a newline. Between two words the spaces are skipped, and a newline there
  ends the command; one directly after a word ends only the word.
\<close>

abbreviation plain :: "byte \<Rightarrow> bool" where
  "plain b \<equiv> b \<noteq> 0x20 \<and> b \<noteq> 0x0A"

function command_args :: "byte list \<Rightarrow> byte list list" where
  "command_args xs =
     (let ys = dropWhile (\<lambda>b. b = 0x20) xs
      in if ys = [] \<or> hd ys = 0x0A then []
         else takeWhile plain ys # command_args (drop 1 (dropWhile plain ys)))"
  by pat_completeness auto
termination
proof (relation "measure length")
  fix xs ys :: "byte list" assume ys: "ys = dropWhile (\<lambda>b. b = 0x20) xs" "\<not> (ys = [] \<or> hd ys = 0x0A)"
  have "length (dropWhile plain ys) \<le> length ys" "length ys \<le> length xs" by (simp_all add: length_dropWhile_le ys(1))
  moreover have "0 < length ys" using ys(2) by (cases ys) simp_all
  ultimately have "length (drop 1 (dropWhile plain ys)) < length xs" by (simp only: length_drop)
  then show "(drop 1 (dropWhile plain ys), xs) \<in> measure length" by simp
qed simp

declare command_args.simps [simp del]

definition command_argv :: "byte list \<Rightarrow> byte list list" where
  "command_argv cs = ([0x2E, 0x2F] @ takeWhile plain cs) # command_args (drop 1 (dropWhile plain cs))"

lemma scan_word_cstr: "cstr m p xs \<Longrightarrow> scan_word m p = Some (p + of_nat (length (takeWhile plain xs)))"
  by (induction xs arbitrary: p) (auto simp: cstr_Cons cstr_Nil scan_word.simps simp flip: add.assoc)

lemma skip_spaces_cstr: "cstr m p xs \<Longrightarrow> skip_spaces m p = Some (p + of_nat (length (takeWhile (\<lambda>b. b = 0x20) xs)))"
  by (induction xs arbitrary: p) (auto simp: cstr_Cons cstr_Nil skip_spaces.simps simp flip: add.assoc)

lemma cstr_cut:
  assumes "cstr m p (w @ rest)"
  shows "cstr (m(p + of_nat (length w) := 0)) p w" "rest = b # zs \<Longrightarrow> cstr (m(p + of_nat (length w) := 0)) (p + of_nat (Suc (length w))) zs"
proof -
  let ?m = "m(p + of_nat (length w) := 0)"
  have len: "length w + length rest < 4294967296" "0 \<notin> set w" and ld: "load m p (length w) = w"
    using assms load_add [of m p "length w" "length rest"] by (auto simp: cstr_def)
  have "load ?m p (length w) = w"
  proof (rule nth_equalityI)
    fix i assume "i < length (load ?m p (length w))"
    then have "i < length w" "load m p (length w) ! i = w ! i" by (simp_all only: length_load ld)
    then show "load ?m p (length w) ! i = w ! i" using len by simp
  qed simp
  then show "cstr ?m p w" using len by (simp add: cstr_def)
  assume r: "rest = b # zs"
  have tail: "cstr m (p + of_nat (length (w @ [b]))) zs" by (rule cstr_append) (use assms r in simp)
  have same: "?m x = m x" if run: "x \<in> run (p + of_nat (Suc (length w))) (Suc (length zs))" for x
  proof -
    obtain k where x: "x = p + of_nat (Suc (length w)) + of_nat k" and k: "k \<in> {..<Suc (length zs)}"
      by (rule imageE [OF run])
    have kx: "x = p + of_nat (length w + Suc k)" unfolding x by (simp add: ac_simps)
    have "length w + Suc k < 4294967296" "length w < 4294967296" using k len(1) r by simp_all
    then have "(of_nat (length w + Suc k) :: u32) \<noteq> of_nat (length w)" by (subst of_nat_u32_inj) simp_all
    then show ?thesis unfolding kx by (simp del: of_nat_add of_nat_Suc)
  qed
  have "cstr ?m (p + of_nat (Suc (length w))) zs = cstr m (p + of_nat (Suc (length w))) zs"
    by (rule cstr_cong, erule same)
  then show "cstr ?m (p + of_nat (Suc (length w))) zs" using tail by simp
qed

lemma run_shift: "run (p + of_nat i) n \<subseteq> run p (i + n)"
  using run_subset [of i n "i + n" p] by simp

lemma run_later:
  assumes "x \<in> run (p + of_nat i) k" and "i + k \<le> 4294967296"
  shows "x \<notin> run p i"
proof
  assume "x \<in> run p i"
  then obtain j l where "j < i" "l < k" "p + of_nat j = p + of_nat (i + l)" using assms(1) by (auto simp: add.assoc)
  then show False using of_nat_u32_inj [of j "i + l"] assms(2) by simp
qed

text \<open>One turn of the loop.\<close>

lemma parse_stop:
  "skip_spaces m scan = Some p \<Longrightarrow> m p = 0 \<or> m p = 0x0A \<Longrightarrow> parse_arguments m scan args = Some (m(p := 0), args)"
  by (subst parse_arguments.simps) auto

lemma parse_more:
  "skip_spaces m scan = Some p \<Longrightarrow> m p \<noteq> 0 \<Longrightarrow> m p \<noteq> 0x0A \<Longrightarrow> scan_word m p = Some e \<Longrightarrow> m e \<noteq> 0
    \<Longrightarrow> parse_arguments m scan args = parse_arguments (m(e := 0)) (e + 1) (args @ [p])"
  by (subst parse_arguments.simps) simp

lemma parse_last:
  assumes "skip_spaces m scan = Some p" "m p \<noteq> 0" "m p \<noteq> 0x0A" "scan_word m p = Some e" "m e = 0"
  shows "parse_arguments m scan args = Some (m, args @ [p])"
proof -
  have "skip_spaces m e = Some e" using assms(5) by (subst skip_spaces.simps) simp
  then have "parse_arguments m e (args @ [p]) = Some (m, args @ [p])"
    using parse_stop [of m e e "args @ [p]"] assms(5) by (simp add: fun_upd_idem)
  then show ?thesis using assms by (subst parse_arguments.simps) simp
qed

lemma parse_arguments_eq:
  "cstr m scan xs \<Longrightarrow> \<exists>m' ps. parse_arguments m scan args = Some (m', args @ ps)
    \<and> list_all2 (cstr m') ps (command_args xs) \<and> (\<forall>x. x \<notin> run scan (Suc (length xs)) \<longrightarrow> m' x = m x)"
proof (induction xs arbitrary: m scan args rule: command_args.induct)
  case (1 xs)
  define sp ys where "sp = takeWhile (\<lambda>b. b = 0x20) xs" and "ys = dropWhile (\<lambda>b. b = 0x20) xs"
  define p where "p = scan + of_nat (length sp)"
  have split: "xs = sp @ ys" by (simp add: sp_def ys_def)
  have c: "cstr m p ys" unfolding p_def by (rule cstr_append) (use 1(2) split in simp)
  have sk: "skip_spaces m scan = Some p" using skip_spaces_cstr [OF 1(2)] by (simp add: p_def sp_def)
  have sub: "run (scan + of_nat i) k \<subseteq> run scan (Suc (length xs))" if "i + k \<le> Suc (length xs)" for i k
    by (rule run_subset [OF that])
  show ?case
  proof (cases "ys = [] \<or> hd ys = 0x0A")
    case True
    then have "m p = 0 \<or> m p = 0x0A" using c by (cases ys) (auto simp: cstr_Nil cstr_Cons)
    then have "parse_arguments m scan args = Some (m(p := 0), args @ [])" using parse_stop [OF sk] by simp
    moreover have "p \<in> run scan (Suc (length xs))" using split by (auto simp: p_def)
    then have "\<forall>x. x \<notin> run scan (Suc (length xs)) \<longrightarrow> (m(p := 0)) x = m x" by auto
    moreover have "command_args xs = []" using True by (subst command_args.simps) (simp add: ys_def [symmetric] Let_def)
    ultimately show ?thesis by fastforce
  next
    case False
    define w rest where "w = takeWhile plain ys" and "rest = dropWhile plain ys"
    define e where "e = p + of_nat (length w)"
    have ys: "ys = w @ rest" by (simp add: w_def rest_def)
    have args: "command_args xs = w # command_args (drop 1 rest)"
      using False by (subst command_args.simps) (simp add: ys_def [symmetric] Let_def w_def rest_def)
    have "hd ys \<noteq> 0x20" using False hd_dropWhile [of "\<lambda>b. b = 0x20" xs] by (auto simp: ys_def)
    then have p: "m p \<noteq> 0" "m p \<noteq> 0x0A" using c False by (cases ys; auto simp: cstr_Cons)+
    have sw: "scan_word m p = Some e" using scan_word_cstr [OF c] by (simp add: e_def w_def)
    have cw: "cstr m p (w @ rest)" using c ys by simp
    have e: "cstr m e rest" unfolding e_def by (rule cstr_append [OF cw])
    have ih: "\<exists>m' ps. parse_arguments m2 scan2 args2 = Some (m', args2 @ ps) \<and> list_all2 (cstr m') ps (command_args (drop 1 rest))
        \<and> (\<forall>x. x \<notin> run scan2 (Suc (length (drop 1 rest))) \<longrightarrow> m' x = m2 x)" if "cstr m2 scan2 (drop 1 rest)" for m2 scan2 args2
      using 1(1) [OF ys_def False] that by (simp add: rest_def)
    show ?thesis
    proof (cases rest)
      case Nil
      then have m0: "m e = 0" using e by (simp add: cstr_Nil)
      have "command_args (drop 1 rest) = []" by (subst command_args.simps) (simp add: Nil)
      moreover have "cstr m p w" using cw Nil by simp
      ultimately show ?thesis using parse_last [OF sk p sw m0, of args] args
        by (intro exI [of _ m] exI [of _ "[p]"] conjI allI impI) (simp_all only: list_all2_Cons list_all2_Nil simp_thms)
    next
      case (Cons b zs)
      define z where "z = p + of_nat (Suc (length w))"
      have e0: "m e \<noteq> 0" using e Cons by (simp add: cstr_Cons)
      have ez: "e + 1 = z" by (simp add: z_def e_def ac_simps)
      note step = parse_more [OF sk p sw e0, of args, unfolded ez]
      have cut: "cstr (m(e := 0)) p w" "cstr (m(e := 0)) z (drop 1 rest)"
        using cstr_cut(1) [OF cw] cstr_cut(2) [OF cw Cons] Cons by (simp_all add: e_def z_def)
      obtain m' ps where m': "parse_arguments (m(e := 0)) z (args @ [p]) = Some (m', (args @ [p]) @ ps)"
          "list_all2 (cstr m') ps (command_args (drop 1 rest))" "\<forall>x. x \<notin> run z (Suc (length (drop 1 rest))) \<longrightarrow> m' x = (m(e := 0)) x"
        using ih [OF cut(2)] by blast
      have tot: "length sp + Suc (length w) + Suc (length (drop 1 rest)) = Suc (length xs)" using split ys Cons by simp
      have lt: "Suc (length xs) \<le> 4294967296" using 1(2) by (simp add: cstr_def)
      have "cstr m' p w"
      proof -
        have "m' x = (m(e := 0)) x" if "x \<in> run p (Suc (length w))" for x
        proof -
          have "x \<notin> run z (Suc (length (drop 1 rest)))"
            using run_later [of x p "Suc (length w)" "Suc (length (drop 1 rest))"] that tot lt unfolding z_def by linarith
          then show ?thesis using m'(3) by blast
        qed
        then have "cstr m' p w = cstr (m(e := 0)) p w" by (rule cstr_cong)
        then show ?thesis using cut(1) by blast
      qed
      moreover have "m' x = m x" if x: "x \<notin> run scan (Suc (length xs))" for x
      proof -
        have "z = scan + of_nat (length sp + Suc (length w))" by (simp add: z_def p_def ac_simps)
        then have "run z (Suc (length (drop 1 rest))) \<subseteq> run scan (Suc (length xs))"
          using sub [of "length sp + Suc (length w)" "Suc (length (drop 1 rest))"] tot by (simp only: order_refl)
        moreover have "e \<in> run scan (Suc (length xs))"
          using tot by (intro image_eqI [of _ _ "length sp + length w"]) (simp_all add: e_def p_def)
        ultimately have "x \<notin> run z (Suc (length (drop 1 rest)))" "x \<noteq> e" using x by blast+
        then show ?thesis using m'(3) by simp
      qed
      moreover have "parse_arguments m scan args = Some (m', args @ (p # ps))" using step m'(1) by simp
      moreover have "list_all2 (cstr m') (p # ps) (w # command_args (drop 1 rest))" if "cstr m' p w" using that m'(2) by simp
      ultimately show ?thesis unfolding args by blast
    qed
  qed
qed

lemma split_command_eq:
  assumes c: "cstr m command cs" and len: "length cs \<le> 1023"
    and ap: "run buf 1026 \<inter> run command (Suc (length cs)) = {}"
  obtains m' ps where "split_command m buf command = Some (m', buf # ps)" "list_all2 (cstr m') (buf # ps) (command_argv cs)"
    "\<forall>x. x \<notin> run buf 1026 \<longrightarrow> m' x = m x"
proof -
  define w rest where "w = takeWhile plain cs" and "rest = dropWhile plain cs"
  have cs: "cs = w @ rest" by (simp add: w_def rest_def)
  define m1 m2 where "m1 = m(buf := 0x2E, buf + 1 := 0x2F)" and "m2 = store m1 (buf + 2) (cs @ [0])"
  define e where "e = buf + 2 + of_nat (length w)"
  have nz: "0 \<notin> set cs" using c by (simp add: cstr_def)
  have in0: "buf + of_nat i \<in> run buf 1026" if "i < 1026" for i using that by blast
  have b01: "buf \<in> run buf 1026" "buf + 1 \<in> run buf 1026"
    by (rule image_eqI [of _ _ 0], simp_all) (rule image_eqI [of _ _ 1], simp_all)
  have m1: "m1 x = m x" if "x \<notin> run buf 1026" for x
  proof -
    have "x \<noteq> buf" "x \<noteq> buf + 1" using that b01 by blast+
    then show ?thesis by (simp add: m1_def)
  qed
  have "m1 x = m x" if "x \<in> run command (Suc (length cs))" for x by (rule m1) (use that ap in blast)
  then have "cstr m1 command cs = cstr m command cs" by (rule cstr_cong)
  then have c1: "cstr m1 command cs" using c by simp
  have sub2: "run (buf + 2) (Suc (length cs)) \<subseteq> run buf 1026" using run_subset [of 2 "Suc (length cs)" 1026 buf] len by simp
  have "disjoint (buf + 2) (Suc (length cs)) command (Suc (length cs))"
    unfolding disjoint_def using sub2 ap by blast
  from strcpy_store [OF c1 this] have cp: "ece391_strcpy m1 (buf + 2) command = Some m2" by (simp add: ece391_strcpy_eq m2_def)
  have c2: "cstr m2 (buf + 2) cs" unfolding m2_def by (rule cstr_store) (use nz len in simp_all)
  have out: "m2 x = m1 x" if "x \<notin> run (buf + 2) (Suc (length cs))" for x
    using store_outside_run [of x "buf + 2" "cs @ [0]" m1] that by (simp add: m2_def)
  have "buf + of_nat i \<notin> run (buf + of_nat 2) (Suc (length cs))" if "i < 2" for i :: nat
  proof
    assume "buf + of_nat i \<in> run (buf + of_nat 2) (Suc (length cs))"
    then have "buf + of_nat i \<notin> run buf 2" by (rule run_later) (use len in simp)
    then show False using \<open>i < 2\<close> by blast
  qed
  from this [of 0] this [of 1] have "m2 buf = 0x2E" "m2 (buf + 1) = 0x2F" using out by (simp_all add: m1_def)
  moreover have "cstr m2 (2 + buf) cs" using c2 by (simp only: add.commute)
  ultimately have cb: "cstr m2 buf (([0x2E, 0x2F] @ w) @ rest)" using len cs by (simp add: cstr_Cons)
  have m2: "m2 x = m x" if "x \<notin> run buf 1026" for x
  proof -
    have "x \<notin> run (buf + 2) (Suc (length cs))" by (rule contra_subsetD [OF sub2 that])
    then show ?thesis by (rule trans [OF out m1 [OF that]])
  qed
  have sw: "scan_word m2 (buf + 2) = Some e" using scan_word_cstr [OF c2] by (simp add: e_def w_def)
  have e': "e = buf + of_nat (length ([0x2E, 0x2F] @ w))" by (simp add: e_def ac_simps)
  have ce: "cstr m2 e rest" unfolding e' by (rule cstr_append [OF cb])
  show thesis
  proof (cases rest)
    case Nil
    have m0: "m2 e = 0" using ce unfolding Nil cstr_Nil .
    have sp: "split_command m buf command = Some (m2, [buf])"
      using cp sw m0 by (simp add: split_command_def m1_def)
    moreover have "command_args (drop 1 rest) = []" by (subst command_args.simps) (simp add: Nil)
    then have "command_argv cs = [[0x2E, 0x2F] @ w]" by (simp add: command_argv_def w_def rest_def)
    moreover have "cstr m2 buf ([0x2E, 0x2F] @ w)" using cb Nil by simp
    ultimately have "list_all2 (cstr m2) [buf] (command_argv cs)" by simp
    moreover have "\<forall>x. x \<notin> run buf 1026 \<longrightarrow> m2 x = m x" by (intro allI impI) (rule m2)
    ultimately show thesis by (rule that [OF sp])
  next
    case (Cons b zs)
    have e0: "m2 e \<noteq> 0" using ce unfolding Cons cstr_Cons by blast
    have dz: "drop 1 rest = zs" by (simp add: Cons)
    have ez: "e + 1 = buf + of_nat (Suc (length ([0x2E, 0x2F] @ w)))" by (simp add: e' ac_simps)
    note cut = cstr_cut(1) [OF cb, folded e'] cstr_cut(2) [OF cb Cons, folded e' ez]
    obtain m' ps where m': "parse_arguments (m2(e := 0)) (e + 1) [buf] = Some (m', [buf] @ ps)"
        "list_all2 (cstr m') ps (command_args zs)" "\<forall>x. x \<notin> run (e + 1) (Suc (length zs)) \<longrightarrow> m' x = (m2(e := 0)) x"
      using parse_arguments_eq [OF cut(2), of "[buf]"] by blast
    have lz: "Suc (length ([0x2E, 0x2F] @ w)) + Suc (length zs) = length cs + 3" using cs Cons by simp
    have "split_command m buf command = Some (m', buf # ps)"
      using cp sw e0 m'(1) by (simp add: split_command_def m1_def)
    moreover have "cstr m' buf ([0x2E, 0x2F] @ w)"
    proof -
      have "m' x = (m2(e := 0)) x" if "x \<in> run buf (Suc (length ([0x2E, 0x2F] @ w)))" for x
      proof -
        have "x \<notin> run (e + 1) (Suc (length zs))"
          using run_later [of x buf "Suc (length ([0x2E, 0x2F] @ w))" "Suc (length zs)"] that lz len unfolding ez by linarith
        then show ?thesis using m'(3) by blast
      qed
      then have "cstr m' buf ([0x2E, 0x2F] @ w) = cstr (m2(e := 0)) buf ([0x2E, 0x2F] @ w)" by (rule cstr_cong)
      then show ?thesis using cut(1) by blast
    qed
    then have "list_all2 (cstr m') (buf # ps) (command_argv cs)"
      using m'(2) dz by (simp add: command_argv_def w_def rest_def)
    moreover have "\<forall>x. x \<notin> run buf 1026 \<longrightarrow> m' x = m x"
    proof (intro allI impI)
      fix x assume x: "x \<notin> run buf 1026"
      have "run (e + 1) (Suc (length zs)) \<subseteq> run buf 1026" unfolding ez
        by (rule run_subset) (use lz len in linarith)
      moreover have "e \<in> run buf 1026" unfolding e' by (rule in0) (use lz len in linarith)
      ultimately have "x \<notin> run (e + 1) (Suc (length zs))" "x \<noteq> e" using x by blast+
      then show "m' x = m x" using m'(3) m2 [OF x] by simp
    qed
    ultimately show thesis by (rule that)
  qed
qed

section \<open>The arguments joined\<close>

text \<open>The argument text of a vector: the words with one space between each two.\<close>

fun join_args :: "byte list list \<Rightarrow> byte list" where
  "join_args [] = []"
| "join_args [w] = w"
| "join_args (w # ws) = w @ 0x20 # join_args ws"

lemma join_args_Cons: "ws \<noteq> [] \<Longrightarrow> join_args (w # ws) = w @ 0x20 # join_args ws"
  by (cases ws) simp_all

text \<open>A word can be an argument: it is not empty and has nothing that ends one.\<close>

definition is_word :: "byte list \<Rightarrow> bool" where
  "is_word w \<longleftrightarrow> w \<noteq> [] \<and> 0x20 \<notin> set w \<and> 0x0A \<notin> set w"

lemma is_word_ends:
  assumes "is_word w"
  shows "takeWhile plain (w @ 0x20 # xs) = w" "dropWhile plain (w @ 0x20 # xs) = 0x20 # xs"
    "takeWhile plain w = w" "dropWhile plain w = []" "dropWhile (\<lambda>b. b = 0x20) (w @ xs) = w @ xs" "hd (w @ xs) \<noteq> 0x0A"
proof -
  have p: "\<forall>b \<in> set w. plain b" using assms by (auto simp: is_word_def)
  have "takeWhile plain (w @ ys) = w @ takeWhile plain ys" "dropWhile plain (w @ ys) = dropWhile plain ys" for ys
    using p by (simp_all add: takeWhile_append2 dropWhile_append2)
  from this [of "0x20 # xs"] this [of "[]"]
  show "takeWhile plain (w @ 0x20 # xs) = w" "dropWhile plain (w @ 0x20 # xs) = 0x20 # xs"
    "takeWhile plain w = w" "dropWhile plain w = []" by simp_all
  obtain b v where w: "w = b # v" using assms by (cases w) (auto simp: is_word_def)
  then have "plain b" using p by simp
  then show "dropWhile (\<lambda>b. b = 0x20) (w @ xs) = w @ xs" "hd (w @ xs) \<noteq> 0x0A" using w by simp_all
qed

text \<open>Splitting what was joined gives the words back.\<close>

lemma command_args_join: "\<forall>w \<in> set ws. is_word w \<Longrightarrow> command_args (join_args ws) = ws"
proof (induction ws)
  case Nil
  then show ?case by (subst command_args.simps) simp
next
  case (Cons w ws)
  then have w: "is_word w" "w \<noteq> []" and ih: "command_args (join_args ws) = ws" by (simp_all add: is_word_def)
  show ?case
  proof (cases ws)
    case Nil
    have "command_args [] = []" by (subst command_args.simps) simp
    then show ?thesis using w is_word_ends(5,6) [OF w(1), of "[]"] Nil
      by (subst command_args.simps) (simp add: Let_def is_word_ends(3,4) [OF w(1)])
  next
    case Cons
    then have "join_args (w # ws) = w @ 0x20 # join_args ws" by (simp add: join_args_Cons)
    then show ?thesis using w ih is_word_ends(1,2,5,6) [OF w(1)]
      by (subst command_args.simps) (simp add: Let_def)
  qed
qed

lemma command_argv_join:
  assumes "is_word w" and "\<forall>v \<in> set ws. is_word v"
  shows "command_argv (join_args (w # ws)) = ([0x2E, 0x2F] @ w) # ws"
proof (cases ws)
  case Nil
  have "command_args [] = []" by (subst command_args.simps) simp
  then show ?thesis using Nil by (simp add: command_argv_def is_word_ends(3,4) [OF assms(1)])
next
  case Cons
  then have "join_args (w # ws) = w @ 0x20 # join_args ws" by (simp add: join_args_Cons)
  then show ?thesis using is_word_ends(1,2) [OF assms(1)] command_args_join [OF assms(2)] by (simp add: command_argv_def)
qed

section \<open>getargs\<close>

text \<open>The strings the pointers from \<open>argv[idx]\<close> on point to, clear of the area \<open>B\<close>.\<close>

fun strings_at :: "mem \<Rightarrow> addr \<Rightarrow> int \<Rightarrow> addr set \<Rightarrow> byte list list \<Rightarrow> bool" where
  "strings_at m argv idx B [] \<longleftrightarrow> True"
| "strings_at m argv idx B (w # ws) \<longleftrightarrow>
     (let p = argv + 4 * word_of_int idx
      in cstr m (load32 m p) w \<and> length w < 2147483648 \<and> run p 4 \<inter> B = {} \<and> run (load32 m p) (Suc (length w)) \<inter> B = {})
     \<and> strings_at m argv (idx + 1) B ws"

lemma strings_at_off:
  "strings_at m argv idx B ws \<Longrightarrow> \<forall>x. x \<notin> B \<longrightarrow> m' x = m x \<Longrightarrow> B' \<subseteq> B \<Longrightarrow> strings_at m' argv idx B' ws"
proof (induction ws arbitrary: idx)
  case (Cons w ws)
  let ?p = "argv + 4 * word_of_int idx"
  have o: "cstr m (load32 m ?p) w" "length w < 2147483648" "run ?p 4 \<inter> B = {}" "run (load32 m ?p) (Suc (length w)) \<inter> B = {}"
    and tl: "strings_at m argv (idx + 1) B ws"
    using Cons.prems(1) by (simp_all add: Let_def)
  have l: "load32 m' ?p = load32 m ?p"
  proof (rule load32_cong)
    fix x assume "x \<in> run ?p 4"
    then have "x \<notin> B" using o(3) by blast
    then show "m' x = m x" using Cons.prems(2) by blast
  qed
  have "cstr m' (load32 m ?p) w = cstr m (load32 m ?p) w"
  proof (rule cstr_cong)
    fix x assume "x \<in> run (load32 m ?p) (Suc (length w))"
    then have "x \<notin> B" using o(4) by blast
    then show "m' x = m x" using Cons.prems(2) by blast
  qed
  moreover have "run ?p 4 \<inter> B' = {}" "run (load32 m ?p) (Suc (length w)) \<inter> B' = {}" using o(3,4) Cons.prems(3) by blast+
  ultimately show ?case using o(1,2) l Cons.IH [OF tl Cons.prems(2,3)] by (simp only: strings_at.simps Let_def simp_thms)
qed simp

lemma getargs_loop_eq:
  assumes "strings_at m argv idx (run buf (Suc (nat nbytes))) ws" and "ws \<noteq> []" and "argc = idx + int (length ws)"
    and "0 \<le> nbytes" "nbytes < 2147483648"
  shows "if int (length (join_args ws)) < nbytes
    then getargs_loop argv argc m idx buf nbytes = Some (0, store m buf (join_args ws @ [0]))
    else \<exists>m'. getargs_loop argv argc m idx buf nbytes = Some (-1, m')
      \<and> (\<forall>x. x \<notin> run buf (Suc (nat nbytes)) \<longrightarrow> m' x = m x)"
  using assms
proof (induction ws arbitrary: m idx buf nbytes)
  case (Cons w ws)
  let ?p = "load32 m (argv + 4 * word_of_int idx)" and ?n = "int (length w)"
  define B where "B = run buf (Suc (nat nbytes))"
  have w: "cstr m ?p w" "length w < 2147483648" "run ?p (Suc (length w)) \<inter> B = {}"
    and tl: "strings_at m argv (idx + 1) B ws"
    using Cons.prems(1) by (simp_all add: Let_def B_def)
  have sl: "ece391_strlen m ?p = Some (of_nat (length w))" using strlen_cstr [OF w(1)] by (simp add: ece391_strlen_eq)
  have sn: "sint (of_nat (length w) :: u32) = ?n" using sint_of_int_u32 [of ?n] w(2) by simp
  have idx: "idx < argc" using Cons.prems(3) by simp
  show ?case
  proof (cases "?n > nbytes")
    case True
    then have "getargs_loop argv argc m idx buf nbytes = Some (-1, m)"
      using idx sl sn by (subst getargs_loop.simps) (simp add: Let_def)
    moreover have "int (length (join_args (w # ws))) \<ge> ?n" by (cases ws) simp_all
    ultimately show ?thesis using True by auto
  next
    case False
    then have nw: "?n \<le> nbytes" by simp
    define m1 where "m1 = store m buf (w @ [0])"
    have subw: "run buf (Suc (length w)) \<subseteq> B" unfolding B_def by (rule image_mono) (use nw in auto)
    have "disjoint buf (Suc (length w)) ?p (Suc (length w))" unfolding disjoint_def using subw w(3) by blast
    from strcpy_store [OF w(1) this] have cp: "ece391_strcpy m buf ?p = Some m1" by (simp add: ece391_strcpy_eq m1_def)
    have m1: "m1 x = m x" if "x \<notin> B" for x
    proof -
      have "x \<notin> run buf (Suc (length w))" by (rule contra_subsetD [OF subw that])
      then show ?thesis unfolding m1_def by (intro store_outside_run) simp
    qed
    have step: "getargs_loop argv argc m idx buf nbytes =
       (if idx + 1 \<ge> argc then Some (getargs_end m1 (buf + of_nat (length w)) (nbytes - ?n))
        else if nbytes - ?n < 1 then Some (-1, m1)
        else getargs_loop argv argc (m1(buf + of_nat (length w) := 0x20)) (idx + 1) (buf + of_nat (length w) + 1) (nbytes - ?n - 1))"
      using idx sl sn nw cp by (subst getargs_loop.simps) (simp add: Let_def)
    show ?thesis
    proof (cases "ws = []")
      case True
      have "m1(buf + of_nat (length w) := 0) = m1"
        using w(2) by (simp add: m1_def store_at nth_append fun_upd_idem)
      then show ?thesis using step True Cons.prems(3) m1 nw by (auto simp: getargs_end_def m1_def B_def)
    next
      case ws: False
      then have more: "\<not> idx + 1 \<ge> argc" using Cons.prems(3) by (cases ws) auto
      have j: "join_args (w # ws) = w @ 0x20 # join_args ws" by (rule join_args_Cons [OF ws])
      show ?thesis
      proof (cases "nbytes - ?n < 1")
        case True
        then have "getargs_loop argv argc m idx buf nbytes = Some (-1, m1)" using step more by simp
        then show ?thesis using True m1 unfolding j B_def by auto
      next
        case False
        let ?buf = "buf + of_nat (length w) + 1" and ?nb = "nbytes - ?n - 1"
        define m2 where "m2 = m1(buf + of_nat (length w) := 0x20)"
        have m2: "m2 = store m buf (w @ [0x20])"
        proof -
          have a: "length w + length [0 :: byte] \<le> 4294967296" "length w + length [0x20 :: byte] \<le> 4294967296" using w(2) by simp_all
          have "(store m buf w)(buf + of_nat (length w) := 0) = m1" "(store m buf w)(buf + of_nat (length w) := 0x20) = store m buf (w @ [0x20])"
            using store_append [OF a(1), of m buf] store_append [OF a(2), of m buf] by (simp_all add: m1_def)
          then show ?thesis unfolding m2_def by (metis fun_upd_upd)
        qed
        have eb: "?buf = buf + of_nat (Suc (length w))" by (simp add: ac_simps)
        have sub: "run ?buf (Suc (nat ?nb)) \<subseteq> B" unfolding eb B_def
          by (rule run_subset) (use False nw in linarith)
        have inB: "buf + of_nat (length w) \<in> B" using subw by auto
        have off2: "\<forall>x. x \<notin> B \<longrightarrow> m2 x = m x" using m1 inB by (auto simp: m2_def)
        have st: "strings_at m2 argv (idx + 1) (run ?buf (Suc (nat ?nb))) ws" by (rule strings_at_off [OF tl off2 sub])
        have loop: "getargs_loop argv argc m idx buf nbytes = getargs_loop argv argc m2 (idx + 1) ?buf ?nb"
          using step more False by (simp add: m2_def)
        have c: "argc = idx + 1 + int (length ws)" "0 \<le> ?nb" "?nb < 2147483648" using Cons.prems(3,5) False by simp_all
        note ih = Cons.IH [OF st ws c]
        show ?thesis
        proof (cases "int (length (join_args ws)) < ?nb")
          case True
          have "store m2 ?buf (join_args ws @ [0]) = store m buf ((w @ [0x20]) @ join_args ws @ [0])"
            unfolding m2 eb using store_append [of "w @ [0x20]" "join_args ws @ [0]" m buf] True c(3) w(2) by simp
          then show ?thesis using ih loop True j by simp
        next
          case f: False
          obtain m' where m': "getargs_loop argv argc m2 (idx + 1) ?buf ?nb = Some (-1, m')"
              "\<forall>x. x \<notin> run ?buf (Suc (nat ?nb)) \<longrightarrow> m' x = m2 x"
            using ih f by (simp only: if_False) blast
          have "\<forall>x. x \<notin> B \<longrightarrow> m' x = m x"
          proof (intro allI impI)
            fix x assume x: "x \<notin> B"
            then have "x \<notin> run ?buf (Suc (nat ?nb))" by (rule contra_subsetD [OF sub])
            then show "m' x = m x" using m'(2) off2 x by simp
          qed
          moreover have "\<not> int (length (join_args (w # ws))) < nbytes" using f unfolding j by simp
          ultimately show ?thesis using m'(1) loop by (simp only: if_False B_def) blast
        qed
      qed
    qed
  qed
qed simp

section \<open>The directory\<close>

lemma name_pad_eq:
  "0 \<le> copied \<Longrightarrow> name_pad m to copied nbytes =
     (if copied < nbytes \<and> copied < 32 then (min nbytes 32, store m to (replicate (nat (min nbytes 32 - copied)) 0)) else (copied, m))"
proof (induction m to copied nbytes rule: name_pad.induct)
  case (1 m to copied nbytes)
  show ?case
  proof (cases "nbytes > copied \<and> 32 > copied")
    case True
    let ?k = "nat (min nbytes 32 - (copied + 1))"
    have k: "nat (min nbytes 32 - copied) = Suc ?k" "Suc ?k \<le> 32" using True 1(2) by auto
    have ih: "name_pad (m(to := 0)) (to + 1) (copied + 1) nbytes = (min nbytes 32, store (m(to := 0)) (to + 1) (replicate ?k 0))"
      using 1(1) [OF True] 1(2) True by (auto simp del: fun_upd_apply simp: min_def)
    have "store (m(to := 0)) (to + 1) (replicate ?k 0) = store m to (replicate (Suc ?k) 0)"
      using store_Cons [of "replicate ?k 0" m to 0] k(2) by simp
    then show ?thesis using True ih k(1) by (subst name_pad.simps) simp
  next
    case False
    then show ?thesis by (subst name_pad.simps) auto
  qed
qed

lemma name_copy_eq:
  assumes "cstr m d name" and "0 \<le> copied" "copied < nbytes" "copied < 32" and "k = nat (min nbytes 32 - copied)"
    and "disjoint to k d (Suc (length name))"
  shows "name_copy m to d copied nbytes = Some (min nbytes 32, store m to (take k (name @ replicate k 0)))"
  using assms
proof (induction name arbitrary: m to d copied k)
  case Nil
  then have "m d = 0" by (simp add: cstr_Nil)
  then show ?case using Nil.prems(2-5) by (subst name_copy.simps) (simp add: name_pad_eq)
next
  case (Cons b name)
  let ?m = "m(to := b)"
  have c: "m d = b" "b \<noteq> 0" "cstr m (d + 1) name" using Cons.prems(1) by (simp_all add: cstr_Cons)
  have "k \<noteq> 0" using Cons.prems(2-5) by simp
  then obtain j where k: "k = Suc j" by (metis not0_implies_Suc)
  have j: "j \<le> 31" "j = nat (min nbytes 32 - (copied + 1))" using Cons.prems(2-5) k by auto
  show ?case
  proof (cases "copied + 1 = nbytes \<or> copied + 1 = 32")
    case True
    then have "j = 0" "min nbytes 32 = copied + 1" using j(2) Cons.prems(3,4) by auto
    then show ?thesis using True c(1,2) k by (subst name_copy.simps) (auto simp: Let_def)
  next
    case False
    have "?m x = m x" if run: "x \<in> run (d + 1) (Suc (length name))" for x
    proof -
      obtain i where i: "x = d + 1 + of_nat i" "i \<in> {..<Suc (length name)}" by (rule imageE [OF run])
      then have "x = d + of_nat (Suc i)" "Suc i < Suc (length (b # name))" by simp_all
      then have "to + of_nat 0 \<noteq> x" using disjointD [OF Cons.prems(6), of 0 "Suc i"] k by blast
      then show ?thesis by simp
    qed
    then have "cstr ?m (d + 1) name = cstr m (d + 1) name" by (rule cstr_cong)
    then have c': "cstr ?m (d + 1) name" using c(3) by blast
    have "disjoint (to + of_nat 1) j (d + of_nat 1) (Suc (length name))"
      by (rule disjoint_sub [OF Cons.prems(6)]) (simp_all add: k)
    then have dj: "disjoint (to + 1) j (d + 1) (Suc (length name))" by simp
    have "name_copy ?m (to + 1) (d + 1) (copied + 1) nbytes
        = Some (min nbytes 32, store ?m (to + 1) (take j (name @ replicate j 0)))"
      by (rule Cons.IH [OF c' _ _ _ j(2) dj]) (use Cons.prems(2-4) False in auto)
    moreover have "store ?m (to + 1) (take j (name @ replicate j 0)) = store m to (b # take j (name @ replicate j 0))"
      by (rule store_Cons) (use j(1) in simp)
    moreover have "take k ((b # name) @ replicate k 0) = b # take j (name @ replicate j 0)"
      unfolding k by (simp add: min_def del: replicate_Suc)
    ultimately show ?thesis using False c(1,2) by (subst name_copy.simps) (simp add: Let_def)
  qed
qed

section \<open>Properties\<close>

text \<open>How the host starts a program: the number of arguments, then the pointers to them, on its stack.\<close>

definition started_with :: "byte list list \<Rightarrow> addr \<Rightarrow> int \<Rightarrow> 'h emu \<Rightarrow> bool" where
  "started_with argv buf nbytes t \<longleftrightarrow> load32 (emem t) (start_esp t) = of_nat (length argv) \<and> length argv < 2147483648
     \<and> strings_at (emem t) (start_esp t + 4) 0 (run buf (Suc (nat nbytes))) argv"

lemma emulate_command:
  assumes c: "cstr (emem s) command cs" and l: "length cs \<le> 1023" and ap: "run buf 1026 \<inter> run command (Suc (length cs)) = {}"
    and f: "lib_fork L (host s) = (True, h)"
  shows "\<exists>m ps. host_execute L buf command s = Some (exit_value (fst (child L m buf (buf # ps) h)),
        s\<lparr>emem := m, host := snd (child L m buf (buf # ps) h)\<rparr>) \<and> list_all2 (cstr m) (buf # ps) (command_argv cs)"
proof -
  obtain m ps where m: "split_command (emem s) buf command = Some (m, buf # ps)" "list_all2 (cstr m) (buf # ps) (command_argv cs)"
    using split_command_eq [OF c l ap] by blast
  have "\<not> 1023 < (of_nat (length cs) :: u32)" using l by (simp add: word_less_nat_alt)
  then have "host_execute L buf command s = Some (exit_value (fst (child L m buf (buf # ps) h)),
        s\<lparr>emem := m, host := snd (child L m buf (buf # ps) h)\<rparr>)"
    using strlen_cstr [OF c] m(1) by (simp add: host_execute_def ece391_strlen_eq split_beta Let_def f)
  with m(2) show ?thesis by blast
qed

lemma emulate_getargs:
  assumes t: "started_with (path # ws) abuf n t" and n: "0 \<le> n" "n < 2147483648"
  shows "if int (length (join_args ws)) < n then host_getargs abuf n t = Some (0, t\<lparr>emem := store (emem t) abuf (join_args ws @ [0])\<rparr>)
       else \<exists>m. host_getargs abuf n t = Some (-1, t\<lparr>emem := m\<rparr>) \<and> (\<forall>x. x \<notin> run abuf (Suc (nat n)) \<longrightarrow> m x = emem t x)"
proof -
  have argc: "sint (load32 (emem t) (start_esp t)) = 1 + int (length ws)"
    using t sint_of_int_u32 [of "1 + int (length ws)"] by (simp add: started_with_def)
  have st: "strings_at (emem t) (start_esp t + 4) 1 (run abuf (Suc (nat n))) ws"
    using t by (simp add: started_with_def)
  show ?thesis
  proof (cases "ws = []")
    case True
    have "getargs_loop a 1 m2 1 abuf n = Some (getargs_end m2 abuf n)" for a m2 by (subst getargs_loop.simps) simp
    then show ?thesis using True argc by (auto simp: host_getargs_def getargs_end_def intro!: exI [of _ "emem t"])
  next
    case False
    note loop = getargs_loop_eq [OF st False argc n]
    show ?thesis
    proof (cases "int (length (join_args ws)) < n")
      case True
      then show ?thesis using loop by (simp add: host_getargs_def)
    next
      case f: False
      then obtain m where "getargs_loop (start_esp t + 4) (sint (load32 (emem t) (start_esp t))) (emem t) 1 abuf n = Some (-1, m)"
          "\<forall>x. x \<notin> run abuf (Suc (nat n)) \<longrightarrow> m x = emem t x"
        using loop by (simp only: if_False) blast
      then show ?thesis using f by (simp only: if_False) (intro exI [of _ m], simp add: host_getargs_def)
    qed
  qed
qed

text \<open>C31: on the host a program gets the words of the command it was started by. Given any command of up to
  1023 characters, \<open>ece391_execute\<close> (when \<open>fork\<close> makes a child) calls \<open>execv\<close> with a path at the start
  of its buffer and a vector that begins with the same pointer, and whose strings are "./" followed by the
  first word, and then the other words of the command, without the spaces between them; it returns the
  exit status, \<open>-1\<close> where the program cannot be run, or 256 where another signal ended it. A program
  that the host starts with that vector gets from \<open>ece391_getargs\<close> the words after the first with
  one space between each two, however many the command had, or \<open>-1\<close> where that does not fit, with
  nothing written past the byte after its buffer. Where the command is words with one space between
  each two, the vector's words are these.\<close>

theorem emulate_passes_arguments:
  assumes "cstr (emem s) command cs" and "length cs \<le> 1023" and "run buf 1026 \<inter> run command (Suc (length cs)) = {}"
    and "lib_fork L (host s) = (True, h)" and "command_argv cs = path # args"
    and "started_with (path # args) abuf n t" and "0 \<le> n" "n < 2147483648"
  shows "(\<exists>m ps. host_execute L buf command s = Some (exit_value (fst (child L m buf (buf # ps) h)),
        s\<lparr>emem := m, host := snd (child L m buf (buf # ps) h)\<rparr>) \<and> cstr m buf path \<and> list_all2 (cstr m) ps args)
    \<and> path = [0x2E, 0x2F] @ takeWhile (\<lambda>b. b \<noteq> 0x20 \<and> b \<noteq> 0x0A) cs
    \<and> (if int (length (join_args args)) < n then host_getargs abuf n t = Some (0, t\<lparr>emem := store (emem t) abuf (join_args args @ [0])\<rparr>)
       else \<exists>m. host_getargs abuf n t = Some (-1, t\<lparr>emem := m\<rparr>) \<and> (\<forall>x. x \<notin> run abuf (Suc (nat n)) \<longrightarrow> m x = emem t x))
    \<and> (\<forall>w ws. is_word w \<and> (\<forall>v \<in> set ws. is_word v) \<and> cs = join_args (w # ws) \<longrightarrow> args = ws)"
proof -
  have "\<exists>m ps. host_execute L buf command s = Some (exit_value (fst (child L m buf (buf # ps) h)),
        s\<lparr>emem := m, host := snd (child L m buf (buf # ps) h)\<rparr>) \<and> cstr m buf path \<and> list_all2 (cstr m) ps args"
    using emulate_command [OF assms(1-4)] unfolding assms(5) by simp
  moreover have "path = [0x2E, 0x2F] @ takeWhile plain cs" using assms(5) by (simp add: command_argv_def)
  moreover have "args = ws" if "is_word w \<and> (\<forall>v \<in> set ws. is_word v) \<and> cs = join_args (w # ws)" for w ws
    using command_argv_join [of w ws] that assms(5) by simp
  ultimately show ?thesis using emulate_getargs [OF assms(6-8)] by blast
qed

text \<open>A command "a  b", with two spaces, at \<open>0x1000\<close>, and a program started with "./a" and "b".\<close>

definition emu_example :: "(nat \<Rightarrow> byte) \<Rightarrow> unit emu" where
  "emu_example f = \<lparr>emem = (\<lambda>x. f (unat x)), start_esp = 0x4000, dir_fd = -1, dir = 0, mem_fd = -1, host = ()\<rparr>"

definition emu_command :: "nat \<Rightarrow> byte" where
  "emu_command = (\<lambda>_. 0)(0x1000 := 0x61, 0x1001 := 0x20, 0x1002 := 0x20, 0x1003 := 0x62)"

definition emu_stack :: "nat \<Rightarrow> byte" where
  "emu_stack = (\<lambda>_. 0)(0x4000 := 2, 0x4005 := 0x50, 0x4008 := 0x10, 0x4009 := 0x50,
     0x5000 := 0x2E, 0x5001 := 0x2F, 0x5002 := 0x61, 0x5010 := 0x62)"

definition no_programs :: "unit libc" where
  "no_programs = \<lparr>linux = (\<lambda>n b c d m h. (0, m, h)), lib_opendir = (\<lambda>_ h. (0x7000, h)), lib_readdir = (\<lambda>_ m h. (0x6000, m, h)),
     lib_closedir = (\<lambda>_ h. h), lib_open = (\<lambda>_ _ h. (3, h)), lib_close = (\<lambda>_ h. h), lib_mmap = (\<lambda>_ m h. (None, m, h)),
     lib_perror = (\<lambda>_ h. h), lib_fork = (\<lambda>h. (True, h)), lib_execv = (\<lambda>_ _ _ _. None)\<rparr>"

theorem emulate_passes_arguments_witness:
  "(\<exists>t. host_execute no_programs 0x2000 0x1000 (emu_example emu_command) = Some (-1, t))
    \<and> host_getargs 0x8000 10 (emu_example emu_stack)
      = Some (0, (emu_example emu_stack)\<lparr>emem := store (emem (emu_example emu_stack)) 0x8000 [0x62, 0]\<rparr>)"
proof -
  let ?cs = "[0x61, 0x20, 0x20, 0x62] :: byte list"
  have c: "cstr (emem (emu_example emu_command)) 0x1000 ?cs"
    by (simp add: cstr_def load_def upt_rec emu_example_def emu_command_def)
  have ap: "run 0x2000 1026 \<inter> run 0x1000 (Suc (length ?cs)) = {}"
    by (rule runs_apart) simp_all
  have argv: "command_argv ?cs = ([0x2E, 0x2F] @ [0x61]) # [[0x62]]"
    by (simp add: command_argv_def command_args.simps Let_def)
  have l: "load32 (emem (emu_example emu_stack)) 0x4000 = 2" "load32 (emem (emu_example emu_stack)) 0x4004 = 0x5000"
      "load32 (emem (emu_example emu_stack)) 0x4008 = 0x5010"
    by (simp_all add: load32_def emu_example_def emu_stack_def)
  have s: "cstr (emem (emu_example emu_stack)) 0x5000 [0x2E, 0x2F, 0x61]" "cstr (emem (emu_example emu_stack)) 0x5010 [0x62]"
    by (simp_all add: cstr_def load_def upt_rec emu_example_def emu_stack_def)
  have r: "run 0x4004 4 \<inter> run 0x8000 11 = {}" "run 0x4008 4 \<inter> run 0x8000 11 = {}" "run 0x5000 (Suc (Suc (Suc (Suc 0)))) \<inter> run 0x8000 11 = {}"
    "run 0x5010 (Suc (Suc 0)) \<inter> run 0x8000 11 = {}"
    by (rule runs_apart; simp)+
  have "start_esp (emu_example emu_stack) = 0x4000" by (simp add: emu_example_def)
  then have st: "started_with (([0x2E, 0x2F] @ [0x61]) # [[0x62]]) 0x8000 10 (emu_example emu_stack)"
    using l s r by (simp add: started_with_def)
  have f: "lib_fork no_programs (host (emu_example emu_command)) = (True, ())" by (simp add: no_programs_def emu_example_def)
  have l1: "length ?cs \<le> 1023" by simp
  note all = emulate_passes_arguments [OF c l1 ap f argv st]
  show ?thesis using all by (auto simp: child_def no_programs_def)
qed

text \<open>A read of the directory on the host gives what the program expects of the kernel: the next
  entry's name in a field of 32 bytes, padded with NULs or cut, and of that field as much as the buffer
  takes. (The kernel's own read returns the length of the name instead of the field's.)\<close>

lemma emulate_dir_read:
  assumes "dir s \<noteq> 0" and "dir_fd s = fd" and "lib_readdir L (dir s) (emem s) (host s) = (d, m, h)" and "d \<noteq> 0"
    and "cstr m d name" and "0 < nbytes" and "run buf (nat (min nbytes 32)) \<inter> run d (Suc (length name)) = {}"
  shows "host_read L fd buf nbytes s
    = Some (min nbytes 32, s\<lparr>emem := store m buf (take (nat (min nbytes 32)) (pad_to 32 name)), host := h\<rparr>)"
proof -
  let ?k = "nat (min nbytes 32)"
  have dj: "disjoint buf ?k d (Suc (length name))" unfolding disjoint_def using assms(7) by blast
  have "name_copy m buf d 0 nbytes = Some (min nbytes 32, store m buf (take ?k (name @ replicate ?k 0)))"
    by (rule name_copy_eq [OF assms(5) _ assms(6) _ _ dj]) simp_all
  moreover have "take ?k (name @ replicate ?k 0) = take ?k (pad_to 32 name)" by (auto simp: pad_to_def min_def)
  ultimately show ?thesis using assms(1-4) by (simp add: host_read_def)
qed

theorem emulate_dir_read_witness:
  "map_option fst (host_read no_programs (-1) 0x9000 4 ((emu_example (\<lambda>_. 0))\<lparr>dir := 0x7000\<rparr>)) = Some 4"
proof -
  let ?s = "(emu_example (\<lambda>_. 0))\<lparr>dir := 0x7000\<rparr>"
  have "lib_readdir no_programs (dir ?s) (emem ?s) (host ?s) = (0x6000, emem ?s, host ?s)" by (simp add: no_programs_def)
  moreover have "cstr (emem ?s) 0x6000 []" by (simp add: cstr_def emu_example_def)
  moreover have "run 0x9000 (nat (min 4 32)) \<inter> run 0x6000 (Suc (length [])) = {}" by (rule runs_apart) simp_all
  ultimately show ?thesis using emulate_dir_read [of ?s "-1" no_programs "0x6000" "emem ?s" "host ?s" "[]" 4 "0x9000"]
    by (simp add: emu_example_def)
qed

end
