(* ===== verification/Spec2Isabelle.thy ===== *)
theory Spec2Isabelle
  imports Kernel Halt Descriptors Isolation Cat Ls Shell Sigtest Blink_List Fish Emulate
begin

text \<open>
  A verification development for a small Unix-like kernel for the 80386
  (\<open>src/student-distrib\<close>), its user programs (\<open>src/syscalls\<close>) and the fish demo
  (\<open>src/fish\<close>).

  \<^bold>\<open>The program.\<close> The kernel runs up to six processes on three text terminals. The boot loader
  calls \<open>entry\<close> (\<open>kernel.c\<close>), which sets up the descriptors, the interrupt table, the interrupt
  controllers, the devices, paging, the file system and the terminals, and waits; the first timer
  interrupt launches a shell. From then on everything happens in interrupt handlers: the keyboard
  edits the line of the displayed terminal, the clock counts down per process, the timer gives the
  processor to the next terminal, exceptions end the process, and \<open>INT 0x80\<close> enters a system
  call. A system call reaches the drivers (terminal, file, directory, clock) through the table of
  operations in a file descriptor of the running process.

  \<^bold>\<open>The model.\<close> The state is one record that grows along the imports: \<open>machine\<close> (memory, ports
  written, interrupt flag, stack registers), then the globals of each C file. A C function is a
  HOL function of the same name from state to state, with a result where the code has one; a name
  that HOL or an earlier file uses gets a prefix (\<open>sys_read\<close> for \<open>read\<close>). Memory is flat: an
  address is a 32-bit word, and a pointer argument an address. A loop without a bound is a
  \<open>partial_function (option)\<close>, and an access outside an array of structures is an outcome of its
  own; both are \<open>None\<close>. The inline assembly that leaves a C function for another program
  (\<open>iret\<close> in \<open>execute\<close>, the stack switch in \<open>halt\<close> and in the scheduler) ends the definition with
  the state at that instruction and the registers it loads.

  \<^bold>\<open>Theories, in the order of the imports.\<close>
  \<^item> \<open>Prelude\<close>: machine integers, memory as a function, \<open>load\<close> and \<open>store\<close> of byte runs, disjoint
    runs, bounded loops (\<open>for_range\<close>), the collections \<open>mem_simps\<close>, \<open>inv_intros\<close>, \<open>frame_simps\<close>.
  \<^item> \<open>Lib_Mem\<close> (\<open>lib.c\<close>): \<open>memset\<close> and its word versions, \<open>memcpy\<close>, \<open>memmove\<close> at the level of their
    assembly, equal to the reference \<open>store\<close>. \<open>Lib_String\<close> (\<open>lib.c\<close>): \<open>strlen\<close>, \<open>strncmp\<close>,
    \<open>strcpy\<close>, \<open>strncpy\<close>, \<open>strrev\<close>, \<open>itoa\<close>: when they return, what they compute, and that reading
    the digits of \<open>itoa\<close> gives the number back.
  \<^item> \<open>Machine\<close> (\<open>lib.h\<close>), \<open>I8259\<close> (\<open>i8259.c\<close>), \<open>Paging\<close> (\<open>paging.c\<close>): port reads and writes, the interrupt
    masks, the page tables with the translation the processor makes of them; each mapping operation
    is specified by the translation before and after it.
  \<^item> \<open>Console\<close>, \<open>Screen\<close>, \<open>Printf\<close> (\<open>lib.c\<close>): cursor, scrolling and character output, for the
    displayed and for a background terminal; the abstract screen \<open>vga_put\<close> both refine;
    \<open>printf\<close> against the meaning \<open>fmt_spec\<close> of a format, over the locale \<open>char_sink\<close>.
  \<^item> \<open>Terminal\<close> (\<open>terminal.c\<close>): saving, restoring and switching, the driver's read and write.
  \<^item> \<open>Pcb\<close> (\<open>system_call.h\<close>, end of \<open>system_call.c\<close>): control blocks by address, the allocation of
    process numbers and the locale \<open>first_fit\<close> of first-fit allocation.
  \<^item> \<open>File_System\<close> (\<open>file_system.c\<close>), \<open>Rtc\<close> (\<open>rtc.c\<close>): the drivers of files, directories and the
    clock; \<open>fs_files\<close> and \<open>file_bytes\<close> say what the image holds.
  \<^item> \<open>Syscalls\<close>, \<open>Process\<close> (\<open>system_call.c\<close>): the calls on descriptors and memory; \<open>execute\<close>,
    \<open>halt\<close> and \<open>term_launch\<close>. \<open>Execute\<close> shows when
    \<open>execute\<close> succeeds and that the arguments reach \<open>getargs\<close>, \<open>Exec_Example\<close> runs it on an image
    with one program, and \<open>Halt\<close> follows \<open>halt\<close> back into the parent. \<open>Descriptors\<close> has
    the step relation \<open>tables_step\<close> of the calls that touch process slots and descriptor tables, and
    the invariant of the states it reaches from a start without processes. \<open>Isolation\<close>
    shows that processes share no memory.
  \<^item> \<open>Keyboard\<close> (\<open>keyboard.c\<close>): the scan codes, the line editor they implement and the invariant of
    every reachable state (\<open>key_step\<close>). \<open>Output\<close>: what a program writes goes through \<open>term_write\<close>
    to \<open>printf\<close>, as its format.
  \<^item> \<open>Scheduling\<close> (\<open>scheduling.c\<close>), \<open>Idt\<close> (\<open>idt.c\<close>, \<open>mouse.c\<close>, \<open>x86_desc.h\<close>), \<open>Kernel\<close>
    (\<open>kernel.c\<close>): the round robin, the interrupt table, the initialisation.
  \<^item> \<open>User_Support\<close> (\<open>ece391support.c\<close>, \<open>ece391syscall.S\<close>), \<open>User_Programs\<close> (the utilities),
    \<open>Syserr\<close> (\<open>ece391syserr.c\<close>): the user programs over a \<open>user_env\<close>, the effect of \<open>INT 0x80\<close>.
    \<open>Syscall_Entry\<close> (\<open>idt_handler.S\<close>) is the kernel's side of it, \<open>User_On_Kernel\<close> runs the
    test program on it, and \<open>Kernel_Calls\<close> has the calls that succeed as a program sees them: opening a
    name and writing text. \<open>Cat\<close> shows that \<open>cat\<close> shows the file it is given, \<open>Ls\<close> that \<open>ls\<close>
    shows the names of the directory from the kernel's position in it on. \<open>Line_Input\<close> is a program that reads typed lines, over the
    locale \<open>line_user\<close> and on the kernel from the scan codes on; \<open>Shell\<close> is a turn of the shell and
    \<open>hello\<close> on it, \<open>Sigtest\<close> (\<open>ece391sigtest.c\<close>) the signal test program, whose fault is an outcome.
  \<^item> \<open>Emulate\<close> (\<open>ece391emulate.c\<close>): the library that runs the programs on a Linux host. The Linux
    calls and the C library are its parameter \<open>libc\<close>; the parsing of a command into an argument
    vector, the joining of the vector for \<open>getargs\<close> and the directory reads are the code's.
  \<^item> \<open>Blink\<close> (\<open>blink.S\<close> and the memory functions of \<open>fish.c\<close>), \<open>Blink_List\<close>, \<open>Fish\<close> (\<open>fish.c\<close>): the
    fish demo's linked list of blinking characters, its abstract list, and the program.

  \<^bold>\<open>Interfaces.\<close> \<open>char_sink\<close> (a routine that puts one character) is implemented by \<open>putc\<close> and
  \<open>multi_putc\<close>; \<open>first_fit\<close> (a table with a free-slot search) by the descriptor table;
  \<open>user_output\<close> and \<open>refusing\<close> (calls that show text, calls that refuse) and
  \<open>line_user\<close>, which extends the first with a buffer and typed lines, by the kernel's entry.

  \<^bold>\<open>What the properties show.\<close> The routines of \<open>lib.c\<close> equal their references on every input. The
  console is the abstract screen. A key press is one edit of the typed line, and a program that
  waits for a line gets the one typed. Files are read as they are stored, through any sequence of
  reads. Descriptors and process slots are allocated first fit and stay within bounds, and every
  process has a well-formed descriptor table whatever calls are made; bad
  descriptors are refused without an effect. \<open>execute\<close> creates the process the command describes,
  \<open>halt\<close> gives everything back to the parent, and with three processes the scheduler returns to an interrupted one
  at the third timer interrupt, counting the one that took the processor. Switching terminals loses nothing. The user library agrees with the
  kernel's, but for the sign of \<open>ece391_strncmp\<close> on characters from \<open>0x80\<close> on; six of the eight
  system call tests pass on the kernel; text without a percent sign, which \<open>printf\<close> would take as
  part of a format, is shown as it is, so \<open>cat\<close> shows such files whole, \<open>ls\<close> the directory and
  \<open>hello\<close> the name typed; the shell executes what is typed, and the signal test program ends in its
  fault. On the Linux host a program gets the words of the command too, when \<open>fork\<close> succeeds. A tick of the fish demo's list is a tick
  of every blink. Where the code does not do what it means to, the property states what it does.

  \<^bold>\<open>Bounds and waiting.\<close> Busy waits (\<open>term_read\<close>, \<open>rtc_read\<close>) take the list of interrupts that arrive
  meanwhile; a wait that outlasts the list is \<open>None\<close>, and the properties say which lists suffice.
  Strings and files carry the bounds of their arrays as hypotheses, with \<open>2^32\<close> for what may
  not wrap. The loops of \<open>partial_function\<close> need no fuel; that they return is proved.

  \<^bold>\<open>Not modelled.\<close>
  \<^item> \<open>boot.S\<close>, \<open>x86_desc.S\<close> and the register saving of \<open>idt_handler.S\<close>: static tables and stack
    traffic below the C code. The handlers of \<open>idt_handler.S\<close> only save the registers, call the
    C handler and return; the check and dispatch of \<open>INT 0x80\<close> is modelled.
  \<^item> What a device answers: the handlers take the value they read from a port as an argument.
    The timing of interrupts elsewhere than at busy waits: handlers run to their end, as in the code, which keeps interrupts off or does
    not depend on them.
  \<^item> The memory is not split by address space: \<open>translate\<close> gives the frame of a user address, but the
    C code's accesses are to one memory. What a program does between its calls is its own model
    (\<open>User_Programs\<close>), and a call that ends in another program (\<open>execute\<close>, \<open>halt\<close>) is a
    parameter (\<open>resume\<close>) there.
  \<^item> \<open>tests.c\<close> (its entry point has an empty body), and the copies in \<open>fish/\<close> of
    \<open>ece391emulate.c\<close>, the same text, and of the support library, the same functions without
    \<open>ece391_itoa\<close>, \<open>ece391_strrev\<close> and the signal calls. The delivery of a signal to a handler: the
    kernel has none, and refuses \<open>set_handler\<close>.
\<close>

end
